(* ===== verification/Prelude.thy ===== *)
theory Prelude
  imports Main
    "HOL-Library.Finite_Map"
    "HOL-Library.Word"
    "HOL-Library.Monad_Syntax"
    "HOL-Library.Char_ord"
    "HOL-Library.List_Lexorder"
    "HOL-Library.Signed_Division"
    "HOL-Library.Sublist"
begin

text \<open>
  The vocabulary the other theories share: the parts of the Go language and of its standard
  library the program uses (64-bit integers, maps and the unspecified order in which a
  \<^verbatim>\<open>range\<close> statement visits them, \<^verbatim>\<open>fmt.Sprintf\<close> of integers and quoted strings,
  \<^verbatim>\<open>strings.ToLower\<close>, errors and their wrapping), the development's collections of
  rewrite rules, and generic facts on lists and finite maps.

  Conventions of the whole development. A Go function that returns \<^verbatim>\<open>(T, error)\<close> returns
  \<^typ>\<open>'e + 'a\<close>, the error on the left. A run-time panic is \<open>None\<close> of an option type. A Go
  map is a finite map \<^typ>\<open>('k, 'v) fmap\<close>; the nil map behaves as the empty map wherever the
  code only reads it, and is told apart with an option where the code compares it to nil. The
  bytes of a Go string are the characters of a HOL \<^typ>\<open>string\<close>.
\<close>

named_theorems phase_simps "equations between the phase constants"
named_theorems model_defs "definitions a component's proofs unfold"

type_synonym int64 = "64 word"

section \<open>Integers\<close>

text \<open>Go's integer division truncates towards zero.\<close>

definition go_div64 :: "int64 \<Rightarrow> int64 \<Rightarrow> int64" where
  "go_div64 a b = word_of_int (sint a sdiv sint b)"

definition int64_range :: "int \<Rightarrow> bool" where
  "int64_range i \<longleftrightarrow> - (2 ^ 63) \<le> i \<and> i < 2 ^ 63"

lemma sint_word_of_int64: "int64_range i \<Longrightarrow> sint (word_of_int i :: int64) = i"
  by (simp add: int64_range_def sint_sbintrunc' signed_take_bit_int_eq_self)

lemma int64_range_sint [simp]: "int64_range (sint (x :: int64))"
  using sint_range_size [of x] by (simp add: int64_range_def word_size)

lemma sint_go_div64:
  assumes "0 < sint b"
  shows "sint (go_div64 a b) = sint a sdiv sint b"
proof -
  have "0 \<le> \<bar>sint a\<bar> div sint b" and "\<bar>sint a\<bar> div sint b \<le> \<bar>sint a\<bar>"
    using assms zdiv_mono2 [of "\<bar>sint a\<bar>" 1 "sint b"]
    by (auto simp: pos_imp_zdiv_nonneg_iff)
  moreover have "sint a sdiv sint b = sgn (sint a) * (\<bar>sint a\<bar> div sint b)"
    using assms by (simp add: signed_divide_int_def)
  ultimately have "int64_range (sint a sdiv sint b)"
    using int64_range_sint [of a] by (auto simp: int64_range_def sgn_if)
  then show ?thesis by (simp add: go_div64_def sint_word_of_int64)
qed

lemma sdiv_nonneg_pos: "0 \<le> a \<Longrightarrow> 0 < b \<Longrightarrow> (a :: int) sdiv b = a div b"
  by (simp add: signed_divide_int_def sgn_if)

text \<open>The constant \<^verbatim>\<open>1024 * 1024\<close> by which the program divides memory sizes.\<close>

definition mebibyte :: int64 where
  "mebibyte = 1024 * 1024"

lemma sint_mebibyte [simp]: "sint mebibyte = 2 ^ 20"
  by (simp add: mebibyte_def)

section \<open>Strings\<close>

definition is_ascii :: "string \<Rightarrow> bool" where
  "is_ascii s \<longleftrightarrow> list_all (\<lambda>c. (of_char c :: nat) < 128) s"

text \<open>The byte mapping \<^verbatim>\<open>strings.ToLower\<close> applies to a string of ASCII bytes.\<close>

definition lower_ascii :: "char \<Rightarrow> char" where
  "lower_ascii c = (let n = (of_char c :: nat) in
     if 65 \<le> n \<and> n \<le> 90 then char_of (n + 32) else c)"

definition digit_char :: "nat \<Rightarrow> char" where
  "digit_char d = char_of (48 + d)"

fun dec_nat :: "nat \<Rightarrow> string" where
  "dec_nat n = (if n < 10 then [digit_char n] else dec_nat (n div 10) @ [digit_char (n mod 10)])"

declare dec_nat.simps [simp del]

text \<open>\<^verbatim>\<open>fmt.Sprintf("%d", i)\<close>.\<close>

definition dec_int :: "int \<Rightarrow> string" where
  "dec_int i = (if i < 0 then ''-'' @ dec_nat (nat (- i)) else dec_nat (nat i))"

definition hex_char :: "nat \<Rightarrow> char" where
  "hex_char d = (if d < 10 then char_of (48 + d) else char_of (87 + d))"

text \<open>
  The escapes of \<^verbatim>\<open>strconv.Quote\<close> on ASCII bytes, which \<^verbatim>\<open>fmt.Sprintf("%q", s)\<close> uses.
\<close>

definition quote_ascii :: "char \<Rightarrow> string" where
  "quote_ascii c = (let n = (of_char c :: nat) in
     if n = 34 then [CHR 0x5C, c]
     else if n = 92 then [CHR 0x5C, c]
     else if 32 \<le> n \<and> n \<le> 126 then [c]
     else if n = 7 then [CHR 0x5C, CHR ''a'']
     else if n = 8 then [CHR 0x5C, CHR ''b'']
     else if n = 12 then [CHR 0x5C, CHR ''f'']
     else if n = 10 then [CHR 0x5C, CHR ''n'']
     else if n = 13 then [CHR 0x5C, CHR ''r'']
     else if n = 9 then [CHR 0x5C, CHR ''t'']
     else if n = 11 then [CHR 0x5C, CHR ''v'']
     else [CHR 0x5C, CHR ''x'', hex_char (n div 16), hex_char (n mod 16)])"

section \<open>Errors\<close>

text \<open>
  An error value is its message, or a message in front of the error it wraps
  (\<^verbatim>\<open>fmt.Errorf("...: %w", err)\<close>).
\<close>

datatype go_error = Err string | Wrapf string go_error

primrec error_text :: "go_error \<Rightarrow> string" where
  "error_text (Err s) = s"
| "error_text (Wrapf s e) = s @ error_text e"

section \<open>Maps and range statements\<close>

text \<open>
  A \<^verbatim>\<open>range\<close> over a map visits every key once, in an order the language leaves open. The
  order is therefore an argument: a function from maps to lists of keys, constrained by
  \<open>map_order\<close> and by nothing else.
\<close>

type_synonym ('k, 'v) map_order = "('k, 'v) fmap \<Rightarrow> 'k list"

definition map_order :: "('k, 'v) map_order \<Rightarrow> bool" where
  "map_order ord \<longleftrightarrow> (\<forall>m. distinct (ord m) \<and> set (ord m) = fmdom' m)"

definition go_range :: "('k, 'v) map_order \<Rightarrow> ('k, 'v) fmap \<Rightarrow> ('k \<times> 'v) list" where
  "go_range ord m = map (\<lambda>k. (k, the (fmlookup m k))) (ord m)"

definition go_len :: "('k, 'v) fmap \<Rightarrow> nat" where
  "go_len m = fcard (fmdom m)"

text \<open>One possible order: the keys sorted.\<close>

definition sorted_order :: "('k :: linorder, 'v) map_order" where
  "sorted_order m = sorted_list_of_fset (fmdom m)"

lemma map_order_sorted: "map_order sorted_order"
  unfolding map_order_def sorted_order_def
  by (simp add: fmdom'_alt_def sorted_list_of_fset.rep_eq)

lemma set_go_range:
  "map_order ord \<Longrightarrow> set (go_range ord m) = {(k, v). fmlookup m k = Some v}"
  unfolding map_order_def go_range_def by (force simp: fmlookup_dom'_iff)

lemma fst_go_range [simp]: "map fst (go_range ord m) = ord m"
  by (simp add: go_range_def comp_def)

lemma distinct_go_range: "map_order ord \<Longrightarrow> distinct (map fst (go_range ord m))"
  by (simp add: map_order_def)

text \<open>Whatever the order, a sum over a range statement is the sum over the keys.\<close>

lemma sum_go_range:
  fixes f :: "'k \<Rightarrow> 'v \<Rightarrow> 'a :: comm_monoid_add"
  assumes "map_order ord"
  shows "sum_list (map (\<lambda>(k, v). f k v) (go_range ord m))
    = (\<Sum>k \<in> fmdom' m. f k (the (fmlookup m k)))"
  using assms
  by (simp add: go_range_def map_order_def comp_def sum_list_distinct_conv_sum_set)

lemma go_len_eq_0 [simp]: "go_len m = 0 \<longleftrightarrow> m = fmempty"
  unfolding go_len_def
  by (metis fcard_0_eq fmdom_empty fmrestrict_fset_dom fmrestrict_fset_null)

lemma go_len_fmempty [simp]: "go_len fmempty = 0"
  by simp

text \<open>Reading a key of a map of structs gives the zero value when the key is missing.\<close>

definition fm_get :: "'v \<Rightarrow> ('k, 'v) fmap \<Rightarrow> 'k \<Rightarrow> 'v" where
  "fm_get z m k = (case fmlookup m k of None \<Rightarrow> z | Some v \<Rightarrow> v)"

lemma fm_get_upd [simp]: "fm_get z (fmupd k v m) k' = (if k = k' then v else fm_get z m k')"
  by (simp add: fm_get_def)

lemma fm_get_Some [simp]: "fmlookup m k = Some v \<Longrightarrow> fm_get z m k = v"
  by (simp add: fm_get_def)

lemma fm_get_None [simp]: "fmlookup m k = None \<Longrightarrow> fm_get z m k = z"
  by (simp add: fm_get_def)

section \<open>Decimal text\<close>

definition undec :: "string \<Rightarrow> nat" where
  "undec s = foldl (\<lambda>a c. 10 * a + ((of_char c :: nat) - 48)) 0 s"

lemma of_digit_char: "d < 10 \<Longrightarrow> (of_char (digit_char d) :: nat) = 48 + d"
  by (simp add: digit_char_def)

lemma undec_dec_nat: "undec (dec_nat n) = n"
proof (induction n rule: dec_nat.induct)
  case (1 n)
  show ?case
  proof (cases "n < 10")
    case True
    then show ?thesis by (simp add: dec_nat.simps [of n] undec_def of_digit_char)
  next
    case False
    with "1" have "undec (dec_nat (n div 10)) = n div 10" by simp
    with False show ?thesis by (simp add: dec_nat.simps [of n] undec_def of_digit_char)
  qed
qed

lemma dec_nat_digits: "\<forall>c \<in> set (dec_nat n). 48 \<le> (of_char c :: nat) \<and> (of_char c :: nat) < 58"
proof (induction n rule: dec_nat.induct)
  case (1 n)
  show ?case
  proof (cases "n < 10")
    case True
    then show ?thesis by (simp add: dec_nat.simps [of n] of_digit_char)
  next
    case False
    with "1" show ?thesis by (simp add: dec_nat.simps [of n] of_digit_char)
  qed
qed

lemma dec_nat_nonempty [simp]: "dec_nat n \<noteq> []"
  by (simp add: dec_nat.simps [of n])

section \<open>Subsequences\<close>

lemma subseq_in_set: "subseq xs ys \<Longrightarrow> x \<in> set xs \<Longrightarrow> x \<in> set ys"
  using list_emb_set [of "(=)" xs ys x] by auto

lemma distinct_subseq: "distinct ys \<Longrightarrow> subseq xs ys \<Longrightarrow> distinct xs"
  by (auto simp: subseq_conv_nths distinct_nthsI)

lemma go_len_pos [simp]: "0 < go_len m \<longleftrightarrow> m \<noteq> fmempty"
  using go_len_eq_0 [of m] by linarith

lemma fmupd_not_fmempty [simp]: "fmupd k v m \<noteq> fmempty" "fmempty \<noteq> fmupd k v m"
  by (metis fmempty_lookup fmupd_lookup option.distinct(1))+

end
