(* ===== verification/Go_Lib.thy ===== *)
theory Go_Lib
  imports Complex_Main Prelude
begin

text \<open>
  The pure functions the program calls in packages whose sources are not in the repository:
  \<^verbatim>\<open>resource.Quantity\<close> and \<^verbatim>\<open>corev1.ResourceList\<close> of Kubernetes, and the parts of the
  Go library that are driven by Unicode tables or left to the implementation (the result
  \<open>float_oor\<close> of converting an out-of-range floating-point number to an integer). They are the fields of a record that every
  definition using them takes as an argument \<open>L\<close>; the type of quantities is the type
  variable \<open>'q\<close>. What a theorem relies on is one of the predicates \<open>quantity_arith\<close>,
  \<open>quantity_values\<close>, \<open>quantity_parses\<close> and \<open>resource_accessors\<close>, which state the documented
  behaviour through the amount \<open>amt q\<close> a quantity stands for. \<open>rat_lib\<close> is an instance whose
  quantities are rational numbers; it shows that the predicates can hold together.
\<close>

record 'q golib =
  q_zero :: 'q
  q_Add :: "'q \<Rightarrow> 'q \<Rightarrow> 'q"
  q_Cmp :: "'q \<Rightarrow> 'q \<Rightarrow> int"
  q_IsZero :: "'q \<Rightarrow> bool"
  q_DeepCopy :: "'q \<Rightarrow> 'q"
  q_MilliValue :: "'q \<Rightarrow> int64"
  q_Value :: "'q \<Rightarrow> int64"
  q_String :: "'q \<Rightarrow> string"
  q_MustParse :: "string \<Rightarrow> 'q option"
  rl_Cpu :: "(string, 'q) fmap \<Rightarrow> 'q"
  rl_Memory :: "(string, 'q) fmap \<Rightarrow> 'q"
  unicode_lower :: "string \<Rightarrow> string"
  unicode_quote :: "string \<Rightarrow> string"
  float_oor :: "int \<Rightarrow> int64"

text \<open>The values of the resource-name constants of \<^verbatim>\<open>corev1\<close>.\<close>

definition ResourceCPU :: string where
  "ResourceCPU = ''cpu''"

definition ResourceMemory :: string where
  "ResourceMemory = ''memory''"

lemma resource_names_distinct [simp]:
  "ResourceCPU \<noteq> ResourceMemory" "ResourceMemory \<noteq> ResourceCPU"
  by (simp_all add: ResourceCPU_def ResourceMemory_def)

text \<open>\<^verbatim>\<open>strings.ToLower\<close> and the \<^verbatim>\<open>%q\<close> verb: byte-wise on ASCII strings.\<close>

definition go_ToLower :: "'q golib \<Rightarrow> string \<Rightarrow> string" where
  "go_ToLower L s = (if is_ascii s then map lower_ascii s else unicode_lower L s)"

definition go_quote :: "'q golib \<Rightarrow> string \<Rightarrow> string" where
  "go_quote L s = (if is_ascii s then [CHR 0x22] @ concat (map quote_ascii s) @ [CHR 0x22]
     else unicode_quote L s)"

section \<open>Documented behaviour\<close>

definition quantity_arith :: "'q golib \<Rightarrow> ('q \<Rightarrow> rat) \<Rightarrow> bool" where
  "quantity_arith L amt \<longleftrightarrow>
     amt (q_zero L) = 0
     \<and> (\<forall>a b. amt (q_Add L a b) = amt a + amt b)
     \<and> (\<forall>a. amt (q_DeepCopy L a) = amt a)
     \<and> (\<forall>a b. q_Cmp L a b = (if amt a < amt b then -1 else if amt a = amt b then 0 else 1))
     \<and> (\<forall>a. q_IsZero L a = (amt a = 0))"

definition quantity_values :: "'q golib \<Rightarrow> ('q \<Rightarrow> rat) \<Rightarrow> bool" where
  "quantity_values L amt \<longleftrightarrow>
     (\<forall>a. 0 \<le> amt a \<longrightarrow> \<lceil>1000 * amt a\<rceil> < 2 ^ 63 \<longrightarrow> sint (q_MilliValue L a) = \<lceil>1000 * amt a\<rceil>)
     \<and> (\<forall>a. 0 \<le> amt a \<longrightarrow> \<lceil>amt a\<rceil> < 2 ^ 63 \<longrightarrow> sint (q_Value L a) = \<lceil>amt a\<rceil>)"

definition quantity_parses :: "'q golib \<Rightarrow> ('q \<Rightarrow> rat) \<Rightarrow> bool" where
  "quantity_parses L amt \<longleftrightarrow>
     (\<forall>i. int64_range i \<longrightarrow>
        (\<exists>q. q_MustParse L (dec_int i @ ''m'') = Some q \<and> amt q = of_int i / 1000))
     \<and> (\<forall>i. int64_range i \<longrightarrow> (\<exists>q. q_MustParse L (dec_int i @ ''Mi'') = Some q
        \<and> (\<bar>i\<bar> * 2 ^ 20 < 2 ^ 63 \<longrightarrow> amt q = of_int i * 2 ^ 20)))"

definition resource_accessors :: "'q golib \<Rightarrow> bool" where
  "resource_accessors L \<longleftrightarrow>
     (\<forall>m. rl_Cpu L m = fm_get (q_zero L) m ResourceCPU)
     \<and> (\<forall>m. rl_Memory L m = fm_get (q_zero L) m ResourceMemory)"

text \<open>Consequences, in the form the proofs use.\<close>

lemma quantity_arithD:
  assumes "quantity_arith L amt"
  shows "amt (q_zero L) = 0" "amt (q_Add L a b) = amt a + amt b" "amt (q_DeepCopy L a) = amt a"
    "(0 < q_Cmp L a b) = (amt b < amt a)" "q_IsZero L a = (amt a = 0)"
  using assms by (auto simp: quantity_arith_def)

lemma quantity_parses_milli:
  "quantity_parses L amt \<Longrightarrow> int64_range i \<Longrightarrow>
    \<exists>q. q_MustParse L (dec_int i @ ''m'') = Some q \<and> amt q = of_int i / 1000"
  by (simp add: quantity_parses_def)

lemma quantity_parses_Mi:
  "quantity_parses L amt \<Longrightarrow> int64_range i \<Longrightarrow> \<exists>q. q_MustParse L (dec_int i @ ''Mi'') = Some q
    \<and> (\<bar>i\<bar> * 2 ^ 20 < 2 ^ 63 \<longrightarrow> amt q = of_int i * 2 ^ 20)"
  by (simp add: quantity_parses_def)

section \<open>An instance: rational quantities\<close>

definition parse_nat :: "string \<Rightarrow> int option" where
  "parse_nat s = (if s \<noteq> [] \<and> list_all (\<lambda>c. 48 \<le> (of_char c :: nat) \<and> (of_char c :: nat) < 58) s
     then Some (int (undec s)) else None)"

definition parse_int :: "string \<Rightarrow> int option" where
  "parse_int s = (case s of [] \<Rightarrow> None
     | c # cs \<Rightarrow> if c = CHR ''-'' then map_option uminus (parse_nat cs) else parse_nat s)"

definition rat_parse :: "string \<Rightarrow> rat option" where
  "rat_parse s =
     (if drop (length s - 2) s = ''Mi''
      then map_option (\<lambda>i. of_int i * 2 ^ 20) (parse_int (take (length s - 2) s))
      else if drop (length s - 1) s = ''m''
      then map_option (\<lambda>i. of_int i / 1000) (parse_int (take (length s - 1) s))
      else map_option of_int (parse_int s))"

definition rat_lib :: "rat golib" where
  "rat_lib = \<lparr> q_zero = 0, q_Add = (+),
     q_Cmp = (\<lambda>a b. if a < b then -1 else if a = b then 0 else 1),
     q_IsZero = (\<lambda>a. a = 0), q_DeepCopy = (\<lambda>a. a),
     q_MilliValue = (\<lambda>a. word_of_int \<lceil>1000 * a\<rceil>), q_Value = (\<lambda>a. word_of_int \<lceil>a\<rceil>),
     q_String = (\<lambda>a. dec_int \<lceil>1000 * a\<rceil> @ ''m''), q_MustParse = rat_parse,
     rl_Cpu = (\<lambda>m. fm_get 0 m ResourceCPU), rl_Memory = (\<lambda>m. fm_get 0 m ResourceMemory),
     unicode_lower = (\<lambda>s. s), unicode_quote = (\<lambda>s. s),
     float_oor = (\<lambda>_. 0) \<rparr>"

lemma parse_int_dec_int: "parse_int (dec_int i) = Some i"
proof (cases "i < 0")
  case True
  then show ?thesis
    using dec_nat_digits [of "nat (- i)"]
    by (simp add: parse_int_def dec_int_def parse_nat_def list_all_iff undec_dec_nat)
next
  case False
  obtain c cs where cs: "dec_nat (nat i) = c # cs"
    using dec_nat_nonempty by (metis list.exhaust)
  with dec_nat_digits [of "nat i"] have "c \<noteq> CHR ''-''" by auto
  with False cs dec_nat_digits [of "nat i"] undec_dec_nat [of "nat i"] show ?thesis
    by (simp add: parse_int_def dec_int_def parse_nat_def list_all_iff)
qed

lemma rat_parse_milli: "rat_parse (dec_int i @ ''m'') = Some (of_int i / 1000)"
proof -
  have "drop (length (dec_int i @ ''m'') - 2) (dec_int i @ ''m'') \<noteq> ''Mi''"
    by (cases "dec_int i" rule: rev_cases) auto
  then show ?thesis by (simp add: rat_parse_def parse_int_dec_int)
qed

lemma rat_parse_Mi: "rat_parse (dec_int i @ ''Mi'') = Some (of_int i * 2 ^ 20)"
  by (simp add: rat_parse_def parse_int_dec_int)

lemma rat_lib_arith: "quantity_arith rat_lib (\<lambda>q. q)"
  by (simp add: quantity_arith_def rat_lib_def)

lemma rat_lib_values: "quantity_values rat_lib (\<lambda>q. q)"
proof -
  have "int64_range \<lceil>x\<rceil>" if "0 \<le> x" "\<lceil>x\<rceil> < 2 ^ 63" for x :: rat
  proof -
    from that(1) have "0 \<le> \<lceil>x\<rceil>" by (simp add: ceiling_le_zero order_trans [OF _ le_of_int_ceiling])
    with that(2) show ?thesis by (simp add: int64_range_def)
  qed
  then show ?thesis by (simp add: quantity_values_def rat_lib_def sint_word_of_int64)
qed

lemma rat_lib_parses: "quantity_parses rat_lib (\<lambda>q. q)"
proof -
  have "\<exists>q. q_MustParse rat_lib (dec_int i @ ''m'') = Some q \<and> q = of_int i / 1000" for i
    by (rule exI [of _ "of_int i / 1000"]) (simp add: rat_lib_def rat_parse_milli)
  moreover have "\<exists>q. q_MustParse rat_lib (dec_int i @ ''Mi'') = Some q \<and> q = of_int i * 2 ^ 20" for i
    by (rule exI [of _ "of_int i * 2 ^ 20"]) (simp add: rat_lib_def rat_parse_Mi)
  ultimately show ?thesis unfolding quantity_parses_def by blast
qed

lemma rat_lib_accessors: "resource_accessors rat_lib"
  by (simp add: resource_accessors_def rat_lib_def)

lemmas rat_lib_laws = rat_lib_arith rat_lib_values rat_lib_parses rat_lib_accessors

end
