(* ===== verification/Api_Types.thy ===== *)
theory Api_Types
  imports Go_Lib
begin

text \<open>
  The custom resource of \<^verbatim>\<open>api/v1/adaptiveworkflow_types.go\<close>: task templates, the
  workflow specification, task and workflow status, and the resource object with its
  metadata. Phases are Go strings with named constants, so a phase the constants do not name
  (the empty string of a zero value, for one) is a value of the model too. The Kubernetes
  structs the source embeds are records of the fields the program reads or writes.
\<close>

type_synonym 'q ResourceList = "(string, 'q) fmap"

record 'q ResourceRequirements =
  rr_Requests :: "'q ResourceList"
  rr_Limits :: "'q ResourceList"

definition zero_resources :: "'q ResourceRequirements" where
  "zero_resources = \<lparr> rr_Requests = fmempty, rr_Limits = fmempty \<rparr>"

section \<open>Tasks\<close>

record 'q TaskTemplate =
  tt_Name :: string
  tt_Image :: string
  tt_Command :: "string list"
  tt_Dependencies :: "string list"
  tt_BaseResources :: "'q ResourceRequirements"

record 'q AdaptiveWorkflowSpec =
  sp_Tasks :: "'q TaskTemplate list"
  sp_MaxResources :: "'q ResourceList"
  sp_OptimizationGoal :: string

type_synonym TaskPhase = string

definition TaskPhasePending :: TaskPhase where
  "TaskPhasePending = ''Pending''"

definition TaskPhaseRunning :: TaskPhase where
  "TaskPhaseRunning = ''Running''"

definition TaskPhaseSucceeded :: TaskPhase where
  "TaskPhaseSucceeded = ''Succeeded''"

definition TaskPhaseFailed :: TaskPhase where
  "TaskPhaseFailed = ''Failed''"

record 'q TaskStatus =
  ts_Phase :: TaskPhase
  ts_PodName :: string
  ts_AllocatedResources :: "'q ResourceRequirements"

text \<open>The zero value a read of a missing map entry gives.\<close>

definition zero_TaskStatus :: "'q TaskStatus" where
  "zero_TaskStatus = \<lparr> ts_Phase = '''', ts_PodName = '''', ts_AllocatedResources = zero_resources \<rparr>"

section \<open>Workflows\<close>

type_synonym WorkflowPhase = string

definition WorkflowPhasePending :: WorkflowPhase where
  "WorkflowPhasePending = ''Pending''"

definition WorkflowPhaseRunning :: WorkflowPhase where
  "WorkflowPhaseRunning = ''Running''"

definition WorkflowPhaseCompleted :: WorkflowPhase where
  "WorkflowPhaseCompleted = ''Completed''"

definition WorkflowPhaseFailed :: WorkflowPhase where
  "WorkflowPhaseFailed = ''Failed''"

record Condition =
  co_Type :: string
  co_Status :: string
  co_Reason :: string
  co_Message :: string

type_synonym 'q TaskStatuses = "(string, 'q TaskStatus) fmap"

text \<open>\<^verbatim>\<open>TaskStatuses\<close> is compared to nil, so the nil map is the value \<open>None\<close>.\<close>

record 'q AdaptiveWorkflowStatus =
  st_Phase :: WorkflowPhase
  st_TaskStatuses :: "'q TaskStatuses option"
  st_CurrentResourceUsage :: "'q ResourceList"
  st_Conditions :: "Condition list"

record ObjectMeta =
  om_Name :: string
  om_Namespace :: string
  om_UID :: string
  om_ResourceVersion :: string
  om_CreationTimestamp :: int
  om_DeletionTimestamp :: "int option"
  om_Finalizers :: "string list"

record 'q AdaptiveWorkflow =
  wf_Meta :: ObjectMeta
  wf_Spec :: "'q AdaptiveWorkflowSpec"
  wf_Status :: "'q AdaptiveWorkflowStatus"

type_synonym 'q AdaptiveWorkflowList = "'q AdaptiveWorkflow list"

section \<open>Phases\<close>

lemma task_phases_distinct [simp, phase_simps]:
  "TaskPhasePending \<noteq> TaskPhaseRunning" "TaskPhaseRunning \<noteq> TaskPhasePending"
  "TaskPhasePending \<noteq> TaskPhaseSucceeded" "TaskPhaseSucceeded \<noteq> TaskPhasePending"
  "TaskPhasePending \<noteq> TaskPhaseFailed" "TaskPhaseFailed \<noteq> TaskPhasePending"
  "TaskPhaseRunning \<noteq> TaskPhaseSucceeded" "TaskPhaseSucceeded \<noteq> TaskPhaseRunning"
  "TaskPhaseRunning \<noteq> TaskPhaseFailed" "TaskPhaseFailed \<noteq> TaskPhaseRunning"
  "TaskPhaseSucceeded \<noteq> TaskPhaseFailed" "TaskPhaseFailed \<noteq> TaskPhaseSucceeded"
  by (simp_all add: TaskPhasePending_def TaskPhaseRunning_def TaskPhaseSucceeded_def
      TaskPhaseFailed_def)

lemma workflow_phases_distinct [simp, phase_simps]:
  "WorkflowPhasePending \<noteq> WorkflowPhaseRunning" "WorkflowPhaseRunning \<noteq> WorkflowPhasePending"
  "WorkflowPhasePending \<noteq> WorkflowPhaseCompleted" "WorkflowPhaseCompleted \<noteq> WorkflowPhasePending"
  "WorkflowPhasePending \<noteq> WorkflowPhaseFailed" "WorkflowPhaseFailed \<noteq> WorkflowPhasePending"
  "WorkflowPhaseRunning \<noteq> WorkflowPhaseCompleted" "WorkflowPhaseCompleted \<noteq> WorkflowPhaseRunning"
  "WorkflowPhaseRunning \<noteq> WorkflowPhaseFailed" "WorkflowPhaseFailed \<noteq> WorkflowPhaseRunning"
  "WorkflowPhaseCompleted \<noteq> WorkflowPhaseFailed" "WorkflowPhaseFailed \<noteq> WorkflowPhaseCompleted"
  by (simp_all add: WorkflowPhasePending_def WorkflowPhaseRunning_def WorkflowPhaseCompleted_def
      WorkflowPhaseFailed_def)

text \<open>The phases of a status map, and what a workflow's tasks are called.\<close>

definition phase_of :: "'q TaskStatuses \<Rightarrow> string \<Rightarrow> TaskPhase option" where
  "phase_of sts n = map_option ts_Phase (fmlookup sts n)"

abbreviation task_names :: "'q AdaptiveWorkflowSpec \<Rightarrow> string list" where
  "task_names spec \<equiv> map tt_Name (sp_Tasks spec)"

lemma phase_of_upd [simp]:
  "phase_of (fmupd k ts m) n = (if k = n then Some (ts_Phase ts) else phase_of m n)"
  by (simp add: phase_of_def)

lemma phase_of_fmempty [simp]: "phase_of fmempty n = None"
  by (simp add: phase_of_def)

lemma zero_TaskStatus_simps [simp]:
  "ts_Phase zero_TaskStatus = ''''" "ts_PodName zero_TaskStatus = ''''"
  "ts_AllocatedResources zero_TaskStatus = zero_resources"
  by (simp_all add: zero_TaskStatus_def)

lemma zero_resources_simps [simp]:
  "rr_Requests zero_resources = fmempty" "rr_Limits zero_resources = fmempty"
  by (simp_all add: zero_resources_def)

end
