(* ===== verification/Go_Float.thy ===== *)
theory Go_Float
  imports Go_Lib
begin

text \<open>
  The floating-point computations of the program, in IEEE 754 double precision with rounding
  to nearest, ties to even: \<^verbatim>\<open>int64(float64(x) * 1.5)\<close>, which derives a resource limit
  from a request, and \<^verbatim>\<open>time.Since(t).Seconds()\<close>, the duration of a task. Other
  \<^verbatim>\<open>float64\<close> values are only stored and passed on.

  A double has 53 significant bits. The product of \<open>y\<close> and 1.5 is \<open>3 y / 2\<close>; halving is
  exact, so the product is rounded by rounding \<open>3 y\<close>.
\<close>

datatype float64 = Finite rat | NegZero | PosInf | NegInf | NaN

fun nbits :: "nat \<Rightarrow> nat" where
  "nbits n = (if n = 0 then 0 else Suc (nbits (n div 2)))"

declare nbits.simps [simp del]

definition round_at :: "nat \<Rightarrow> nat \<Rightarrow> nat" where
  "round_at k m = (let q = m div 2 ^ k; r = m mod 2 ^ k in
     (if 2 ^ k < 2 * r \<or> (2 ^ k = 2 * r \<and> odd q) then Suc q else q) * 2 ^ k)"

definition f64_round_int :: "int \<Rightarrow> int" where
  "f64_round_int i = (let m = nat \<bar>i\<bar> in sgn i * int (round_at (nbits m - 53) m))"

definition int64_of_f64_times_1_5 :: "'q golib \<Rightarrow> int64 \<Rightarrow> int64" where
  "int64_of_f64_times_1_5 L x =
     (let v = f64_round_int (3 * f64_round_int (sint x)) sdiv 2
      in if int64_range v then word_of_int v else float_oor L v)"

text \<open>
  Rounding a rational number to 53 significant bits, for values whose exponent is in range,
  as every duration's is; \<^verbatim>\<open>Duration.Seconds\<close> adds the whole seconds and the rest.
\<close>

definition pow2 :: "int \<Rightarrow> rat" where
  "pow2 k = (if 0 \<le> k then 2 ^ nat k else 1 / 2 ^ nat (- k))"

definition f64_round_rat :: "rat \<Rightarrow> rat" where
  "f64_round_rat r =
     (if r = 0 then 0
      else let m = \<bar>r\<bar>; (a, b) = quotient_of m;
               k0 = int (nbits (nat a)) - int (nbits (nat b));
               k = (if pow2 k0 \<le> m then k0 else k0 - 1);
               u = pow2 (k - 52); x = m / u; f = \<lfloor>x\<rfloor>; d = x - of_int f;
               n = (if 1 / 2 < d \<or> (d = 1 / 2 \<and> odd f) then f + 1 else f)
           in sgn r * of_int n * u)"

definition Since_ns :: "int \<Rightarrow> int \<Rightarrow> int" where
  "Since_ns now t = max (- (2 ^ 63)) (min (2 ^ 63 - 1) (now - t))"

definition Duration_Seconds :: "int \<Rightarrow> float64" where
  "Duration_Seconds d = Finite (f64_round_rat (f64_round_rat (of_int (d sdiv 1000000000))
     + f64_round_rat (f64_round_rat (of_int (d smod 1000000000)) / 1000000000)))"

lemma nbits_le: "n < 2 ^ k \<Longrightarrow> nbits n \<le> k"
proof (induction k arbitrary: n)
  case 0
  then show ?case by (simp add: nbits.simps)
next
  case (Suc k)
  then have "n div 2 < 2 ^ k" by simp
  with Suc.IH have "nbits (n div 2) \<le> k" by simp
  then show ?case by (subst nbits.simps) simp
qed

lemma f64_round_exact: "\<bar>i\<bar> < 2 ^ 53 \<Longrightarrow> f64_round_int i = i"
proof -
  assume "\<bar>i\<bar> < 2 ^ 53"
  then have "nat \<bar>i\<bar> < 2 ^ 53" by simp
  then have "nbits (nat \<bar>i\<bar>) - 53 = 0" using nbits_le by simp
  then show ?thesis by (simp add: f64_round_int_def round_at_def sgn_if)
qed

lemma times_1_5_exact:
  assumes "\<bar>sint x\<bar> \<le> 2 ^ 51"
  shows "sint (int64_of_f64_times_1_5 L x) = (3 * sint x) sdiv 2"
proof -
  have b: "\<bar>sint x\<bar> < 2 ^ 53" "\<bar>3 * sint x\<bar> < 2 ^ 53" using assms by auto
  have "\<bar>(3 * sint x) sdiv 2\<bar> \<le> \<bar>3 * sint x\<bar>"
    using sdiv_int_range [of "3 * sint x" 2] by auto
  with b(2) have "int64_range ((3 * sint x) sdiv 2)" by (auto simp: int64_range_def)
  with b show ?thesis
    by (simp add: int64_of_f64_times_1_5_def f64_round_exact sint_word_of_int64 Let_def)
qed

lemma times_1_5_ge:
  assumes "0 \<le> sint x" "sint x \<le> 2 ^ 51"
  shows "sint x \<le> sint (int64_of_f64_times_1_5 L x)"
  using assms by (simp add: times_1_5_exact sdiv_nonneg_pos)

end
