(* ===== verification/Optimizer.thy ===== *)
theory Optimizer
  imports Api_Types Go_Float
begin

text \<open>
  The scheduling interface of \<^verbatim>\<open>internal/optimizer/optimizer.go\<close> and the greedy
  scheduler of \<^verbatim>\<open>internal/optimizer/greedy.go\<close>.

  The definitions follow the code loop by loop. \<open>pack\<close> is the abstract scheduler: it walks a
  list of candidates with rational sizes and takes each one that still fits. The main lemma,
  \<open>greedy_refines_pack\<close>, says that \<open>GreedyOptimizer_Plan\<close> always returns and computes \<open>pack\<close>
  of the startable tasks in specification order, whatever order the maps are visited in. The
  locale \<open>task_optimizer\<close> is what the controller relies on; the greedy scheduler is an
  interpretation of it.
\<close>

section \<open>Types\<close>

record 'q TaskPrediction =
  tp_EstimatedDuration :: float64
  tp_EstimatedResources :: "'q ResourceRequirements"

type_synonym 'q Predictions = "(string, 'q TaskPrediction) fmap"

record 'q TaskAllocation =
  ta_TaskName :: string
  ta_Resources :: "'q ResourceRequirements"

record 'q SchedulePlan =
  pl_TasksToStart :: "'q TaskAllocation list"

text \<open>
  The interface \<^verbatim>\<open>Optimizer\<close>: its method \<^verbatim>\<open>Plan\<close>, which may act on the world, return an error, or
  panic.
\<close>

type_synonym ('w, 'q) optimizer = "'q AdaptiveWorkflowSpec \<Rightarrow> 'q TaskStatuses \<Rightarrow> 'q Predictions \<Rightarrow> 'w
  \<Rightarrow> (go_error + 'q SchedulePlan) option \<times> 'w"

section \<open>The greedy scheduler\<close>

text \<open>
  \<^verbatim>\<open>if req, ok := m[name]; ok { total.Add(req) }\<close>, the statement both usage loops of the
  program repeat.
\<close>

definition add_request :: "'q golib \<Rightarrow> string \<Rightarrow> 'q \<Rightarrow> 'q TaskStatus \<Rightarrow> 'q" where
  "add_request L r tot ts = (case fmlookup (rr_Requests (ts_AllocatedResources ts)) r of
     Some req \<Rightarrow> q_Add L tot req | None \<Rightarrow> tot)"

fun running_usage :: "'q golib \<Rightarrow> (string \<times> 'q TaskStatus) list \<Rightarrow> 'q \<Rightarrow> 'q \<Rightarrow> 'q \<times> 'q" where
  "running_usage L [] cpu mem = (cpu, mem)"
| "running_usage L ((n, ts) # rest) cpu mem =
     (if ts_Phase ts = TaskPhaseRunning
      then running_usage L rest (add_request L ResourceCPU cpu ts) (add_request L ResourceMemory mem ts)
      else running_usage L rest cpu mem)"

fun deps_succeeded :: "'q TaskStatuses \<Rightarrow> string list \<Rightarrow> bool" where
  "deps_succeeded sts [] = True"
| "deps_succeeded sts (dep # deps) = (case fmlookup sts dep of
     None \<Rightarrow> False
   | Some depStatus \<Rightarrow>
       if ts_Phase depStatus \<noteq> TaskPhaseSucceeded then False else deps_succeeded sts deps)"

definition resolveResources ::
  "'q golib \<Rightarrow> 'q TaskTemplate \<Rightarrow> 'q Predictions \<Rightarrow> 'q ResourceRequirements option" where
  "resolveResources L task predictions =
     (case fmlookup predictions (tt_Name task) of
        Some pred \<Rightarrow> Some (tp_EstimatedResources pred)
      | None \<Rightarrow>
          if go_len (rr_Requests (tt_BaseResources task)) > 0
             \<or> go_len (rr_Limits (tt_BaseResources task)) > 0
          then Some (tt_BaseResources task)
          else do {
            reqCPU \<leftarrow> q_MustParse L ''100m'';
            reqMem \<leftarrow> q_MustParse L ''128Mi'';
            limCPU \<leftarrow> q_MustParse L ''200m'';
            limMem \<leftarrow> q_MustParse L ''256Mi'';
            Some \<lparr> rr_Requests = fmupd ResourceMemory reqMem (fmupd ResourceCPU reqCPU fmempty),
                   rr_Limits = fmupd ResourceMemory limMem (fmupd ResourceCPU limCPU fmempty) \<rparr>
          })"

definition already_started :: "'q TaskStatuses \<Rightarrow> 'q TaskTemplate \<Rightarrow> bool" where
  "already_started sts task = (case fmlookup sts (tt_Name task) of
     Some ts \<Rightarrow> ts_Phase ts \<noteq> TaskPhasePending | None \<Rightarrow> False)"

fun plan_loop :: "'q golib \<Rightarrow> 'q \<Rightarrow> 'q \<Rightarrow> 'q TaskStatuses \<Rightarrow> 'q Predictions \<Rightarrow> 'q TaskTemplate list
    \<Rightarrow> 'q \<Rightarrow> 'q \<Rightarrow> 'q TaskAllocation list \<Rightarrow> 'q TaskAllocation list option" where
  "plan_loop L maxCPU maxMem sts preds [] cpu mem plan = Some plan"
| "plan_loop L maxCPU maxMem sts preds (task # tasks) cpu mem plan =
     (if already_started sts task then plan_loop L maxCPU maxMem sts preds tasks cpu mem plan
      else if \<not> deps_succeeded sts (tt_Dependencies task)
      then plan_loop L maxCPU maxMem sts preds tasks cpu mem plan
      else (case resolveResources L task preds of
        None \<Rightarrow> None
      | Some res \<Rightarrow>
          (let taskCPU = fm_get (q_zero L) (rr_Requests res) ResourceCPU;
               taskMem = fm_get (q_zero L) (rr_Requests res) ResourceMemory;
               newCPU = q_Add L (q_DeepCopy L cpu) taskCPU;
               newMem = q_Add L (q_DeepCopy L mem) taskMem
           in if \<not> q_IsZero L maxCPU \<and> q_Cmp L newCPU maxCPU > 0
              then plan_loop L maxCPU maxMem sts preds tasks cpu mem plan
              else if \<not> q_IsZero L maxMem \<and> q_Cmp L newMem maxMem > 0
              then plan_loop L maxCPU maxMem sts preds tasks cpu mem plan
              else plan_loop L maxCPU maxMem sts preds tasks newCPU newMem
                (plan @ [\<lparr> ta_TaskName = tt_Name task, ta_Resources = res \<rparr>]))))"

definition GreedyOptimizer_Plan :: "'q golib \<Rightarrow> (string, 'q TaskStatus) map_order
    \<Rightarrow> 'q AdaptiveWorkflowSpec \<Rightarrow> 'q TaskStatuses \<Rightarrow> 'q Predictions
    \<Rightarrow> (go_error + 'q SchedulePlan) option" where
  "GreedyOptimizer_Plan L ord spec sts preds =
     (let (currentCPU, currentMem) = running_usage L (go_range ord sts) (q_zero L) (q_zero L);
          maxCPU = fm_get (q_zero L) (sp_MaxResources spec) ResourceCPU;
          maxMem = fm_get (q_zero L) (sp_MaxResources spec) ResourceMemory
      in case plan_loop L maxCPU maxMem sts preds (sp_Tasks spec) currentCPU currentMem [] of
           None \<Rightarrow> None
         | Some plan \<Rightarrow> Some (Inr \<lparr> pl_TasksToStart = plan \<rparr>))"

section \<open>What the scheduler is to compute\<close>

text \<open>A task may start when it is pending or unknown and all its dependencies succeeded.\<close>

definition startable :: "'q TaskStatuses \<Rightarrow> 'q TaskTemplate \<Rightarrow> bool" where
  "startable sts t \<longleftrightarrow> phase_of sts (tt_Name t) \<in> {None, Some TaskPhasePending}
     \<and> (\<forall>d \<in> set (tt_Dependencies t). phase_of sts d = Some TaskPhaseSucceeded)"

text \<open>The amount of a resource a request list asks for.\<close>

definition amount_of :: "('q \<Rightarrow> rat) \<Rightarrow> 'q ResourceList \<Rightarrow> string \<Rightarrow> rat" where
  "amount_of amt rl r = (case fmlookup rl r of Some q \<Rightarrow> amt q | None \<Rightarrow> 0)"

text \<open>The total a status map's running tasks hold of a resource.\<close>

definition usage_of :: "('q \<Rightarrow> rat) \<Rightarrow> 'q TaskStatuses \<Rightarrow> string \<Rightarrow> rat" where
  "usage_of amt sts r = (\<Sum>n \<in> fmdom' sts. (let ts = the (fmlookup sts n) in
     if ts_Phase ts = TaskPhaseRunning
     then amount_of amt (rr_Requests (ts_AllocatedResources ts)) r else 0))"

definition fits :: "rat \<Rightarrow> rat \<Rightarrow> bool" where
  "fits limit x \<longleftrightarrow> limit = 0 \<or> x \<le> limit"

fun pack :: "rat \<Rightarrow> rat \<Rightarrow> ('a \<Rightarrow> rat) \<Rightarrow> ('a \<Rightarrow> rat) \<Rightarrow> 'a list \<Rightarrow> rat \<Rightarrow> rat \<Rightarrow> 'a list" where
  "pack C M fc fm [] c m = []"
| "pack C M fc fm (a # as) c m =
     (if fits C (c + fc a) \<and> fits M (m + fm a)
      then a # pack C M fc fm as (c + fc a) (m + fm a)
      else pack C M fc fm as c m)"

text \<open>The allocation a startable task gets if it is scheduled, and its size.\<close>

definition candidate :: "'q golib \<Rightarrow> 'q Predictions \<Rightarrow> 'q TaskTemplate \<Rightarrow> 'q TaskAllocation" where
  "candidate L preds t =
     \<lparr> ta_TaskName = tt_Name t, ta_Resources = the (resolveResources L t preds) \<rparr>"

definition alloc_amount :: "('q \<Rightarrow> rat) \<Rightarrow> string \<Rightarrow> 'q TaskAllocation \<Rightarrow> rat" where
  "alloc_amount amt r a = amount_of amt (rr_Requests (ta_Resources a)) r"

definition candidates :: "'q golib \<Rightarrow> 'q AdaptiveWorkflowSpec \<Rightarrow> 'q TaskStatuses \<Rightarrow> 'q Predictions
    \<Rightarrow> 'q TaskAllocation list" where
  "candidates L spec sts preds = map (candidate L preds) (filter (startable sts) (sp_Tasks spec))"

definition greedy_pack :: "'q golib \<Rightarrow> ('q \<Rightarrow> rat) \<Rightarrow> 'q AdaptiveWorkflowSpec \<Rightarrow> 'q TaskStatuses
    \<Rightarrow> 'q Predictions \<Rightarrow> 'q TaskAllocation list" where
  "greedy_pack L amt spec sts preds =
     pack (amount_of amt (sp_MaxResources spec) ResourceCPU)
       (amount_of amt (sp_MaxResources spec) ResourceMemory)
       (alloc_amount amt ResourceCPU) (alloc_amount amt ResourceMemory)
       (candidates L spec sts preds)
       (usage_of amt sts ResourceCPU) (usage_of amt sts ResourceMemory)"

section \<open>The abstract scheduler\<close>

lemma pack_subseq: "subseq (pack C M fc fm as c m) as"
  by (induction as arbitrary: c m) auto

lemma set_pack: "set (pack C M fc fm as c m) \<subseteq> set as"
  by (induction as arbitrary: c m) auto

lemma pack_unlimited: "pack 0 0 fc fm as c m = as"
  by (induction as arbitrary: c m) (auto simp: fits_def)

lemma pack_within:
  assumes "fits C c" "fits M m"
  shows "fits C (c + sum_list (map fc (pack C M fc fm as c m)))
    \<and> fits M (m + sum_list (map fm (pack C M fc fm as c m)))"
  using assms
proof (induction as arbitrary: c m)
  case Nil
  then show ?case by simp
next
  case (Cons a as)
  show ?case
  proof (cases "fits C (c + fc a) \<and> fits M (m + fm a)")
    case True
    with Cons.IH [of "c + fc a" "m + fm a"] show ?thesis by (simp add: add.assoc)
  next
    case False
    with Cons show ?thesis by auto
  qed
qed

text \<open>
  Nothing that would still fit is left out: with non-negative sizes, a candidate that is not
  chosen does not fit next to the chosen ones.
\<close>

lemma pack_maximal:
  assumes "a \<in> set as" "a \<notin> set (pack C M fc fm as c m)"
    and nonneg: "\<And>x. x \<in> set as \<Longrightarrow> 0 \<le> fc x \<and> 0 \<le> fm x"
  shows "\<not> (fits C (c + sum_list (map fc (pack C M fc fm as c m)) + fc a)
    \<and> fits M (m + sum_list (map fm (pack C M fc fm as c m)) + fm a))"
  using assms
proof (induction as arbitrary: c m)
  case Nil
  then show ?case by simp
next
  case (Cons b as)
  have sums: "0 \<le> sum_list (map fc (pack C M fc fm as c m))"
    "0 \<le> sum_list (map fm (pack C M fc fm as c m))" for c m
  proof -
    have "0 \<le> fc x \<and> 0 \<le> fm x" if "x \<in> set (pack C M fc fm as c m)" for x
      using that Cons.prems(3) set_pack by (metis list.set_intros(2) subsetD)
    then show "0 \<le> sum_list (map fc (pack C M fc fm as c m))"
      "0 \<le> sum_list (map fm (pack C M fc fm as c m))"
      by (auto intro!: sum_list_nonneg)
  qed
  show ?case
  proof (cases "fits C (c + fc b) \<and> fits M (m + fm b)")
    case True
    with Cons.prems have "a \<in> set as" "a \<notin> set (pack C M fc fm as (c + fc b) (m + fm b))"
      by auto
    from Cons.IH [OF this] Cons.prems(3) True show ?thesis by (auto simp: add.assoc)
  next
    case False
    then have eq: "pack C M fc fm (b # as) c m = pack C M fc fm as c m" by auto
    show ?thesis
    proof (cases "a \<in> set as")
      case True
      with Cons.IH [of c m] Cons.prems eq show ?thesis by auto
    next
      case False
      with Cons.prems(1) have "a = b" by simp
      with \<open>\<not> (fits C (c + fc b) \<and> fits M (m + fm b))\<close> eq sums [of c m] show ?thesis
        by (auto simp: fits_def)
    qed
  qed
qed

text \<open>From an empty machine the scheduler starts something as soon as one candidate fits alone.\<close>

lemma pack_progress:
  assumes "a \<in> set as" "fits C (c + fc a)" "fits M (m + fm a)"
  shows "pack C M fc fm as c m \<noteq> []"
  using assms by (induction as arbitrary: c m) auto

section \<open>The code computes it\<close>

lemma deps_succeeded_iff:
  "deps_succeeded sts ds \<longleftrightarrow> (\<forall>d \<in> set ds. phase_of sts d = Some TaskPhaseSucceeded)"
  by (induction ds) (auto simp: phase_of_def split: option.splits)

lemma startable_iff:
  "startable sts t \<longleftrightarrow> \<not> already_started sts t \<and> deps_succeeded sts (tt_Dependencies t)"
  by (auto simp: startable_def already_started_def deps_succeeded_iff phase_of_def
      split: option.splits)

lemma amt_add_request:
  "quantity_arith L amt \<Longrightarrow> amt (add_request L r tot ts)
    = amt tot + amount_of amt (rr_Requests (ts_AllocatedResources ts)) r"
  by (simp add: add_request_def amount_of_def quantity_arithD split: option.split)

lemma amt_fm_get:
  "quantity_arith L amt \<Longrightarrow> amt (fm_get (q_zero L) rl r) = amount_of amt rl r"
  by (simp add: fm_get_def amount_of_def quantity_arithD split: option.split)

lemma running_usage_amounts:
  assumes "quantity_arith L amt"
  shows "amt (fst (running_usage L xs c m)) = amt c + (\<Sum>(n, ts) \<leftarrow> xs.
      if ts_Phase ts = TaskPhaseRunning
      then amount_of amt (rr_Requests (ts_AllocatedResources ts)) ResourceCPU else 0)"
    and "amt (snd (running_usage L xs c m)) = amt m + (\<Sum>(n, ts) \<leftarrow> xs.
      if ts_Phase ts = TaskPhaseRunning
      then amount_of amt (rr_Requests (ts_AllocatedResources ts)) ResourceMemory else 0)"
  using assms
  by (induction xs arbitrary: c m) (auto simp: amt_add_request add.assoc)

lemma running_usage_range:
  assumes "quantity_arith L amt" "map_order ord"
  shows "amt (fst (running_usage L (go_range ord sts) (q_zero L) (q_zero L))) = usage_of amt sts ResourceCPU"
    and "amt (snd (running_usage L (go_range ord sts) (q_zero L) (q_zero L))) = usage_of amt sts ResourceMemory"
  using assms
  by (simp_all add: running_usage_amounts quantity_arithD usage_of_def sum_go_range Let_def)

lemma default_texts:
  "''100m'' = dec_int 100 @ ''m''" "''128Mi'' = dec_int 128 @ ''Mi''"
  "''200m'' = dec_int 200 @ ''m''" "''256Mi'' = dec_int 256 @ ''Mi''"
  by code_simp+

lemma resolveResources_total:
  assumes "quantity_parses L amt"
  shows "\<exists>res. resolveResources L t preds = Some res"
proof -
  have milli: "\<exists>q. q_MustParse L (dec_int i @ ''m'') = Some q" if "int64_range i" for i
    using quantity_parses_milli [OF assms that] by blast
  have Mi: "\<exists>q. q_MustParse L (dec_int i @ ''Mi'') = Some q" if "int64_range i" for i
    using quantity_parses_Mi [OF assms that] by blast
  have r: "int64_range 100" "int64_range 128" "int64_range 200" "int64_range 256"
    by (simp_all add: int64_range_def)
  obtain a b c d where "q_MustParse L ''100m'' = Some a" "q_MustParse L ''128Mi'' = Some b"
    "q_MustParse L ''200m'' = Some c" "q_MustParse L ''256Mi'' = Some d"
    using milli [OF r(1)] Mi [OF r(2)] milli [OF r(3)] Mi [OF r(4)]
    unfolding default_texts [symmetric] by blast
  then show ?thesis by (simp add: resolveResources_def split: option.split)
qed

lemma plan_loop_pack:
  assumes q: "quantity_arith L amt" and p: "quantity_parses L amt"
  shows "plan_loop L maxCPU maxMem sts preds tasks cpu mem plan
    = Some (plan @ pack (amt maxCPU) (amt maxMem) (alloc_amount amt ResourceCPU)
        (alloc_amount amt ResourceMemory)
        (map (candidate L preds) (filter (startable sts) tasks)) (amt cpu) (amt mem))"
proof (induction tasks arbitrary: cpu mem plan)
  case Nil
  then show ?case by simp
next
  case (Cons t tasks)
  show ?case
  proof (cases "startable sts t")
    case False
    with Cons show ?thesis by (auto simp: startable_iff)
  next
    case True
    then have go: "\<not> already_started sts t" "deps_succeeded sts (tt_Dependencies t)"
      by (simp_all add: startable_iff)
    obtain res where res: "resolveResources L t preds = Some res"
      using resolveResources_total [OF p] by blast
    then have cand: "candidate L preds t = \<lparr> ta_TaskName = tt_Name t, ta_Resources = res \<rparr>"
      by (simp add: candidate_def)
    show ?thesis
      using True go res Cons
      by (auto simp: Let_def cand alloc_amount_def fits_def quantity_arithD [OF q] amt_fm_get [OF q])
  qed
qed

lemma greedy_refines:
  assumes "quantity_arith L amt" "quantity_parses L amt" "map_order ord"
  shows "GreedyOptimizer_Plan L ord spec sts preds
    = Some (Inr \<lparr> pl_TasksToStart = greedy_pack L amt spec sts preds \<rparr>)"
  using assms
  by (simp add: GreedyOptimizer_Plan_def plan_loop_pack greedy_pack_def candidates_def
      running_usage_range amt_fm_get split: prod.split)
    (metis fst_conv snd_conv running_usage_range)

text \<open>
  Without any assumption on quantities: the plan names startable tasks of the specification,
  in specification order and each with the resources \<open>resolveResources\<close> gives it.
\<close>

definition plan_extends :: "'q golib \<Rightarrow> 'q TaskStatuses \<Rightarrow> 'q Predictions \<Rightarrow> 'q TaskTemplate list
    \<Rightarrow> 'q TaskAllocation list \<Rightarrow> 'q TaskAllocation list \<Rightarrow> bool" where
  "plan_extends L sts preds tasks plan r \<longleftrightarrow>
     (\<exists>ts as. r = plan @ as \<and> subseq ts (filter (startable sts) tasks)
      \<and> map ta_TaskName as = map tt_Name ts
      \<and> list_all2 (\<lambda>a t. resolveResources L t preds = Some (ta_Resources a)) as ts)"

lemma plan_extends_refl: "plan_extends L sts preds [] plan plan"
  unfolding plan_extends_def by (intro exI [of _ "[]"]) simp

lemma plan_extends_skip:
  "plan_extends L sts preds tasks plan r \<Longrightarrow> plan_extends L sts preds (t # tasks) plan r"
  unfolding plan_extends_def by auto

lemma plan_extends_take:
  assumes "plan_extends L sts preds tasks (plan @ [\<lparr> ta_TaskName = tt_Name t, ta_Resources = res \<rparr>]) r"
    and "startable sts t" "resolveResources L t preds = Some res"
  shows "plan_extends L sts preds (t # tasks) plan r"
proof -
  let ?a = "\<lparr> ta_TaskName = tt_Name t, ta_Resources = res \<rparr>"
  from assms(1) obtain ts as where "r = (plan @ [?a]) @ as"
    "subseq ts (filter (startable sts) tasks)" "map ta_TaskName as = map tt_Name ts"
    "list_all2 (\<lambda>a t. resolveResources L t preds = Some (ta_Resources a)) as ts"
    unfolding plan_extends_def by blast
  with assms(2,3) show ?thesis
    unfolding plan_extends_def by (intro exI [of _ "t # ts"] exI [of _ "?a # as"]) simp
qed

lemma plan_loop_extends:
  "plan_loop L maxCPU maxMem sts preds tasks cpu mem plan = Some r \<Longrightarrow>
    plan_extends L sts preds tasks plan r"
proof (induction tasks arbitrary: cpu mem plan)
  case Nil
  then show ?case by (simp add: plan_extends_refl)
next
  case (Cons t tasks)
  show ?case
  proof (cases "startable sts t")
    case False
    with Cons.prems Cons.IH show ?thesis
      by (auto simp: startable_iff intro!: plan_extends_skip split: if_splits)
  next
    case True
    then have go: "\<not> already_started sts t" "deps_succeeded sts (tt_Dependencies t)"
      by (simp_all add: startable_iff)
    with Cons.prems obtain res where "resolveResources L t preds = Some res"
      by (auto split: option.splits)
    with True go Cons.prems show ?thesis
      by (auto simp: Let_def intro: plan_extends_skip plan_extends_take Cons.IH split: if_splits)
  qed
qed

lemma greedy_shape:
  assumes "GreedyOptimizer_Plan L ord spec sts preds = Some (Inr p)"
  obtains ts where "subseq ts (filter (startable sts) (sp_Tasks spec))"
    and "map ta_TaskName (pl_TasksToStart p) = map tt_Name ts"
    and "list_all2 (\<lambda>a t. resolveResources L t preds = Some (ta_Resources a)) (pl_TasksToStart p) ts"
  using assms
  by (auto simp: GreedyOptimizer_Plan_def plan_extends_def split: prod.splits option.splits
      dest!: plan_loop_extends)

section \<open>The interface\<close>

text \<open>
  A scheduler as the controller sees it: a call that may change the world (a remote service)
  and may panic. The contract: what it starts may start, and it starts nothing twice.
\<close>

locale task_optimizer =
  fixes Plan :: "'q AdaptiveWorkflowSpec \<Rightarrow> 'q TaskStatuses \<Rightarrow> 'q Predictions \<Rightarrow> 'w
    \<Rightarrow> (go_error + 'q SchedulePlan) option \<times> 'w"
  assumes plan_startable: "Plan spec sts preds w = (Some (Inr p), w') \<Longrightarrow>
      a \<in> set (pl_TasksToStart p) \<Longrightarrow>
      \<exists>t \<in> set (sp_Tasks spec). tt_Name t = ta_TaskName a \<and> startable sts t"
    and plan_distinct: "Plan spec sts preds w = (Some (Inr p), w') \<Longrightarrow>
      distinct (task_names spec) \<Longrightarrow> distinct (map ta_TaskName (pl_TasksToStart p))"
begin

lemma plan_not_started:
  "Plan spec sts preds w = (Some (Inr p), w') \<Longrightarrow> a \<in> set (pl_TasksToStart p) \<Longrightarrow>
    phase_of sts (ta_TaskName a) \<in> {None, Some TaskPhasePending}"
  using plan_startable unfolding startable_def by metis

lemma plan_in_spec:
  "Plan spec sts preds w = (Some (Inr p), w') \<Longrightarrow> a \<in> set (pl_TasksToStart p) \<Longrightarrow>
    ta_TaskName a \<in> set (task_names spec)"
  using plan_startable by (metis image_eqI list.set_map)

end

text \<open>
  A scheduler that also keeps the budget, provided its environment is as it assumes
  (\<open>env_ok\<close>).
\<close>

locale budget_optimizer = task_optimizer Plan
  for Plan :: "'q AdaptiveWorkflowSpec \<Rightarrow> 'q TaskStatuses \<Rightarrow> 'q Predictions \<Rightarrow> 'w
    \<Rightarrow> (go_error + 'q SchedulePlan) option \<times> 'w" +
  fixes amt :: "'q \<Rightarrow> rat" and env_ok :: bool
  assumes plan_budget: "env_ok \<Longrightarrow> Plan spec sts preds w = (Some (Inr p), w') \<Longrightarrow>
      r \<in> {ResourceCPU, ResourceMemory} \<Longrightarrow>
      (\<And>r'. r' \<in> {ResourceCPU, ResourceMemory} \<Longrightarrow>
        fits (amount_of amt (sp_MaxResources spec) r') (usage_of amt sts r')) \<Longrightarrow>
      fits (amount_of amt (sp_MaxResources spec) r)
        (usage_of amt sts r + sum_list (map (alloc_amount amt r) (pl_TasksToStart p)))"

definition GreedyOptimizer :: "'q golib \<Rightarrow> (string, 'q TaskStatus) map_order \<Rightarrow> ('w, 'q) optimizer" where
  "GreedyOptimizer L ord spec sts preds w = (GreedyOptimizer_Plan L ord spec sts preds, w)"

lemma greedy_startable:
  assumes "GreedyOptimizer_Plan L ord spec sts preds = Some (Inr p)" "a \<in> set (pl_TasksToStart p)"
  shows "\<exists>t \<in> set (sp_Tasks spec). tt_Name t = ta_TaskName a \<and> startable sts t"
proof -
  from assms(1) obtain ts where ts: "subseq ts (filter (startable sts) (sp_Tasks spec))"
    and names: "map ta_TaskName (pl_TasksToStart p) = map tt_Name ts"
    by (rule greedy_shape)
  from assms(2) have "ta_TaskName a \<in> set (map ta_TaskName (pl_TasksToStart p))" by simp
  with names obtain t where t: "t \<in> set ts" "tt_Name t = ta_TaskName a" by auto
  from ts t(1) have "t \<in> set (filter (startable sts) (sp_Tasks spec))"
    by (rule subseq_in_set)
  with t(2) show ?thesis by auto
qed

lemma greedy_distinct:
  assumes "GreedyOptimizer_Plan L ord spec sts preds = Some (Inr p)" "distinct (task_names spec)"
  shows "distinct (map ta_TaskName (pl_TasksToStart p))"
proof -
  from assms(1) obtain ts where ts: "subseq ts (filter (startable sts) (sp_Tasks spec))"
    and names: "map ta_TaskName (pl_TasksToStart p) = map tt_Name ts"
    by (rule greedy_shape)
  from ts have "subseq ts (sp_Tasks spec)"
    by (meson subseq_filter_left subseq_order.order_trans)
  then have "subseq (map tt_Name ts) (task_names spec)" by (rule subseq_map)
  with assms(2) names show ?thesis by (metis distinct_subseq)
qed

lemma greedy_budget:
  assumes "quantity_arith L amt" "quantity_parses L amt" "map_order ord"
    and "GreedyOptimizer_Plan L ord spec sts preds = Some (Inr p)"
    and "r \<in> {ResourceCPU, ResourceMemory}"
    and "\<And>r'. r' \<in> {ResourceCPU, ResourceMemory} \<Longrightarrow>
      fits (amount_of amt (sp_MaxResources spec) r') (usage_of amt sts r')"
  shows "fits (amount_of amt (sp_MaxResources spec) r)
      (usage_of amt sts r + sum_list (map (alloc_amount amt r) (pl_TasksToStart p)))"
proof -
  from assms(4) have p: "pl_TasksToStart p = greedy_pack L amt spec sts preds"
    by (auto simp: greedy_refines [OF assms(1-3)])
  have "fits (amount_of amt (sp_MaxResources spec) ResourceCPU) (usage_of amt sts ResourceCPU)"
    "fits (amount_of amt (sp_MaxResources spec) ResourceMemory) (usage_of amt sts ResourceMemory)"
    using assms(6) by simp_all
  from pack_within [OF this] show ?thesis using assms(5) p by (auto simp: greedy_pack_def)
qed

interpretation greedy: budget_optimizer "GreedyOptimizer L ord" amt
    "quantity_arith L amt \<and> quantity_parses L amt \<and> map_order ord"
  for L :: "'q golib" and ord and amt
  by unfold_locales
    (auto simp: GreedyOptimizer_def intro: greedy_startable greedy_distinct greedy_budget)

section \<open>Properties of the greedy scheduler\<close>

text \<open>A small workflow for the witnesses: \<open>a\<close> and \<open>b\<close> are independent, \<open>c\<close> waits for \<open>a\<close>.\<close>

definition ex_task :: "string \<Rightarrow> string list \<Rightarrow> rat \<Rightarrow> rat TaskTemplate" where
  "ex_task n deps cpu = \<lparr> tt_Name = n, tt_Image = ''img'', tt_Command = [],
     tt_Dependencies = deps,
     tt_BaseResources = \<lparr> rr_Requests = fmupd ResourceCPU cpu fmempty, rr_Limits = fmempty \<rparr> \<rparr>"

definition ex_spec :: "rat AdaptiveWorkflowSpec" where
  "ex_spec = \<lparr> sp_Tasks = [ex_task ''a'' [] 1, ex_task ''b'' [] 1, ex_task ''c'' [''a''] 1],
     sp_MaxResources = fmupd ResourceCPU 1 fmempty, sp_OptimizationGoal = ''MinimizeTime'' \<rparr>"

definition ex_status :: "TaskPhase \<Rightarrow> rat TaskStatus" where
  "ex_status p = \<lparr> ts_Phase = p, ts_PodName = '''',
     ts_AllocatedResources = \<lparr> rr_Requests = fmupd ResourceCPU 1 fmempty, rr_Limits = fmempty \<rparr> \<rparr>"

definition ex_statuses :: "rat TaskStatuses" where
  "ex_statuses = fmupd ''a'' (ex_status TaskPhasePending) (fmupd ''b'' (ex_status TaskPhasePending)
     (fmupd ''c'' (ex_status TaskPhasePending) fmempty))"

lemmas ex_defs = ex_task_def ex_spec_def ex_status_def ex_statuses_def

lemma ex_resolve:
  "resolveResources rat_lib (ex_task n deps cpu) fmempty = Some (tt_BaseResources (ex_task n deps cpu))"
  by (simp add: resolveResources_def ex_task_def)

lemma ex_startable:
  "startable ex_statuses (ex_task ''a'' [] 1)" "startable ex_statuses (ex_task ''b'' [] 1)"
  "\<not> startable ex_statuses (ex_task ''c'' [''a''] 1)"
  by (simp_all add: ex_defs startable_def)

lemma ex_alloc:
  "alloc_amount (\<lambda>q. q) r (candidate rat_lib fmempty (ex_task n deps cpu)) = (if r = ResourceCPU then cpu else 0)"
  by (simp add: alloc_amount_def candidate_def ex_resolve) (simp add: ex_task_def amount_of_def)

lemma ex_usage: "usage_of (\<lambda>q. q) ex_statuses r = 0"
  by (simp add: usage_of_def ex_statuses_def ex_status_def)

lemma ex_max:
  "amount_of (\<lambda>q. q) (sp_MaxResources ex_spec) r = (if r = ResourceCPU then 1 else 0)"
  by (simp add: ex_spec_def amount_of_def)

lemma ex_candidates:
  "candidates rat_lib ex_spec ex_statuses fmempty
    = [candidate rat_lib fmempty (ex_task ''a'' [] 1), candidate rat_lib fmempty (ex_task ''b'' [] 1)]"
  by (simp add: candidates_def ex_spec_def ex_startable)

lemma ex_greedy_pack:
  "greedy_pack rat_lib (\<lambda>q. q) ex_spec ex_statuses fmempty = [candidate rat_lib fmempty (ex_task ''a'' [] 1)]"
  by (simp add: greedy_pack_def ex_candidates ex_max ex_usage ex_alloc fits_def)

lemmas ex_greedy = greedy_refines [OF rat_lib_arith rat_lib_parses map_order_sorted,
    of ex_spec ex_statuses fmempty]

text \<open>
  C1. The greedy scheduler always returns, and its plan is the abstract scheduler's: the
  startable tasks in specification order, each taken if the running tasks, the tasks taken
  before it and itself stay within the limits, a limit of zero being no limit. The order in
  which the status map is visited plays no role.
\<close>

theorem greedy_refines_pack:
  assumes "quantity_arith L amt" "quantity_parses L amt" "map_order ord"
  shows "GreedyOptimizer_Plan L ord spec sts preds
    = Some (Inr \<lparr> pl_TasksToStart = greedy_pack L amt spec sts preds \<rparr>)"
  using assms by (rule greedy_refines)

theorem greedy_refines_pack_witness:
  "GreedyOptimizer_Plan rat_lib sorted_order ex_spec ex_statuses fmempty
    = Some (Inr \<lparr> pl_TasksToStart = [candidate rat_lib fmempty (ex_task ''a'' [] 1)] \<rparr>)"
  using greedy_refines_pack [OF rat_lib_arith rat_lib_parses map_order_sorted,
      of ex_spec ex_statuses fmempty]
  by (simp only: ex_greedy_pack)

text \<open>
  Dependency safety of a plan: every task it starts is a task of the specification that is
  pending (or has no status yet) and whose dependencies have all succeeded, and the tasks
  appear in specification order.
\<close>

theorem greedy_starts_only_ready:
  assumes "GreedyOptimizer_Plan L ord spec sts preds = Some (Inr p)"
  shows "subseq (map ta_TaskName (pl_TasksToStart p)) (task_names spec)
    \<and> (\<forall>a \<in> set (pl_TasksToStart p). \<exists>t \<in> set (sp_Tasks spec). tt_Name t = ta_TaskName a
        \<and> phase_of sts (tt_Name t) \<in> {None, Some TaskPhasePending}
        \<and> (\<forall>d \<in> set (tt_Dependencies t). phase_of sts d = Some TaskPhaseSucceeded))"
proof
  from assms obtain ts where "subseq ts (filter (startable sts) (sp_Tasks spec))"
    and names: "map ta_TaskName (pl_TasksToStart p) = map tt_Name ts"
    by (rule greedy_shape)
  then have "subseq ts (sp_Tasks spec)" by (meson subseq_filter_left subseq_order.order_trans)
  with names show "subseq (map ta_TaskName (pl_TasksToStart p)) (task_names spec)"
    by (simp add: subseq_map)
  show "\<forall>a \<in> set (pl_TasksToStart p). \<exists>t \<in> set (sp_Tasks spec). tt_Name t = ta_TaskName a
        \<and> phase_of sts (tt_Name t) \<in> {None, Some TaskPhasePending}
        \<and> (\<forall>d \<in> set (tt_Dependencies t). phase_of sts d = Some TaskPhaseSucceeded)"
    using greedy.plan_startable [of L ord spec sts preds "()" p "()"] assms
    by (simp add: GreedyOptimizer_def startable_def)
qed

theorem greedy_starts_only_ready_witness:
  "\<exists>p. GreedyOptimizer_Plan rat_lib sorted_order ex_spec ex_statuses fmempty = Some (Inr p)
    \<and> pl_TasksToStart p \<noteq> [] \<and> subseq (map ta_TaskName (pl_TasksToStart p)) (task_names ex_spec)"
  using greedy_starts_only_ready [OF ex_greedy] ex_greedy ex_greedy_pack by auto

text \<open>
  The budget: if the running tasks are within \<^verbatim>\<open>MaxResources\<close>, then they still are
  together with everything the plan starts, for CPU and for memory.
\<close>

theorem greedy_within_budget:
  assumes "quantity_arith L amt" "quantity_parses L amt" "map_order ord"
    and "GreedyOptimizer_Plan L ord spec sts preds = Some (Inr p)"
    and "\<And>r. r \<in> {ResourceCPU, ResourceMemory} \<Longrightarrow>
      fits (amount_of amt (sp_MaxResources spec) r) (usage_of amt sts r)"
    and "r \<in> {ResourceCPU, ResourceMemory}"
  shows "fits (amount_of amt (sp_MaxResources spec) r)
      (usage_of amt sts r + sum_list (map (alloc_amount amt r) (pl_TasksToStart p)))"
  using greedy.plan_budget [of L amt ord spec sts preds "()" p "()" r] assms
  by (simp add: GreedyOptimizer_def)

theorem greedy_within_budget_witness:
  "fits (amount_of (\<lambda>q. q) (sp_MaxResources ex_spec) ResourceCPU)
     (usage_of (\<lambda>q. q) ex_statuses ResourceCPU
       + sum_list (map (alloc_amount (\<lambda>q. q) ResourceCPU)
           (greedy_pack rat_lib (\<lambda>q. q) ex_spec ex_statuses fmempty)))"
  using greedy_within_budget [OF rat_lib_laws(1,3) map_order_sorted ex_greedy, of ResourceCPU]
  by (simp add: ex_max ex_usage fits_def)

text \<open>
  C15. Nothing that fits is left out: if all requests are non-negative, a startable task that is
  not in the plan would exceed a limit next to the running tasks and the plan.
\<close>

theorem greedy_maximal:
  assumes "quantity_arith L amt" "quantity_parses L amt" "map_order ord"
    and "GreedyOptimizer_Plan L ord spec sts preds = Some (Inr p)"
    and "\<And>a r. a \<in> set (candidates L spec sts preds) \<Longrightarrow> 0 \<le> alloc_amount amt r a"
    and "t \<in> set (sp_Tasks spec)" "startable sts t"
    and "candidate L preds t \<notin> set (pl_TasksToStart p)"
  shows "\<exists>r \<in> {ResourceCPU, ResourceMemory}. \<not> fits (amount_of amt (sp_MaxResources spec) r)
      (usage_of amt sts r + sum_list (map (alloc_amount amt r) (pl_TasksToStart p))
        + alloc_amount amt r (candidate L preds t))"
proof -
  from assms(4) have p: "pl_TasksToStart p = greedy_pack L amt spec sts preds"
    by (auto simp: greedy_refines [OF assms(1-3)])
  have "candidate L preds t \<in> set (candidates L spec sts preds)"
    using assms(6,7) by (simp add: candidates_def)
  from pack_maximal [OF this, of _ _ "alloc_amount amt ResourceCPU" "alloc_amount amt ResourceMemory"]
  show ?thesis using assms(5,8) unfolding p greedy_pack_def by blast
qed

theorem greedy_maximal_witness:
  "\<exists>r \<in> {ResourceCPU, ResourceMemory}. \<not> fits (amount_of (\<lambda>q. q) (sp_MaxResources ex_spec) r)
      (usage_of (\<lambda>q. q) ex_statuses r
        + sum_list (map (alloc_amount (\<lambda>q. q) r) (greedy_pack rat_lib (\<lambda>q. q) ex_spec ex_statuses fmempty))
        + alloc_amount (\<lambda>q. q) r (candidate rat_lib fmempty (ex_task ''b'' [] 1)))"
proof -
  have "0 \<le> alloc_amount (\<lambda>q. q) r a"
    if "a \<in> set (candidates rat_lib ex_spec ex_statuses fmempty)" for a r
    using that by (auto simp: ex_candidates ex_alloc)
  moreover have "candidate rat_lib fmempty (ex_task ''b'' [] 1)
      \<notin> set (pl_TasksToStart \<lparr> pl_TasksToStart = greedy_pack rat_lib (\<lambda>q. q) ex_spec ex_statuses fmempty \<rparr>)"
    by (simp add: ex_greedy_pack candidate_def) (simp add: ex_task_def)
  moreover have "ex_task ''b'' [] 1 \<in> set (sp_Tasks ex_spec)"
    by (simp add: ex_spec_def)
  ultimately show ?thesis
    using greedy_maximal [OF rat_lib_laws(1,3) map_order_sorted ex_greedy, of "ex_task ''b'' [] 1"]
      ex_startable by simp
qed

text \<open>
  Progress of the scheduler: if a startable task fits next to the running tasks, the plan
  starts at least one task.
\<close>

theorem greedy_progress:
  assumes "quantity_arith L amt" "quantity_parses L amt" "map_order ord"
    and "GreedyOptimizer_Plan L ord spec sts preds = Some (Inr p)"
    and "t \<in> set (sp_Tasks spec)" "startable sts t"
    and "\<And>r. r \<in> {ResourceCPU, ResourceMemory} \<Longrightarrow> fits (amount_of amt (sp_MaxResources spec) r)
      (usage_of amt sts r + alloc_amount amt r (candidate L preds t))"
  shows "pl_TasksToStart p \<noteq> []"
proof -
  from assms(4) have p: "pl_TasksToStart p = greedy_pack L amt spec sts preds"
    by (auto simp: greedy_refines [OF assms(1-3)])
  have "candidate L preds t \<in> set (candidates L spec sts preds)"
    using assms(5,6) by (simp add: candidates_def)
  from pack_progress [OF this] show ?thesis
    using assms(7) unfolding p greedy_pack_def by blast
qed

theorem greedy_progress_witness:
  "greedy_pack rat_lib (\<lambda>q. q) ex_spec ex_statuses fmempty \<noteq> []"
  using greedy_progress [OF rat_lib_laws(1,3) map_order_sorted ex_greedy, of "ex_task ''b'' [] 1"]
    ex_startable
  by (simp add: ex_max ex_usage ex_alloc fits_def) (simp add: ex_spec_def)

end
