(* ===== verification/Inference.thy ===== *)
theory Inference
  imports Optimizer
begin

text \<open>
  The prediction interface of \<^verbatim>\<open>internal/inference/inference.go\<close> and the in-process
  engine of \<^verbatim>\<open>internal/inference/baseline.go\<close>, which returns the user's hints as
  predictions. The locale \<open>inference_engine\<close> is the contract "the returned map is keyed by
  task name"; the locale \<open>hint_engine\<close> adds that predictions do not override what the
  scheduler would allocate by itself.
\<close>

text \<open>The interface \<^verbatim>\<open>Engine\<close>: its method \<^verbatim>\<open>Predict\<close>.\<close>

type_synonym ('w, 'q) engine = "'q AdaptiveWorkflowSpec \<Rightarrow> 'w \<Rightarrow> (go_error + 'q Predictions) option \<times> 'w"

fun baseline_loop :: "'q Predictions \<Rightarrow> 'q TaskTemplate list \<Rightarrow> 'q Predictions" where
  "baseline_loop predictions [] = predictions"
| "baseline_loop predictions (task # tasks) =
     baseline_loop
       (if go_len (rr_Requests (tt_BaseResources task)) > 0
           \<or> go_len (rr_Limits (tt_BaseResources task)) > 0
        then fmupd (tt_Name task) \<lparr> tp_EstimatedDuration = Finite 0,
               tp_EstimatedResources = tt_BaseResources task \<rparr> predictions
        else predictions) tasks"

definition BaselineEngine_Predict :: "'q AdaptiveWorkflowSpec \<Rightarrow> go_error + 'q Predictions" where
  "BaselineEngine_Predict spec = Inr (baseline_loop fmempty (sp_Tasks spec))"

text \<open>The engine as the controller calls it.\<close>

definition BaselineEngine :: "('w, 'q) engine" where
  "BaselineEngine spec w = (Some (BaselineEngine_Predict spec), w)"

section \<open>The interface\<close>

locale inference_engine =
  fixes Predict :: "'q AdaptiveWorkflowSpec \<Rightarrow> 'w \<Rightarrow> (go_error + 'q Predictions) option \<times> 'w"
  assumes predict_keyed: "Predict spec w = (Some (Inr preds), w') \<Longrightarrow>
      fmdom' preds \<subseteq> set (task_names spec)"
begin

lemma predict_other: "Predict spec w = (Some (Inr preds), w') \<Longrightarrow> n \<notin> set (task_names spec) \<Longrightarrow>
    fmlookup preds n = None"
  by (drule predict_keyed) (blast dest: fmdom'_notD)

end

locale hint_engine = inference_engine Predict
  for Predict :: "'q AdaptiveWorkflowSpec \<Rightarrow> 'w \<Rightarrow> (go_error + 'q Predictions) option \<times> 'w" +
  assumes predict_hint: "Predict spec w = (Some (Inr preds), w') \<Longrightarrow> distinct (task_names spec) \<Longrightarrow>
      t \<in> set (sp_Tasks spec) \<Longrightarrow> resolveResources L t preds = resolveResources L t fmempty"
begin

text \<open>Such predictions change nothing of what the greedy scheduler considers.\<close>

lemma hint_candidates:
  assumes "Predict spec w = (Some (Inr preds), w')" "distinct (task_names spec)"
  shows "candidates L spec sts preds = candidates L spec sts fmempty"
  using predict_hint [OF assms] by (simp add: candidates_def candidate_def)

lemma hint_greedy_pack:
  assumes "Predict spec w = (Some (Inr preds), w')" "distinct (task_names spec)"
  shows "greedy_pack L amt spec sts preds = greedy_pack L amt spec sts fmempty"
  by (simp add: greedy_pack_def hint_candidates [OF assms])

end

section \<open>The baseline engine\<close>

text \<open>A task has a hint when its base resources name any request or limit.\<close>

definition hinted :: "'q TaskTemplate \<Rightarrow> bool" where
  "hinted t \<longleftrightarrow> rr_Requests (tt_BaseResources t) \<noteq> fmempty \<or> rr_Limits (tt_BaseResources t) \<noteq> fmempty"

lemma baseline_loop_other:
  "n \<notin> tt_Name ` set tasks \<Longrightarrow> fmlookup (baseline_loop p tasks) n = fmlookup p n"
  by (induction tasks arbitrary: p) auto

lemma baseline_loop_dom: "fmdom' (baseline_loop p tasks) \<subseteq> fmdom' p \<union> tt_Name ` set tasks"
proof
  fix n assume "n \<in> fmdom' (baseline_loop p tasks)"
  then show "n \<in> fmdom' p \<union> tt_Name ` set tasks"
    using baseline_loop_other [of n tasks p] by (fastforce simp: fmlookup_dom'_iff)
qed

lemma baseline_loop_task:
  "distinct (map tt_Name tasks) \<Longrightarrow> t \<in> set tasks \<Longrightarrow> fmlookup p (tt_Name t) = None \<Longrightarrow>
    fmlookup (baseline_loop p tasks) (tt_Name t) = (if hinted t
      then Some \<lparr> tp_EstimatedDuration = Finite 0, tp_EstimatedResources = tt_BaseResources t \<rparr>
      else None)"
proof (induction tasks arbitrary: p)
  case Nil
  then show ?case by simp
next
  case (Cons u tasks)
  show ?case
  proof (cases "t = u")
    case True
    with Cons.prems have "tt_Name t \<notin> tt_Name ` set tasks" by auto
    with True Cons.prems(3) show ?thesis by (simp add: baseline_loop_other hinted_def)
  next
    case False
    with Cons.prems have "t \<in> set tasks" "tt_Name u \<noteq> tt_Name t" by auto
    with Cons show ?thesis by simp
  qed
qed

lemma baseline_hint:
  assumes "distinct (task_names spec)" "t \<in> set (sp_Tasks spec)"
  shows "resolveResources L t (baseline_loop fmempty (sp_Tasks spec)) = resolveResources L t fmempty"
  using baseline_loop_task [OF assms, of fmempty]
  by (auto simp: resolveResources_def hinted_def)

interpretation baseline: hint_engine BaselineEngine
proof unfold_locales
  fix spec :: "'a AdaptiveWorkflowSpec" and w w' :: 'b and preds
  assume "BaselineEngine spec w = (Some (Inr preds), w')"
  then have preds: "preds = baseline_loop fmempty (sp_Tasks spec)"
    by (simp add: BaselineEngine_def BaselineEngine_Predict_def)
  show "fmdom' preds \<subseteq> set (task_names spec)"
    using baseline_loop_dom [of fmempty "sp_Tasks spec"] by (simp add: preds)
  show "resolveResources L t preds = resolveResources L t fmempty"
    if "distinct (task_names spec)" "t \<in> set (sp_Tasks spec)" for L t
    using that by (simp add: preds baseline_hint)
qed

section \<open>Properties\<close>

text \<open>
  The baseline engine's predictions are exactly the hints: with distinct task names, a
  task with base resources is predicted to need them, a task without is not predicted, and no
  other name is.
\<close>

theorem baseline_predictions:
  assumes "distinct (task_names spec)"
  shows "\<exists>preds. BaselineEngine_Predict spec = Inr preds
    \<and> (\<forall>n. n \<notin> set (task_names spec) \<longrightarrow> fmlookup preds n = None)
    \<and> (\<forall>t \<in> set (sp_Tasks spec). fmlookup preds (tt_Name t) = (if hinted t
        then Some \<lparr> tp_EstimatedDuration = Finite 0, tp_EstimatedResources = tt_BaseResources t \<rparr>
        else None))"
proof -
  let ?p = "baseline_loop fmempty (sp_Tasks spec)"
  have "BaselineEngine spec () = (Some (Inr ?p), ())"
    by (simp add: BaselineEngine_def BaselineEngine_Predict_def)
  then have "\<forall>n. n \<notin> set (task_names spec) \<longrightarrow> fmlookup ?p n = None"
    by (auto intro: baseline.predict_other simp del: set_map)
  with baseline_loop_task [OF assms] show ?thesis
    by (simp add: BaselineEngine_Predict_def)
qed

theorem baseline_predictions_witness:
  "\<exists>preds. BaselineEngine_Predict ex_spec = Inr preds \<and> fmlookup preds ''z'' = None
    \<and> fmlookup preds ''a'' = Some \<lparr> tp_EstimatedDuration = Finite 0,
        tp_EstimatedResources = tt_BaseResources (ex_task ''a'' [] 1) \<rparr>"
proof -
  have "distinct (task_names ex_spec)" by (simp add: ex_spec_def ex_task_def)
  from baseline_predictions [OF this] obtain preds where
    p: "BaselineEngine_Predict ex_spec = Inr preds"
      "\<And>n. n \<notin> set (task_names ex_spec) \<Longrightarrow> fmlookup preds n = None"
      "\<And>t. t \<in> set (sp_Tasks ex_spec) \<Longrightarrow> fmlookup preds (tt_Name t) = (if hinted t
        then Some \<lparr> tp_EstimatedDuration = Finite 0, tp_EstimatedResources = tt_BaseResources t \<rparr>
        else None)"
    by blast
  have "fmlookup preds ''z'' = None" by (rule p(2)) (simp add: ex_spec_def ex_task_def)
  moreover have "fmlookup preds ''a'' = Some \<lparr> tp_EstimatedDuration = Finite 0,
      tp_EstimatedResources = tt_BaseResources (ex_task ''a'' [] 1) \<rparr>"
    using p(3) [of "ex_task ''a'' [] 1"] by (simp add: ex_spec_def ex_task_def hinted_def)
  ultimately show ?thesis using p(1) by blast
qed

text \<open>
  With the baseline engine the scheduler plans as it would with no predictions at all, so
  the controller's fallback to empty predictions after an engine error loses nothing.
\<close>

theorem baseline_transparent:
  assumes "quantity_arith L amt" "quantity_parses L amt" "map_order ord" "map_order ord'"
    and "distinct (task_names spec)" "BaselineEngine_Predict spec = Inr preds"
  shows "GreedyOptimizer_Plan L ord spec sts preds = GreedyOptimizer_Plan L ord' spec sts fmempty"
proof -
  have "BaselineEngine spec () = (Some (Inr preds), ())"
    using assms(6) by (simp add: BaselineEngine_def)
  from baseline.hint_greedy_pack [OF this assms(5)] assms(1-4) show ?thesis
    by (simp add: greedy_refines)
qed

theorem baseline_transparent_witness:
  "\<exists>preds. BaselineEngine_Predict ex_spec = Inr preds \<and> preds \<noteq> fmempty
    \<and> GreedyOptimizer_Plan rat_lib sorted_order ex_spec ex_statuses preds
      = GreedyOptimizer_Plan rat_lib sorted_order ex_spec ex_statuses fmempty"
proof -
  have d: "distinct (task_names ex_spec)" by (simp add: ex_spec_def ex_task_def)
  have "BaselineEngine_Predict ex_spec = Inr (baseline_loop fmempty (sp_Tasks ex_spec))"
    "baseline_loop fmempty (sp_Tasks ex_spec) \<noteq> fmempty"
    by (simp_all add: BaselineEngine_Predict_def ex_spec_def ex_task_def)
  with baseline_transparent [OF rat_lib_laws(1,3) map_order_sorted map_order_sorted d this(1)]
  show ?thesis by blast
qed

end
