(* ===== verification/Statedb.thy ===== *)
theory Statedb
  imports Go_Float
begin

text \<open>
  The execution history of \<^verbatim>\<open>internal/statedb/client.go\<close>: the records, the PostgreSQL
  client and the no-op client used when no database is configured. The database is not part of
  the repository: \<open>sql_db\<close> holds the calls of \<^verbatim>\<open>database/sql\<close> the client makes, as
  functions on the world \<open>'w\<close>. \<open>StateDB\<close> is the interface, a record of the three methods, and
  \<open>PostgresStateDB\<close> and \<open>NoOpStateDB\<close> are the two values of it the program builds.
\<close>

record TaskExecution =
  te_WorkflowName :: string
  te_TaskName :: string
  te_Image :: string
  te_ActualCPU :: int64
  te_ActualMemMiB :: int64
  te_DurationS :: float64
  te_Succeeded :: bool
  te_CompletedAt :: int

record HistoricalStats =
  hs_Image :: string
  hs_AvgCPU :: float64
  hs_AvgMemMiB :: float64
  hs_AvgDuration :: float64
  hs_SampleCount :: int

datatype sql_value = SqlText string | SqlInt int64 | SqlFloat float64 | SqlBool bool | SqlTime int

record 'w sql_db =
  db_SetMaxOpenConns :: "int \<Rightarrow> 'w \<Rightarrow> 'w"
  db_SetMaxIdleConns :: "int \<Rightarrow> 'w \<Rightarrow> 'w"
  db_SetConnMaxLifetime :: "int \<Rightarrow> 'w \<Rightarrow> 'w"
  db_Ping :: "'w \<Rightarrow> go_error option \<times> 'w"
  db_Exec :: "string \<Rightarrow> sql_value list \<Rightarrow> 'w \<Rightarrow> go_error option \<times> 'w"
  db_QueryRow :: "string \<Rightarrow> sql_value list \<Rightarrow> 'w \<Rightarrow> (go_error + float64 \<times> float64 \<times> float64 \<times> int) \<times> 'w"
  db_Close :: "'w \<Rightarrow> go_error option \<times> 'w"

text \<open>
  The connection: \<^verbatim>\<open>sql.Open\<close> gives a pool or an error; the pool's limits are set, and it is
  used only if it answers a ping. (The five seconds the ping may take are part of \<open>db_Ping\<close>.)
\<close>

definition NewPostgresStateDB ::
  "(string \<Rightarrow> string \<Rightarrow> 'w \<Rightarrow> (go_error + 'w sql_db) \<times> 'w) \<Rightarrow> string \<Rightarrow> 'w \<Rightarrow> (go_error + 'w sql_db) \<times> 'w" where
  "NewPostgresStateDB sql_Open connStr w = (case sql_Open ''postgres'' connStr w of
     (Inl e, w1) \<Rightarrow> (Inl (Wrapf ''failed to open database: '' e), w1)
   | (Inr db, w1) \<Rightarrow>
       (case db_Ping db (db_SetConnMaxLifetime db (5 * 60 * 1000000000)
          (db_SetMaxIdleConns db 5 (db_SetMaxOpenConns db 10 w1))) of
       (Some e, w2) \<Rightarrow> (Inl (Wrapf ''failed to ping database: '' e), w2)
     | (None, w2) \<Rightarrow> (Inr db, w2)))"

text \<open>A line break of a raw string literal with the tabs and blanks that follow it.\<close>

definition brk :: "nat \<Rightarrow> string" where
  "brk n = CHR 0x0A # replicate n (CHR 0x09)"

definition insert_query :: string where
  "insert_query = brk 2
     @ ''INSERT INTO task_executions (workflow_name, task_name, image, actual_cpu_m, actual_mem_mib, duration_s, succeeded, completed_at)''
     @ brk 2 @ ''VALUES ($1, $2, $3, $4, $5, $6, $7, $8)'' @ brk 1"

definition PostgresStateDB_RecordExecution ::
  "'w sql_db \<Rightarrow> TaskExecution \<Rightarrow> 'w \<Rightarrow> go_error option \<times> 'w" where
  "PostgresStateDB_RecordExecution db exec w =
     (case db_Exec db insert_query
        [SqlText (te_WorkflowName exec), SqlText (te_TaskName exec), SqlText (te_Image exec),
         SqlInt (te_ActualCPU exec), SqlInt (te_ActualMemMiB exec), SqlFloat (te_DurationS exec),
         SqlBool (te_Succeeded exec), SqlTime (te_CompletedAt exec)] w of
        (Some e, w1) \<Rightarrow> (Some (Wrapf ''failed to insert task execution: '' e), w1)
      | (None, w1) \<Rightarrow> (None, w1))"

definition history_query :: string where
  "history_query = brk 2 @ ''SELECT'' @ brk 3 @ ''COALESCE(AVG(actual_cpu_m), 0),''
     @ brk 3 @ ''COALESCE(AVG(actual_mem_mib), 0),'' @ brk 3 @ ''COALESCE(AVG(duration_s), 0),''
     @ brk 3 @ ''COUNT(*)'' @ brk 2 @ ''FROM task_executions'' @ brk 2 @ ''WHERE image = $1''
     @ brk 2 @ ''  AND succeeded = TRUE'' @ brk 2 @ ''  AND completed_at > NOW() - INTERVAL ''
     @ [CHR 0x27] @ ''30 days'' @ [CHR 0x27] @ brk 1"

definition PostgresStateDB_GetHistoryByImage ::
  "'q golib \<Rightarrow> 'w sql_db \<Rightarrow> string \<Rightarrow> 'w \<Rightarrow> (go_error + HistoricalStats) \<times> 'w" where
  "PostgresStateDB_GetHistoryByImage L db img w =
     (case db_QueryRow db history_query [SqlText img] w of
        (Inl e, w1) \<Rightarrow>
          (Inl (Wrapf (''failed to query history for image '' @ go_quote L img @ '': '') e), w1)
      | (Inr (cpu, mem, dur, n), w1) \<Rightarrow>
          (Inr \<lparr> hs_Image = img, hs_AvgCPU = cpu, hs_AvgMemMiB = mem, hs_AvgDuration = dur,
                 hs_SampleCount = n \<rparr>, w1))"

definition PostgresStateDB_Close :: "'w sql_db \<Rightarrow> 'w \<Rightarrow> go_error option \<times> 'w" where
  "PostgresStateDB_Close db w = db_Close db w"

definition NoOpStateDB_RecordExecution :: "TaskExecution \<Rightarrow> 'w \<Rightarrow> go_error option \<times> 'w" where
  "NoOpStateDB_RecordExecution exec w = (None, w)"

definition NoOpStateDB_GetHistoryByImage :: "string \<Rightarrow> 'w \<Rightarrow> (go_error + HistoricalStats) \<times> 'w" where
  "NoOpStateDB_GetHistoryByImage img w =
     (Inr \<lparr> hs_Image = img, hs_AvgCPU = Finite 0, hs_AvgMemMiB = Finite 0,
            hs_AvgDuration = Finite 0, hs_SampleCount = 0 \<rparr>, w)"

definition NoOpStateDB_Close :: "'w \<Rightarrow> go_error option \<times> 'w" where
  "NoOpStateDB_Close w = (None, w)"

section \<open>The interface\<close>

record 'w StateDB =
  sdb_RecordExecution :: "TaskExecution \<Rightarrow> 'w \<Rightarrow> go_error option \<times> 'w"
  sdb_GetHistoryByImage :: "string \<Rightarrow> 'w \<Rightarrow> (go_error + HistoricalStats) \<times> 'w"
  sdb_Close :: "'w \<Rightarrow> go_error option \<times> 'w"

definition PostgresStateDB :: "'q golib \<Rightarrow> 'w sql_db \<Rightarrow> 'w StateDB" where
  "PostgresStateDB L db = \<lparr> sdb_RecordExecution = PostgresStateDB_RecordExecution db,
     sdb_GetHistoryByImage = PostgresStateDB_GetHistoryByImage L db,
     sdb_Close = PostgresStateDB_Close db \<rparr>"

definition NoOpStateDB :: "'w StateDB" where
  "NoOpStateDB = \<lparr> sdb_RecordExecution = NoOpStateDB_RecordExecution,
     sdb_GetHistoryByImage = NoOpStateDB_GetHistoryByImage, sdb_Close = NoOpStateDB_Close \<rparr>"

text \<open>Both answer a query about an image with statistics of that image.\<close>

locale history_store =
  fixes D :: "'w StateDB"
  assumes history_image: "sdb_GetHistoryByImage D img w = (Inr h, w') \<Longrightarrow> hs_Image h = img"

interpretation postgres: history_store "PostgresStateDB L db" for L :: "'q golib" and db :: "'w sql_db"
  by unfold_locales
    (auto simp: PostgresStateDB_def PostgresStateDB_GetHistoryByImage_def
      split: prod.splits sum.splits)

interpretation noop: history_store "NoOpStateDB :: 'w StateDB"
  by unfold_locales (auto simp: NoOpStateDB_def NoOpStateDB_GetHistoryByImage_def)

end
