(* ===== verification/Kube.thy ===== *)
theory Kube
  imports Api_Types Statedb
begin

text \<open>
  The cluster as the controller sees it. Pods are records of the fields the program reads or
  writes. The Kubernetes client, the helpers of \<^verbatim>\<open>controllerutil\<close> and \<^verbatim>\<open>meta\<close>, the event
  recorder and the clock are not part of the repository: they are the fields of the record
  \<open>client\<close>, functions on a world \<open>'w\<close> of which nothing is known. Beside the world, the state
  \<open>sys\<close> of a run keeps a trace of the calls with an effect outside the controller, in order
  and with their outcome, which is what theorems about "no pod is created" or "one status
  update" speak about. The trace is never read by the model of the code.
\<close>

section \<open>Pods\<close>

record 'q Container =
  ct_Name :: string
  ct_Image :: string
  ct_Command :: "string list"
  ct_Resources :: "'q ResourceRequirements"

record 'q Pod =
  pod_Name :: string
  pod_Namespace :: string
  pod_Labels :: "(string, string) fmap"
  pod_Owners :: "string list"
  pod_CreationTimestamp :: int
  pod_RestartPolicy :: string
  pod_Containers :: "'q Container list"
  pod_Phase :: string
  pod_StartTime :: "int option"

definition PodSucceeded :: string where
  "PodSucceeded = ''Succeeded''"

definition PodFailed :: string where
  "PodFailed = ''Failed''"

lemma pod_phases_distinct [simp, phase_simps]: "PodSucceeded \<noteq> PodFailed" "PodFailed \<noteq> PodSucceeded"
  by (simp_all add: PodSucceeded_def PodFailed_def)

definition EventTypeNormal :: string where
  "EventTypeNormal = ''Normal''"

definition EventTypeWarning :: string where
  "EventTypeWarning = ''Warning''"

section \<open>The client\<close>

text \<open>
  An update returns the error, if any, and the object as the call left it: the client decodes
  the server's answer into the object it was given.
\<close>

record ('w, 'q) client =
  cl_GetWorkflow :: "string \<Rightarrow> string \<Rightarrow> 'w \<Rightarrow> (go_error + 'q AdaptiveWorkflow) \<times> 'w"
  cl_Update :: "'q AdaptiveWorkflow \<Rightarrow> 'w \<Rightarrow> (go_error option \<times> 'q AdaptiveWorkflow) \<times> 'w"
  cl_UpdateStatus :: "'q AdaptiveWorkflow \<Rightarrow> 'w \<Rightarrow> (go_error option \<times> 'q AdaptiveWorkflow) \<times> 'w"
  cl_ListPodsByOwner :: "string \<Rightarrow> string \<Rightarrow> 'w \<Rightarrow> (go_error + 'q Pod list) \<times> 'w"
  cl_ListPodsByLabel :: "string \<Rightarrow> string \<Rightarrow> string \<Rightarrow> 'w \<Rightarrow> (go_error + 'q Pod list) \<times> 'w"
  cl_GetPod :: "string \<Rightarrow> string \<Rightarrow> 'w \<Rightarrow> (go_error + 'q Pod) \<times> 'w"
  cl_CreatePod :: "'q Pod \<Rightarrow> 'w \<Rightarrow> go_error option \<times> 'w"
  cl_IsNotFound :: "go_error \<Rightarrow> bool"
  cl_IsAlreadyExists :: "go_error \<Rightarrow> bool"
  cl_ContainsFinalizer :: "'q AdaptiveWorkflow \<Rightarrow> string \<Rightarrow> bool"
  cl_AddFinalizer :: "'q AdaptiveWorkflow \<Rightarrow> string \<Rightarrow> 'q AdaptiveWorkflow"
  cl_RemoveFinalizer :: "'q AdaptiveWorkflow \<Rightarrow> string \<Rightarrow> 'q AdaptiveWorkflow"
  cl_SetControllerReference :: "'q AdaptiveWorkflow \<Rightarrow> 'q Pod \<Rightarrow> go_error + 'q Pod"
  cl_SetStatusCondition :: "Condition list \<Rightarrow> Condition \<Rightarrow> Condition list"
  cl_Event :: "'q AdaptiveWorkflow \<Rightarrow> string \<Rightarrow> string \<Rightarrow> string \<Rightarrow> 'w \<Rightarrow> 'w"
  cl_Now :: "'w \<Rightarrow> int \<times> 'w"

section \<open>Runs\<close>

datatype 'q effect =
    Updated "'q AdaptiveWorkflow" bool
  | StatusUpdated "'q AdaptiveWorkflow" bool
  | PodCreated "'q Pod" bool
  | Emitted string string string
  | Recorded TaskExecution bool

record ('w, 'q) sys =
  sy_world :: 'w
  sy_trace :: "'q effect list"

definition note_effect :: "'q effect \<Rightarrow> 'w \<Rightarrow> ('w, 'q) sys \<Rightarrow> ('w, 'q) sys" where
  "note_effect e w s = \<lparr> sy_world = w, sy_trace = sy_trace s @ [e] \<rparr>"

definition move :: "'w \<Rightarrow> ('w, 'q) sys \<Rightarrow> ('w, 'q) sys" where
  "move w s = s \<lparr> sy_world := w \<rparr>"

definition k_GetWorkflow where
  "k_GetWorkflow K ns n s = (case cl_GetWorkflow K ns n (sy_world s) of (r, w) \<Rightarrow> (r, move w s))"

definition k_Update where
  "k_Update K aw s = (case cl_Update K aw (sy_world s) of
     ((e, aw'), w) \<Rightarrow> ((e, aw'), note_effect (Updated aw (e = None)) w s))"

definition k_UpdateStatus where
  "k_UpdateStatus K aw s = (case cl_UpdateStatus K aw (sy_world s) of
     ((e, aw'), w) \<Rightarrow> ((e, aw'), note_effect (StatusUpdated aw (e = None)) w s))"

definition k_ListPodsByOwner where
  "k_ListPodsByOwner K ns uid s = (case cl_ListPodsByOwner K ns uid (sy_world s) of
     (r, w) \<Rightarrow> (r, move w s))"

definition k_ListPodsByLabel where
  "k_ListPodsByLabel K ns l v s = (case cl_ListPodsByLabel K ns l v (sy_world s) of
     (r, w) \<Rightarrow> (r, move w s))"

definition k_GetPod where
  "k_GetPod K ns n s = (case cl_GetPod K ns n (sy_world s) of (r, w) \<Rightarrow> (r, move w s))"

definition k_CreatePod where
  "k_CreatePod K pod s = (case cl_CreatePod K pod (sy_world s) of
     (e, w) \<Rightarrow> (e, note_effect (PodCreated pod (e = None)) w s))"

definition k_Event where
  "k_Event K aw ty reason msg s =
     note_effect (Emitted ty reason msg) (cl_Event K aw ty reason msg (sy_world s)) s"

definition k_Now where
  "k_Now K s = (case cl_Now K (sy_world s) of (t, w) \<Rightarrow> (t, move w s))"

definition k_RecordExecution where
  "k_RecordExecution D ex s = (case sdb_RecordExecution D ex (sy_world s) of
     (e, w) \<Rightarrow> (e, note_effect (Recorded ex (e = None)) w s))"

lemmas k_defs = k_GetWorkflow_def k_Update_def k_UpdateStatus_def k_ListPodsByOwner_def
  k_ListPodsByLabel_def k_GetPod_def k_CreatePod_def k_Event_def k_Now_def k_RecordExecution_def

section \<open>Traces\<close>

text \<open>The effects a call added to the trace; every call only adds.\<close>

definition effects :: "('w, 'q) sys \<Rightarrow> ('w, 'q) sys \<Rightarrow> 'q effect list" where
  "effects s s' = drop (length (sy_trace s)) (sy_trace s')"

definition extends :: "('w, 'q) sys \<Rightarrow> ('w, 'q) sys \<Rightarrow> bool" where
  "extends s s' \<longleftrightarrow> sy_trace s' = sy_trace s @ effects s s'"

definition created_pods :: "'q effect list \<Rightarrow> 'q Pod list" where
  "created_pods es = concat (map (\<lambda>e. case e of PodCreated p ok \<Rightarrow> if ok then [p] else [] | _ \<Rightarrow> []) es)"

definition requested_pods :: "'q effect list \<Rightarrow> 'q Pod list" where
  "requested_pods es = concat (map (\<lambda>e. case e of PodCreated p ok \<Rightarrow> [p] | _ \<Rightarrow> []) es)"

definition status_writes :: "'q effect list \<Rightarrow> 'q AdaptiveWorkflow list" where
  "status_writes es = concat (map (\<lambda>e. case e of StatusUpdated aw ok \<Rightarrow> [aw] | _ \<Rightarrow> []) es)"

definition object_writes :: "'q effect list \<Rightarrow> 'q AdaptiveWorkflow list" where
  "object_writes es = concat (map (\<lambda>e. case e of Updated aw ok \<Rightarrow> [aw] | _ \<Rightarrow> []) es)"

definition recorded :: "'q effect list \<Rightarrow> TaskExecution list" where
  "recorded es = concat (map (\<lambda>e. case e of Recorded x ok \<Rightarrow> [x] | _ \<Rightarrow> []) es)"

lemma sys_trace_simps [simp]:
  "sy_trace (note_effect e w s) = sy_trace s @ [e]" "sy_trace (move w s) = sy_trace s"
  "sy_world (note_effect e w s) = w" "sy_world (move w s) = w"
  by (simp_all add: note_effect_def move_def)

lemma effects_eq: "sy_trace s' = sy_trace s @ es \<Longrightarrow> effects s s' = es"
  by (simp add: effects_def)

lemma extendsI: "sy_trace s' = sy_trace s @ es \<Longrightarrow> extends s s'"
  by (simp add: extends_def effects_def)

lemma extends_iff: "extends s s' \<longleftrightarrow> (\<exists>es. sy_trace s' = sy_trace s @ es)"
  by (auto simp: extends_def effects_def)

lemma extends_refl [simp]: "extends s s"
  by (simp add: extends_def effects_def)

lemma effects_refl [simp]: "effects s s = []"
  by (simp add: effects_def)

lemma extends_trans: "extends s s' \<Longrightarrow> extends s' s'' \<Longrightarrow> extends s s''"
  by (auto simp: extends_iff)

lemma effects_trans:
  "extends s s' \<Longrightarrow> extends s' s'' \<Longrightarrow> effects s s'' = effects s s' @ effects s' s''"
  by (auto simp: extends_iff effects_def)

lemma effects_note [simp]: "effects s (note_effect e w s) = [e]" "effects s (move w s) = []"
  by (simp_all add: effects_def)

lemma extends_note [simp]: "extends s (note_effect e w s)" "extends s (move w s)"
  by (auto intro: extendsI)

lemma trace_projections [simp]:
  "created_pods [] = []" "created_pods (es @ es') = created_pods es @ created_pods es'"
  "requested_pods [] = []" "requested_pods (es @ es') = requested_pods es @ requested_pods es'"
  "status_writes [] = []" "status_writes (es @ es') = status_writes es @ status_writes es'"
  "object_writes [] = []" "object_writes (es @ es') = object_writes es @ object_writes es'"
  "recorded [] = []" "recorded (es @ es') = recorded es @ recorded es'"
  by (simp_all add: created_pods_def requested_pods_def status_writes_def object_writes_def
      recorded_def)

lemma trace_projections_Cons [simp]:
  "created_pods (e # es) = (case e of PodCreated p ok \<Rightarrow> if ok then [p] else [] | _ \<Rightarrow> []) @ created_pods es"
  "requested_pods (e # es) = (case e of PodCreated p ok \<Rightarrow> [p] | _ \<Rightarrow> []) @ requested_pods es"
  "status_writes (e # es) = (case e of StatusUpdated aw ok \<Rightarrow> [aw] | _ \<Rightarrow> []) @ status_writes es"
  "object_writes (e # es) = (case e of Updated aw ok \<Rightarrow> [aw] | _ \<Rightarrow> []) @ object_writes es"
  "recorded (e # es) = (case e of Recorded x ok \<Rightarrow> [x] | _ \<Rightarrow> []) @ recorded es"
  by (simp_all add: created_pods_def requested_pods_def status_writes_def object_writes_def
      recorded_def)

lemma created_subset_requested: "set (created_pods es) \<subseteq> set (requested_pods es)"
  by (auto simp: created_pods_def requested_pods_def split: effect.splits if_splits)

end
