(* ===== verification/Controller.thy ===== *)
theory Controller
  imports Inference Kube
begin

text \<open>
  The reconciler of \<^verbatim>\<open>internal/controller/adaptiveworkflow_controller.go\<close>: its struct and
  its helper methods. \<^verbatim>\<open>Reconcile\<close> itself is in the theory \<open>Reconcile\<close>.

  The fields of \<open>reconciler\<close> are those of the struct; \<open>rc_lib\<close> holds the pure library
  functions and \<open>rc_range\<close> the order in which a \<^verbatim>\<open>range\<close> over the status map visits it, one
  order per statement and world, since Go may choose a new one each time.
\<close>

section \<open>The struct\<close>

datatype range_site = RangeFailed | RangeSucceeded | RangeUsage | RangeCount

record ('w, 'q) reconciler =
  rc_client :: "('w, 'q) client"
  rc_Inference :: "('w, 'q) engine"
  rc_Optimizer :: "('w, 'q) optimizer"
  rc_StateDB :: "'w StateDB option"
  rc_lib :: "'q golib"
  rc_range :: "range_site \<Rightarrow> 'w \<Rightarrow> (string, 'q TaskStatus) map_order"

definition workflowFinalizer :: string where
  "workflowFinalizer = ''v1.wannabe.dev/finalizer''"

definition requeueInterval :: int where
  "requeueInterval = 10 * 1000000000"

text \<open>Any order at any statement, as long as every entry is visited once.\<close>

definition fair_ranges :: "('w, 'q) reconciler \<Rightarrow> bool" where
  "fair_ranges R \<longleftrightarrow> (\<forall>site w. map_order (rc_range R site w))"

section \<open>Access to the workflow object\<close>

text \<open>Reading the status map; the nil map reads as the empty one.\<close>

definition statuses :: "'q AdaptiveWorkflow \<Rightarrow> 'q TaskStatuses" where
  "statuses aw = (case st_TaskStatuses (wf_Status aw) of None \<Rightarrow> fmempty | Some m \<Rightarrow> m)"

definition upd_status :: "('q AdaptiveWorkflowStatus \<Rightarrow> 'q AdaptiveWorkflowStatus)
    \<Rightarrow> 'q AdaptiveWorkflow \<Rightarrow> 'q AdaptiveWorkflow" where
  "upd_status f aw = aw \<lparr> wf_Status := f (wf_Status aw) \<rparr>"

definition set_statuses :: "'q TaskStatuses \<Rightarrow> 'q AdaptiveWorkflow \<Rightarrow> 'q AdaptiveWorkflow" where
  "set_statuses m = upd_status (\<lambda>st. st \<lparr> st_TaskStatuses := Some m \<rparr>)"

definition set_phase :: "WorkflowPhase \<Rightarrow> 'q AdaptiveWorkflow \<Rightarrow> 'q AdaptiveWorkflow" where
  "set_phase p = upd_status (\<lambda>st. st \<lparr> st_Phase := p \<rparr>)"

definition set_usage :: "'q ResourceList \<Rightarrow> 'q AdaptiveWorkflow \<Rightarrow> 'q AdaptiveWorkflow" where
  "set_usage u = upd_status (\<lambda>st. st \<lparr> st_CurrentResourceUsage := u \<rparr>)"

definition set_condition :: "('w, 'q) client \<Rightarrow> Condition \<Rightarrow> 'q AdaptiveWorkflow \<Rightarrow> 'q AdaptiveWorkflow" where
  "set_condition K c = upd_status (\<lambda>st. st \<lparr> st_Conditions := cl_SetStatusCondition K (st_Conditions st) c \<rparr>)"

definition condition :: "string \<Rightarrow> string \<Rightarrow> string \<Rightarrow> string \<Rightarrow> Condition" where
  "condition ty st reason msg =
     \<lparr> co_Type = ty, co_Status = st, co_Reason = reason, co_Message = msg \<rparr>"

section \<open>Names and counts\<close>

definition podName :: "'q golib \<Rightarrow> string \<Rightarrow> string \<Rightarrow> string" where
  "podName L workflowName taskName = go_ToLower L (workflowName @ ''-'' @ taskName)"

fun count_loop :: "(string \<times> 'q TaskStatus) list \<Rightarrow> TaskPhase \<Rightarrow> int \<Rightarrow> int" where
  "count_loop [] phase cnt = cnt"
| "count_loop ((n, ts) # rest) phase cnt =
     count_loop rest phase (if ts_Phase ts = phase then cnt + 1 else cnt)"

definition countPhase :: "(string, 'q TaskStatus) map_order \<Rightarrow> 'q TaskStatuses \<Rightarrow> TaskPhase \<Rightarrow> int" where
  "countPhase ord sts phase = count_loop (go_range ord sts) phase 0"

definition computeResourceUsage :: "'q golib \<Rightarrow> (string, 'q TaskStatus) map_order
    \<Rightarrow> 'q TaskStatuses \<Rightarrow> 'q ResourceList" where
  "computeResourceUsage L ord taskStatuses =
     (let (totalCPU, totalMem) = running_usage L (go_range ord taskStatuses) (q_zero L) (q_zero L)
      in if q_IsZero L totalCPU \<and> q_IsZero L totalMem then fmempty
         else fmupd ResourceMemory totalMem (fmupd ResourceCPU totalCPU fmempty))"

section \<open>Creating a pod\<close>

fun find_task :: "string \<Rightarrow> 'q TaskTemplate list \<Rightarrow> 'q TaskTemplate option" where
  "find_task n [] = None"
| "find_task n (t # ts) = (if tt_Name t = n then Some t else find_task n ts)"

definition task_pod :: "'q golib \<Rightarrow> 'q AdaptiveWorkflow \<Rightarrow> 'q TaskTemplate \<Rightarrow> 'q TaskAllocation \<Rightarrow> 'q Pod" where
  "task_pod L aw task alloc =
     (let command = (if tt_Command task = [] then [''echo'', ''Running task '' @ tt_Name task]
                     else tt_Command task)
      in \<lparr> pod_Name = podName L (om_Name (wf_Meta aw)) (ta_TaskName alloc),
           pod_Namespace = om_Namespace (wf_Meta aw),
           pod_Labels = fmupd ''app.kubernetes.io/managed-by'' ''k8s-adaptive-workflows''
             (fmupd ''task-name'' (ta_TaskName alloc)
               (fmupd ''adaptive-workflow'' (om_Name (wf_Meta aw)) fmempty)),
           pod_Owners = [], pod_CreationTimestamp = 0, pod_RestartPolicy = ''Never'',
           pod_Containers = [\<lparr> ct_Name = ''task'', ct_Image = tt_Image task, ct_Command = command,
             ct_Resources = ta_Resources alloc \<rparr>],
           pod_Phase = '''', pod_StartTime = None \<rparr>)"

definition createTaskPod :: "('w, 'q) reconciler \<Rightarrow> 'q AdaptiveWorkflow \<Rightarrow> 'q TaskAllocation
    \<Rightarrow> ('w, 'q) sys \<Rightarrow> go_error option \<times> ('w, 'q) sys" where
  "createTaskPod R aw alloc s =
     (let L = rc_lib R; K = rc_client R
      in case find_task (ta_TaskName alloc) (sp_Tasks (wf_Spec aw)) of
           None \<Rightarrow> (Some (Err (''task '' @ go_quote L (ta_TaskName alloc) @ '' not found in spec'')), s)
         | Some task \<Rightarrow>
             (let name = podName L (om_Name (wf_Meta aw)) (ta_TaskName alloc)
              in case k_GetPod K (om_Namespace (wf_Meta aw)) name s of
                   (Inr existingPod, s1) \<Rightarrow> (None, s1)
                 | (Inl _, s1) \<Rightarrow>
                     (case cl_SetControllerReference K aw (task_pod L aw task alloc) of
                        Inl e \<Rightarrow> (Some (Wrapf ''failed to set owner reference: '' e), s1)
                      | Inr pod \<Rightarrow>
                          (case k_CreatePod K pod s1 of
                             (None, s2) \<Rightarrow> (None, s2)
                           | (Some e, s2) \<Rightarrow>
                               if cl_IsAlreadyExists K e then (None, s2)
                               else (Some (Wrapf (''failed to create pod '' @ name @ '': '') e), s2)))))"

section \<open>Reading the pods back\<close>

definition pod_execution :: "'q golib \<Rightarrow> 'q AdaptiveWorkflow \<Rightarrow> string \<Rightarrow> 'q TaskStatus \<Rightarrow> 'q Pod
    \<Rightarrow> int \<Rightarrow> int \<Rightarrow> TaskExecution" where
  "pod_execution L aw taskName ts pod now1 now2 =
     (let start = (case pod_StartTime pod of Some t \<Rightarrow> t | None \<Rightarrow> pod_CreationTimestamp pod);
          duration = Duration_Seconds (Since_ns now1 start);
          cpuReq = q_MilliValue L (rl_Cpu L (rr_Requests (ts_AllocatedResources ts)));
          memReq = go_div64 (q_Value L (rl_Memory L (rr_Requests (ts_AllocatedResources ts)))) mebibyte;
          img = (case pod_Containers pod of [] \<Rightarrow> ''unknown'' | c # _ \<Rightarrow> ct_Image c)
      in \<lparr> te_WorkflowName = om_Name (wf_Meta aw), te_TaskName = taskName, te_Image = img,
           te_ActualCPU = cpuReq, te_ActualMemMiB = memReq, te_DurationS = duration,
           te_Succeeded = True, te_CompletedAt = now2 \<rparr>)"

definition report_success :: "('w, 'q) reconciler \<Rightarrow> 'q AdaptiveWorkflow \<Rightarrow> string \<Rightarrow> 'q TaskStatus
    \<Rightarrow> 'q Pod \<Rightarrow> ('w, 'q) sys \<Rightarrow> ('w, 'q) sys" where
  "report_success R aw taskName ts pod s = (case rc_StateDB R of
     None \<Rightarrow> s
   | Some D \<Rightarrow>
       (case k_Now (rc_client R) s of (now1, s1) \<Rightarrow>
        (case k_Now (rc_client R) s1 of (now2, s2) \<Rightarrow>
         snd (k_RecordExecution D (pod_execution (rc_lib R) aw taskName ts pod now1 now2) s2))))"

definition sync_pod :: "('w, 'q) reconciler \<Rightarrow> 'q Pod \<Rightarrow> 'q AdaptiveWorkflow \<Rightarrow> ('w, 'q) sys
    \<Rightarrow> 'q AdaptiveWorkflow \<times> ('w, 'q) sys" where
  "sync_pod R pod aw s =
     (let K = rc_client R; L = rc_lib R; taskName = fm_get '''' (pod_Labels pod) ''task-name''
      in if taskName = '''' then (aw, s)
         else (case fmlookup (statuses aw) taskName of
           None \<Rightarrow> (aw, s)
         | Some ts \<Rightarrow>
             if ts_Phase ts \<noteq> TaskPhaseRunning then (aw, s)
             else if pod_Phase pod = PodSucceeded then
               (let ts' = ts \<lparr> ts_Phase := TaskPhaseSucceeded \<rparr>;
                    aw' = set_statuses (fmupd taskName ts' (statuses aw)) aw;
                    s1 = k_Event K aw' EventTypeNormal ''TaskSucceeded''
                      (''Task '' @ go_quote L taskName @ '' completed successfully'') s
                in (aw', report_success R aw' taskName ts' pod s1))
             else if pod_Phase pod = PodFailed then
               (let ts' = ts \<lparr> ts_Phase := TaskPhaseFailed \<rparr>;
                    aw' = set_statuses (fmupd taskName ts' (statuses aw)) aw
                in (aw', k_Event K aw' EventTypeWarning ''TaskFailed''
                      (''Task '' @ go_quote L taskName @ '' failed'') s))
             else (aw, s)))"

fun sync_loop :: "('w, 'q) reconciler \<Rightarrow> 'q Pod list \<Rightarrow> 'q AdaptiveWorkflow \<Rightarrow> ('w, 'q) sys
    \<Rightarrow> 'q AdaptiveWorkflow \<times> ('w, 'q) sys" where
  "sync_loop R [] aw s = (aw, s)"
| "sync_loop R (pod # pods) aw s = (case sync_pod R pod aw s of (aw', s') \<Rightarrow> sync_loop R pods aw' s')"

definition list_pods :: "('w, 'q) reconciler \<Rightarrow> 'q AdaptiveWorkflow \<Rightarrow> ('w, 'q) sys
    \<Rightarrow> (go_error + 'q Pod list) \<times> ('w, 'q) sys" where
  "list_pods R aw s =
     (case k_ListPodsByOwner (rc_client R) (om_Namespace (wf_Meta aw)) (om_UID (wf_Meta aw)) s of
        (Inr pods, s1) \<Rightarrow> (Inr pods, s1)
      | (Inl _, s1) \<Rightarrow> k_ListPodsByLabel (rc_client R) (om_Namespace (wf_Meta aw))
          ''adaptive-workflow'' (om_Name (wf_Meta aw)) s1)"

definition syncPodsToStatus :: "('w, 'q) reconciler \<Rightarrow> 'q AdaptiveWorkflow \<Rightarrow> ('w, 'q) sys
    \<Rightarrow> (go_error option \<times> 'q AdaptiveWorkflow) \<times> ('w, 'q) sys" where
  "syncPodsToStatus R aw s = (case list_pods R aw s of
     (Inl e, s1) \<Rightarrow> ((Some e, aw), s1)
   | (Inr pods, s1) \<Rightarrow> (case sync_loop R pods aw s1 of (aw', s2) \<Rightarrow> ((None, aw'), s2)))"

section \<open>Facts about the helpers\<close>

lemma upd_status_simps [simp]:
  "wf_Meta (upd_status f aw) = wf_Meta aw" "wf_Spec (upd_status f aw) = wf_Spec aw"
  "wf_Status (upd_status f aw) = f (wf_Status aw)"
  by (simp_all add: upd_status_def)

lemma set_fields_simps [simp]:
  "wf_Meta (set_statuses m aw) = wf_Meta aw" "wf_Spec (set_statuses m aw) = wf_Spec aw"
  "wf_Meta (set_phase p aw) = wf_Meta aw" "wf_Spec (set_phase p aw) = wf_Spec aw"
  "wf_Meta (set_usage u aw) = wf_Meta aw" "wf_Spec (set_usage u aw) = wf_Spec aw"
  "wf_Meta (set_condition K c aw) = wf_Meta aw" "wf_Spec (set_condition K c aw) = wf_Spec aw"
  by (simp_all add: set_statuses_def set_phase_def set_usage_def set_condition_def)

lemma status_phase_simps [simp]:
  "st_Phase (wf_Status (set_statuses m aw)) = st_Phase (wf_Status aw)"
  "st_Phase (wf_Status (set_phase p aw)) = p"
  "st_Phase (wf_Status (set_usage u aw)) = st_Phase (wf_Status aw)"
  "st_Phase (wf_Status (set_condition K c aw)) = st_Phase (wf_Status aw)"
  by (simp_all add: set_statuses_def set_phase_def set_usage_def set_condition_def)

lemma status_tasks_simps [simp]:
  "st_TaskStatuses (wf_Status (set_statuses m aw)) = Some m"
  "st_TaskStatuses (wf_Status (set_phase p aw)) = st_TaskStatuses (wf_Status aw)"
  "st_TaskStatuses (wf_Status (set_usage u aw)) = st_TaskStatuses (wf_Status aw)"
  "st_TaskStatuses (wf_Status (set_condition K c aw)) = st_TaskStatuses (wf_Status aw)"
  by (simp_all add: set_statuses_def set_phase_def set_usage_def set_condition_def)

lemma status_usage_simps [simp]:
  "st_CurrentResourceUsage (wf_Status (set_statuses m aw)) = st_CurrentResourceUsage (wf_Status aw)"
  "st_CurrentResourceUsage (wf_Status (set_phase p aw)) = st_CurrentResourceUsage (wf_Status aw)"
  "st_CurrentResourceUsage (wf_Status (set_usage u aw)) = u"
  "st_CurrentResourceUsage (wf_Status (set_condition K c aw)) = st_CurrentResourceUsage (wf_Status aw)"
  by (simp_all add: set_statuses_def set_phase_def set_usage_def set_condition_def)

lemma statuses_simps [simp]:
  "statuses (set_statuses m aw) = m" "statuses (set_phase p aw) = statuses aw"
  "statuses (set_usage u aw) = statuses aw" "statuses (set_condition K c aw) = statuses aw"
  by (simp_all add: statuses_def)

lemma statuses_Some [simp]: "st_TaskStatuses (wf_Status aw) = Some m \<Longrightarrow> statuses aw = m"
  by (simp add: statuses_def)

subsection \<open>Names, counts and usage\<close>

lemma count_loop_eq: "count_loop xs p c = c + int (length (filter (\<lambda>(n, ts). ts_Phase ts = p) xs))"
  by (induction xs p c rule: count_loop.induct) auto

lemma countPhase_eq:
  assumes "map_order ord"
  shows "countPhase ord sts p = int (card {n. phase_of sts n = Some p})"
proof -
  have d: "distinct (filter (\<lambda>n. ts_Phase (the (fmlookup sts n)) = p) (ord sts))"
    and s: "set (ord sts) = fmdom' sts"
    using assms by (auto simp: map_order_def)
  have "{n. phase_of sts n = Some p} = set (filter (\<lambda>n. ts_Phase (the (fmlookup sts n)) = p) (ord sts))"
    using s by (auto simp: phase_of_def fmlookup_dom'_iff)
  then show ?thesis
    using distinct_card [OF d]
    by (simp add: countPhase_def count_loop_eq go_range_def filter_map comp_def)
qed

lemma computeResourceUsage_amount:
  assumes "quantity_arith L amt" "map_order ord" "r \<in> {ResourceCPU, ResourceMemory}"
  shows "amount_of amt (computeResourceUsage L ord sts) r = usage_of amt sts r"
  using assms running_usage_range [OF assms(1,2), of sts]
  by (auto simp: computeResourceUsage_def amount_of_def quantity_arithD split: prod.splits)

lemma find_task_Some: "find_task n ts = Some t \<Longrightarrow> t \<in> set ts \<and> tt_Name t = n"
  by (induction ts) (auto split: if_splits)

lemma find_task_None: "find_task n ts = None \<longleftrightarrow> n \<notin> tt_Name ` set ts"
  by (induction ts) auto

subsection \<open>Creating a pod\<close>

text \<open>
  At most one pod is asked for, and it is the one of a task of the specification with the
  allocated resources, as \<^verbatim>\<open>SetControllerReference\<close> returned it.
\<close>

lemma createTaskPod_effects:
  assumes "createTaskPod R aw alloc s = (e, s')"
  shows "extends s s' \<and> (effects s s' = []
    \<or> (\<exists>task pod ok. find_task (ta_TaskName alloc) (sp_Tasks (wf_Spec aw)) = Some task
        \<and> cl_SetControllerReference (rc_client R) aw (task_pod (rc_lib R) aw task alloc) = Inr pod
        \<and> effects s s' = [PodCreated pod ok] \<and> (ok \<longrightarrow> e = None)))"
  using assms
  by (auto simp: createTaskPod_def Let_def k_GetPod_def k_CreatePod_def effects_def extends_iff
      split: option.splits prod.splits sum.splits if_splits)

lemma createTaskPod_frame:
  assumes "createTaskPod R aw alloc s = (e, s')"
  shows "extends s s'" "status_writes (effects s s') = []" "object_writes (effects s s') = []"
    "recorded (effects s s') = []"
  using createTaskPod_effects [OF assms] by auto

lemma createTaskPod_ok_in_spec:
  "createTaskPod R aw alloc s = (None, s') \<Longrightarrow> ta_TaskName alloc \<in> set (task_names (wf_Spec aw))"
  by (force simp: createTaskPod_def Let_def dest: find_task_Some split: option.splits)

subsection \<open>Reading the pods back\<close>

text \<open>
  What a list of pods says about a task: the phase the first of its pods that is finished
  gives it. \<open>synced\<close> is the status map after taking it over.
\<close>

definition label_of :: "'q Pod \<Rightarrow> string" where
  "label_of pod = fm_get '''' (pod_Labels pod) ''task-name''"

fun pod_outcome :: "'q Pod list \<Rightarrow> string \<Rightarrow> TaskPhase option" where
  "pod_outcome [] n = None"
| "pod_outcome (pod # pods) n =
     (if label_of pod = n \<and> n \<noteq> '''' \<and> pod_Phase pod = PodSucceeded then Some TaskPhaseSucceeded
      else if label_of pod = n \<and> n \<noteq> '''' \<and> pod_Phase pod = PodFailed then Some TaskPhaseFailed
      else pod_outcome pods n)"

definition take_outcome :: "'q Pod list \<Rightarrow> string \<Rightarrow> 'q TaskStatus \<Rightarrow> 'q TaskStatus" where
  "take_outcome pods n ts = (if ts_Phase ts = TaskPhaseRunning
     then (case pod_outcome pods n of None \<Rightarrow> ts | Some p \<Rightarrow> ts \<lparr> ts_Phase := p \<rparr>) else ts)"

definition synced :: "'q Pod list \<Rightarrow> 'q TaskStatuses \<Rightarrow> 'q TaskStatuses" where
  "synced pods sts = fmmap_keys (take_outcome pods) sts"

lemma fmlookup_synced [simp]:
  "fmlookup (synced pods sts) n = map_option (take_outcome pods n) (fmlookup sts n)"
  by (simp add: synced_def)

lemma pod_outcome_cases: "pod_outcome pods n \<in> {None, Some TaskPhaseSucceeded, Some TaskPhaseFailed}"
  by (induction pods) auto

lemma take_outcome_Nil [simp]: "take_outcome [] n ts = ts"
  by (simp add: take_outcome_def)

lemma take_outcome_Cons: "take_outcome (p # ps) n ts = take_outcome ps n (take_outcome [p] n ts)"
  by (cases "pod_outcome ps n") (simp_all add: take_outcome_def)

lemma synced_Nil [simp]: "synced [] sts = sts"
  by (rule fmap_ext) (simp add: map_option_cong [of _ _ _ "\<lambda>ts. ts"] option.map_ident)

lemma synced_Cons: "synced (p # ps) sts = synced ps (synced [p] sts)"
  by (rule fmap_ext) (simp add: option.map_comp comp_def take_outcome_Cons [of p ps, abs_def])

lemma fmdom'_synced [simp]: "fmdom' (synced pods sts) = fmdom' sts"
  by (auto simp: fmlookup_dom'_iff)

text \<open>The synchronisation touches nothing of the object but the status map.\<close>

definition with_statuses :: "'q TaskStatuses \<Rightarrow> 'q AdaptiveWorkflow \<Rightarrow> 'q AdaptiveWorkflow" where
  "with_statuses m aw = (if st_TaskStatuses (wf_Status aw) = None then aw else set_statuses m aw)"

lemma set_statuses_id: "st_TaskStatuses (wf_Status aw) = Some m \<Longrightarrow> set_statuses m aw = aw"
  by (cases aw) (simp add: set_statuses_def upd_status_def)

lemma set_statuses_twice [simp]: "set_statuses m (set_statuses m' aw) = set_statuses m aw"
  by (simp add: set_statuses_def upd_status_def)

lemma sync_pod_status:
  assumes "st_TaskStatuses (wf_Status aw) = Some m"
  shows "fst (sync_pod R pod aw s) = set_statuses (synced [pod] m) aw"
proof -
  have id: "synced [pod] m = m" if "\<And>n. map_option (take_outcome [pod] n) (fmlookup m n) = fmlookup m n"
    by (rule fmap_ext) (simp add: that)
  have upd: "synced [pod] m = fmupd (label_of pod) (ts \<lparr> ts_Phase := p \<rparr>) m"
    if "fmlookup m (label_of pod) = Some ts" "ts_Phase ts = TaskPhaseRunning" "label_of pod \<noteq> ''''"
      "pod_phase = pod_Phase pod"
      "(pod_phase = PodSucceeded \<and> p = TaskPhaseSucceeded) \<or> (pod_phase = PodFailed \<and> p = TaskPhaseFailed)"
    for ts p pod_phase
  proof (rule fmap_ext)
    fix n show "fmlookup (synced [pod] m) n = fmlookup (fmupd (label_of pod) (ts \<lparr> ts_Phase := p \<rparr>) m) n"
      using that by (cases "fmlookup m n") (auto simp: take_outcome_def)
  qed
  show ?thesis
  proof (cases "label_of pod \<noteq> '''' \<and> (\<exists>ts. fmlookup m (label_of pod) = Some ts
      \<and> ts_Phase ts = TaskPhaseRunning) \<and> pod_Phase pod \<in> {PodSucceeded, PodFailed}")
    case True
    then show ?thesis
      using assms upd by (auto simp: sync_pod_def Let_def label_of_def [symmetric])
  next
    case False
    then have "map_option (take_outcome [pod] n) (fmlookup m n) = fmlookup m n" for n
      by (cases "fmlookup m n") (auto simp: take_outcome_def)
    with False assms show ?thesis
      by (auto simp: sync_pod_def Let_def label_of_def [symmetric] id set_statuses_id
          split: option.splits)
  qed
qed

lemma sync_loop_status:
  assumes "st_TaskStatuses (wf_Status aw) = Some m"
  shows "fst (sync_loop R pods aw s) = set_statuses (synced pods m) aw"
  using assms
proof (induction pods arbitrary: aw m s)
  case Nil
  then show ?case by (simp add: set_statuses_id)
next
  case (Cons pod pods)
  have "fst (sync_pod R pod aw s) = set_statuses (synced [pod] m) aw"
    using Cons.prems by (rule sync_pod_status)
  then show ?case
    using Cons.IH [of "set_statuses (synced [pod] m) aw" "synced [pod] m"]
    by (auto simp: synced_Cons [of pod pods] split: prod.split)
qed

text \<open>
  The effects: an event per finished task, and a record in the history per succeeded one. No
  pod is created and nothing is written.
\<close>

definition quiet :: "'q effect list \<Rightarrow> bool" where
  "quiet es \<longleftrightarrow> requested_pods es = [] \<and> status_writes es = [] \<and> object_writes es = []"

lemma quiet_append [simp]: "quiet (es @ es') \<longleftrightarrow> quiet es \<and> quiet es'"
  by (auto simp: quiet_def)

lemma quiet_Nil [simp]: "quiet []"
  by (simp add: quiet_def)

lemma quietD: "quiet es \<Longrightarrow> requested_pods es = []" "quiet es \<Longrightarrow> status_writes es = []"
  "quiet es \<Longrightarrow> object_writes es = []"
  by (simp_all add: quiet_def)

lemma report_success_effects:
  "extends s (report_success R aw n ts pod s) \<and> quiet (effects s (report_success R aw n ts pod s))
    \<and> map te_TaskName (recorded (effects s (report_success R aw n ts pod s)))
      = (if rc_StateDB R = None then [] else [n])"
  by (auto simp: report_success_def k_Now_def k_RecordExecution_def effects_def extends_iff quiet_def
      pod_execution_def Let_def split: option.splits prod.splits)

lemma sync_pod_effects:
  "extends s (snd (sync_pod R pod aw s)) \<and> quiet (effects s (snd (sync_pod R pod aw s)))
    \<and> map te_TaskName (recorded (effects s (snd (sync_pod R pod aw s))))
      = (if rc_StateDB R \<noteq> None \<and> label_of pod \<noteq> '''' \<and> pod_Phase pod = PodSucceeded
            \<and> phase_of (statuses aw) (label_of pod) = Some TaskPhaseRunning
         then [label_of pod] else [])"
proof -
  have event: "extends s (k_Event (rc_client R) x ty re m s)"
    "effects s (k_Event (rc_client R) x ty re m s) = [Emitted ty re m]" for x ty re m
    by (simp_all add: k_Event_def)
  have fin: "extends s (report_success R aw' n ts pod (k_Event (rc_client R) x ty re m s))
    \<and> effects s (report_success R aw' n ts pod (k_Event (rc_client R) x ty re m s))
      = Emitted ty re m # effects (k_Event (rc_client R) x ty re m s) (report_success R aw' n ts pod (k_Event (rc_client R) x ty re m s))"
    for aw' n ts x ty re m
    using extends_trans [OF event(1) conjunct1 [OF report_success_effects]]
      effects_trans [OF event(1) conjunct1 [OF report_success_effects]]
    by (simp add: event(2))
  show ?thesis
    using fin report_success_effects [where R = R and pod = pod]
    by (auto simp: sync_pod_def Let_def label_of_def [symmetric] phase_of_def event quiet_def
        split: option.splits)
qed

lemma phase_of_synced:
  "phase_of (synced pods m) n = (if phase_of m n = Some TaskPhaseRunning
     then (case pod_outcome pods n of None \<Rightarrow> phase_of m n | Some p \<Rightarrow> Some p) else phase_of m n)"
  by (cases "fmlookup m n") (auto simp: phase_of_def take_outcome_def split: option.splits)

lemma synced_running: "phase_of (synced pods m) n = Some TaskPhaseRunning \<Longrightarrow> phase_of m n = Some TaskPhaseRunning"
  using pod_outcome_cases [of pods n] by (auto simp: phase_of_synced split: if_splits option.splits)

lemma sync_loop_effects:
  assumes "st_TaskStatuses (wf_Status aw) = Some m"
  shows "extends s (snd (sync_loop R pods aw s)) \<and> quiet (effects s (snd (sync_loop R pods aw s)))"
  using assms
proof (induction pods arbitrary: aw m s)
  case Nil
  then show ?case by simp
next
  case (Cons pod pods)
  obtain aw1 s1 where step: "sync_pod R pod aw s = (aw1, s1)" by fastforce
  with sync_pod_status [OF Cons.prems, of R pod s] have "st_TaskStatuses (wf_Status aw1) = Some (synced [pod] m)"
    by auto
  note rest = Cons.IH [OF this, of s1]
  have first: "extends s s1 \<and> quiet (effects s s1)" using sync_pod_effects [of s R pod aw] step by simp
  from rest first have "extends s (snd (sync_loop R pods aw1 s1))"
    by (blast intro: extends_trans)
  moreover from rest first have "quiet (effects s (snd (sync_loop R pods aw1 s1)))"
    by (subst effects_trans [of s s1]) auto
  ultimately show ?case using step by simp
qed

lemma succeeded_Cons:
  "phase_of m n = Some TaskPhaseRunning \<and> phase_of (synced (pod # pods) m) n = Some TaskPhaseSucceeded
    \<longleftrightarrow> phase_of m n = Some TaskPhaseRunning \<and> label_of pod = n \<and> n \<noteq> '''' \<and> pod_Phase pod = PodSucceeded
      \<or> phase_of (synced [pod] m) n = Some TaskPhaseRunning
        \<and> phase_of (synced pods (synced [pod] m)) n = Some TaskPhaseSucceeded"
proof (cases "label_of pod = n \<and> n \<noteq> '''' \<and> pod_Phase pod \<in> {PodSucceeded, PodFailed}")
  case True
  then show ?thesis by (auto simp: phase_of_synced)
next
  case False
  then have "phase_of (synced [pod] m) n = phase_of m n" by (auto simp: phase_of_synced)
  moreover have "phase_of (synced (pod # pods) m) n = phase_of (synced pods (synced [pod] m)) n"
    by (simp only: synced_Cons [of pod pods])
  ultimately show ?thesis using False by auto
qed

text \<open>The tasks recorded are those that went from running to succeeded, once each.\<close>

lemma sync_loop_recorded:
  assumes "st_TaskStatuses (wf_Status aw) = Some m" "rc_StateDB R \<noteq> None"
  shows "distinct (map te_TaskName (recorded (effects s (snd (sync_loop R pods aw s)))))
    \<and> set (map te_TaskName (recorded (effects s (snd (sync_loop R pods aw s))))) = {n. phase_of m n = Some TaskPhaseRunning
    \<and> phase_of (synced pods m) n = Some TaskPhaseSucceeded}"
  using assms
proof (induction pods arbitrary: aw m s)
  case Nil
  then show ?case by auto
next
  case (Cons pod pods)
  obtain aw1 s1 where step: "sync_pod R pod aw s = (aw1, s1)" by fastforce
  with sync_pod_status [OF Cons.prems(1), of R pod s]
  have aw1: "st_TaskStatuses (wf_Status aw1) = Some (synced [pod] m)" by auto
  let ?rest = "map te_TaskName (recorded (effects s1 (snd (sync_loop R pods aw1 s1))))"
  let ?hd = "if label_of pod \<noteq> '''' \<and> pod_Phase pod = PodSucceeded
    \<and> phase_of m (label_of pod) = Some TaskPhaseRunning then [label_of pod] else []"
  have ih: "distinct ?rest \<and> set ?rest = {n. phase_of (synced [pod] m) n = Some TaskPhaseRunning
    \<and> phase_of (synced pods (synced [pod] m)) n = Some TaskPhaseSucceeded}"
    by (rule Cons.IH [OF aw1 Cons.prems(2)])
  have names: "map te_TaskName (recorded (effects s (snd (sync_loop R (pod # pods) aw s)))) = ?hd @ ?rest"
  proof -
    have "extends s s1" and hd: "map te_TaskName (recorded (effects s s1)) = ?hd"
      using sync_pod_effects [of s R pod aw] step Cons.prems by auto
    then have "effects s (snd (sync_loop R pods aw1 s1)) = effects s s1 @ effects s1 (snd (sync_loop R pods aw1 s1))"
      using sync_loop_effects [OF aw1, of s1 R pods] by (intro effects_trans) auto
    with hd step show ?thesis by simp
  qed
  have "{n. phase_of m n = Some TaskPhaseRunning \<and> phase_of (synced (pod # pods) m) n = Some TaskPhaseSucceeded}
    = set ?hd \<union> set ?rest"
    unfolding conjunct2 [OF ih] using succeeded_Cons [of m _ pod pods] by auto
  moreover have "set ?hd \<inter> set ?rest = {}"
    unfolding conjunct2 [OF ih] by (auto simp: phase_of_synced)
  ultimately show ?case using ih unfolding names by auto
qed

end
