(* ===== verification/Reconcile.thy ===== *)
theory Reconcile
  imports Controller
begin

text \<open>
  \<^verbatim>\<open>Reconcile\<close> of \<^verbatim>\<open>internal/controller/adaptiveworkflow_controller.go\<close>, one definition
  per numbered step of the function, and what one call does: which branch it takes, what it
  writes, which pods it asks for and how task and workflow phases may change.

  A call returns \<open>None\<close> if it panics, and otherwise the result and the error. Log messages are
  not modelled.
\<close>

section \<open>The reconciliation function\<close>

record ctrl_result =
  cr_Requeue :: bool
  cr_RequeueAfter :: int

definition empty_result :: ctrl_result where
  "empty_result = \<lparr> cr_Requeue = False, cr_RequeueAfter = 0 \<rparr>"

type_synonym outcome = "(ctrl_result \<times> go_error option) option"

abbreviation finished :: outcome where
  "finished \<equiv> Some (empty_result, None)"

abbreviation failed :: "go_error \<Rightarrow> outcome" where
  "failed e \<equiv> Some (empty_result, Some e)"

text \<open>Step 2: deletion, and adding the finalizer.\<close>

definition reconcile_delete :: "('w, 'q) reconciler \<Rightarrow> 'q AdaptiveWorkflow \<Rightarrow> ('w, 'q) sys
    \<Rightarrow> outcome \<times> ('w, 'q) sys" where
  "reconcile_delete R aw s =
     (if cl_ContainsFinalizer (rc_client R) aw workflowFinalizer
      then (case k_Update (rc_client R) (cl_RemoveFinalizer (rc_client R) aw workflowFinalizer) s of
              ((Some e, _), s1) \<Rightarrow> (failed e, s1)
            | ((None, _), s1) \<Rightarrow> (finished, s1))
      else (finished, s))"

definition ensure_finalizer :: "('w, 'q) reconciler \<Rightarrow> 'q AdaptiveWorkflow \<Rightarrow> ('w, 'q) sys
    \<Rightarrow> (go_error + 'q AdaptiveWorkflow) \<times> ('w, 'q) sys" where
  "ensure_finalizer R aw s =
     (if \<not> cl_ContainsFinalizer (rc_client R) aw workflowFinalizer
      then (case k_Update (rc_client R) (cl_AddFinalizer (rc_client R) aw workflowFinalizer) s of
              ((Some e, _), s1) \<Rightarrow> (Inl e, s1)
            | ((None, aw'), s1) \<Rightarrow> (Inr aw', s1))
      else (Inr aw, s))"

text \<open>Step 3: every task of the specification starts as pending.\<close>

fun init_statuses :: "'q TaskStatuses \<Rightarrow> 'q TaskTemplate list \<Rightarrow> 'q TaskStatuses" where
  "init_statuses sts [] = sts"
| "init_statuses sts (task # tasks) =
     init_statuses (fmupd (tt_Name task) (zero_TaskStatus \<lparr> ts_Phase := TaskPhasePending \<rparr>) sts) tasks"

definition reconcile_init :: "('w, 'q) reconciler \<Rightarrow> 'q AdaptiveWorkflow \<Rightarrow> ('w, 'q) sys
    \<Rightarrow> outcome \<times> ('w, 'q) sys" where
  "reconcile_init R aw s =
     (let K = rc_client R; tasks = sp_Tasks (wf_Spec aw);
          msg = ''Workflow initialized with '' @ dec_int (int (length tasks)) @ '' tasks'';
          aw1 = set_condition K (condition ''Progressing'' ''True'' ''Initialized'' msg)
            (set_phase WorkflowPhasePending (set_statuses (init_statuses fmempty tasks) aw))
      in case k_UpdateStatus K aw1 s of
           ((Some e, _), s1) \<Rightarrow> (failed (Wrapf ''failed to initialize status: '' e), s1)
         | ((None, aw2), s1) \<Rightarrow>
             (Some (empty_result \<lparr> cr_Requeue := True \<rparr>, None),
              k_Event K aw2 EventTypeNormal ''Initialized'' msg s1))"

text \<open>Step 4.\<close>

definition is_terminal :: "WorkflowPhase \<Rightarrow> bool" where
  "is_terminal p \<longleftrightarrow> p = WorkflowPhaseCompleted \<or> p = WorkflowPhaseFailed"

text \<open>Step 6: the first failed task the range statement meets.\<close>

fun first_failed :: "(string \<times> 'q TaskStatus) list \<Rightarrow> string option" where
  "first_failed [] = None"
| "first_failed ((taskName, ts) # rest) =
     (if ts_Phase ts = TaskPhaseFailed then Some taskName else first_failed rest)"

definition reconcile_failed :: "('w, 'q) reconciler \<Rightarrow> string \<Rightarrow> 'q AdaptiveWorkflow \<Rightarrow> ('w, 'q) sys
    \<Rightarrow> outcome \<times> ('w, 'q) sys" where
  "reconcile_failed R taskName aw s =
     (let K = rc_client R; qn = go_quote (rc_lib R) taskName;
          aw1 = set_condition K (condition ''Progressing'' ''False'' ''TaskFailed''
              (''Workflow stopped because task '' @ qn @ '' failed''))
            (set_condition K (condition ''Available'' ''False'' ''TaskFailed'' (''Task '' @ qn @ '' failed''))
              (set_phase WorkflowPhaseFailed aw))
      in case k_UpdateStatus K aw1 s of
           ((Some e, _), s1) \<Rightarrow> (failed e, s1)
         | ((None, aw2), s1) \<Rightarrow>
             (finished, k_Event K aw2 EventTypeWarning ''WorkflowFailed''
                (''Workflow failed because task '' @ qn @ '' failed'') s1))"

text \<open>Step 7.\<close>

fun all_succeeded :: "(string \<times> 'q TaskStatus) list \<Rightarrow> bool" where
  "all_succeeded [] = True"
| "all_succeeded ((n, ts) # rest) = (if ts_Phase ts \<noteq> TaskPhaseSucceeded then False else all_succeeded rest)"

definition reconcile_completed :: "('w, 'q) reconciler \<Rightarrow> 'q AdaptiveWorkflow \<Rightarrow> ('w, 'q) sys
    \<Rightarrow> outcome \<times> ('w, 'q) sys" where
  "reconcile_completed R aw s =
     (let K = rc_client R;
          aw1 = set_condition K (condition ''Progressing'' ''False'' ''Completed''
              ''Workflow execution is complete'')
            (set_condition K (condition ''Available'' ''True'' ''AllTasksSucceeded''
                ''All workflow tasks completed successfully'')
              (set_usage fmempty (set_phase WorkflowPhaseCompleted aw)))
      in case k_UpdateStatus K aw1 s of
           ((Some e, _), s1) \<Rightarrow> (failed e, s1)
         | ((None, aw2), s1) \<Rightarrow>
             (finished, k_Event K aw2 EventTypeNormal ''WorkflowCompleted''
                ''All tasks completed successfully'' s1))"

text \<open>Step 8c: a pod for every planned task. Writing to a nil status map would panic.\<close>

definition start_task :: "'q golib \<Rightarrow> 'q AdaptiveWorkflow \<Rightarrow> 'q TaskAllocation \<Rightarrow> 'q TaskStatus" where
  "start_task L aw alloc = (fm_get zero_TaskStatus (statuses aw) (ta_TaskName alloc))
     \<lparr> ts_Phase := TaskPhaseRunning, ts_AllocatedResources := ta_Resources alloc,
       ts_PodName := podName L (om_Name (wf_Meta aw)) (ta_TaskName alloc) \<rparr>"

fun spawn_loop :: "('w, 'q) reconciler \<Rightarrow> 'q TaskAllocation list \<Rightarrow> 'q AdaptiveWorkflow \<Rightarrow> ('w, 'q) sys
    \<Rightarrow> 'q AdaptiveWorkflow option \<times> ('w, 'q) sys" where
  "spawn_loop R [] aw s = (Some aw, s)"
| "spawn_loop R (alloc # allocs) aw s =
     (let K = rc_client R; L = rc_lib R
      in case createTaskPod R aw alloc s of
           (Some e, s1) \<Rightarrow> spawn_loop R allocs aw (k_Event K aw EventTypeWarning ''PodCreationFailed''
             (''Failed to create pod for task '' @ go_quote L (ta_TaskName alloc) @ '': '' @ error_text e) s1)
         | (None, s1) \<Rightarrow>
             (case st_TaskStatuses (wf_Status aw) of
                None \<Rightarrow> (None, s1)
              | Some m \<Rightarrow>
                  (let ts = start_task L aw alloc;
                       aw' = set_statuses (fmupd (ta_TaskName alloc) ts m) aw
                   in spawn_loop R allocs aw' (k_Event K aw' EventTypeNormal ''TaskStarted''
                        (''Started task '' @ go_quote L (ta_TaskName alloc) @ '' with pod ''
                          @ go_quote L (ts_PodName ts)) s1))))"

text \<open>Steps 9 and 10.\<close>

definition reconcile_finish :: "('w, 'q) reconciler \<Rightarrow> 'q AdaptiveWorkflow \<Rightarrow> ('w, 'q) sys
    \<Rightarrow> outcome \<times> ('w, 'q) sys" where
  "reconcile_finish R aw s =
     (let K = rc_client R; w = sy_world s;
          aw1 = set_usage (computeResourceUsage (rc_lib R) (rc_range R RangeUsage w) (statuses aw)) aw;
          aw2 = set_condition K (condition ''Progressing'' ''True'' ''Reconciling''
              (dec_int (countPhase (rc_range R RangeCount w) (statuses aw1) TaskPhaseRunning)
                @ '' tasks running'')) aw1
      in case k_UpdateStatus K aw2 s of
           ((Some e, _), s1) \<Rightarrow> (failed (Wrapf ''failed to update status: '' e), s1)
         | ((None, _), s1) \<Rightarrow>
             (Some (empty_result \<lparr> cr_RequeueAfter := requeueInterval \<rparr>, None), s1))"

text \<open>Step 8: predictions, plan, pods.\<close>

definition reconcile_execute :: "('w, 'q) reconciler \<Rightarrow> 'q AdaptiveWorkflow \<Rightarrow> ('w, 'q) sys
    \<Rightarrow> outcome \<times> ('w, 'q) sys" where
  "reconcile_execute R aw s =
     (let aw1 = set_phase WorkflowPhaseRunning aw
      in case rc_Inference R (wf_Spec aw1) (sy_world s) of
           (None, w1) \<Rightarrow> (None, move w1 s)
         | (Some p, w1) \<Rightarrow>
             (let predictions = (case p of Inl e \<Rightarrow> fmempty | Inr preds \<Rightarrow> preds)
              in case rc_Optimizer R (wf_Spec aw1) (statuses aw1) predictions w1 of
                   (None, w2) \<Rightarrow> (None, move w2 s)
                 | (Some (Inl e), w2) \<Rightarrow> (failed (Wrapf ''optimizer failed: '' e), move w2 s)
                 | (Some (Inr plan), w2) \<Rightarrow>
                     (case spawn_loop R (pl_TasksToStart plan) aw1 (move w2 s) of
                        (None, s3) \<Rightarrow> (None, s3)
                      | (Some aw2, s3) \<Rightarrow> reconcile_finish R aw2 s3)))"

text \<open>Steps 5 to 10, on a workflow with a status map that is not terminal.\<close>

definition reconcile_active :: "('w, 'q) reconciler \<Rightarrow> 'q AdaptiveWorkflow \<Rightarrow> ('w, 'q) sys
    \<Rightarrow> outcome \<times> ('w, 'q) sys" where
  "reconcile_active R aw s =
     (case syncPodsToStatus R aw s of
        ((Some e, _), s1) \<Rightarrow> (failed (Wrapf ''failed to sync pod status: '' e), s1)
      | ((None, aw1), s1) \<Rightarrow>
          (case first_failed (go_range (rc_range R RangeFailed (sy_world s1)) (statuses aw1)) of
             Some taskName \<Rightarrow> reconcile_failed R taskName aw1 s1
           | None \<Rightarrow>
               if all_succeeded (go_range (rc_range R RangeSucceeded (sy_world s1)) (statuses aw1))
                  \<and> go_len (statuses aw1) > 0
               then reconcile_completed R aw1 s1
               else reconcile_execute R aw1 s1))"

definition Reconcile :: "('w, 'q) reconciler \<Rightarrow> string \<Rightarrow> string \<Rightarrow> ('w, 'q) sys
    \<Rightarrow> outcome \<times> ('w, 'q) sys" where
  "Reconcile R ns name s =
     (case k_GetWorkflow (rc_client R) ns name s of
        (Inl e, s1) \<Rightarrow>
          if cl_IsNotFound (rc_client R) e then (finished, s1)
          else (failed (Wrapf ''failed to get AdaptiveWorkflow: '' e), s1)
      | (Inr aw, s1) \<Rightarrow>
          if om_DeletionTimestamp (wf_Meta aw) \<noteq> None then reconcile_delete R aw s1
          else (case ensure_finalizer R aw s1 of
                  (Inl e, s2) \<Rightarrow> (failed e, s2)
                | (Inr aw1, s2) \<Rightarrow>
                    if st_TaskStatuses (wf_Status aw1) = None then reconcile_init R aw1 s2
                    else if is_terminal (st_Phase (wf_Status aw1)) then (finished, s2)
                    else reconcile_active R aw1 s2))"

section \<open>Facts about the steps\<close>

lemma fmlookup_init:
  "fmlookup (init_statuses m tasks) n = (if n \<in> tt_Name ` set tasks
     then Some (zero_TaskStatus \<lparr> ts_Phase := TaskPhasePending \<rparr>) else fmlookup m n)"
  by (induction tasks arbitrary: m) auto

lemma phase_of_init:
  "phase_of (init_statuses fmempty tasks) n = (if n \<in> tt_Name ` set tasks then Some TaskPhasePending else None)"
  by (simp add: phase_of_def fmlookup_init)

lemma first_failed_None: "first_failed xs = None \<longleftrightarrow> (\<forall>(n, ts) \<in> set xs. ts_Phase ts \<noteq> TaskPhaseFailed)"
  by (induction xs rule: first_failed.induct) auto

lemma first_failed_Some: "first_failed xs = Some n \<Longrightarrow> \<exists>ts. (n, ts) \<in> set xs \<and> ts_Phase ts = TaskPhaseFailed"
  by (induction xs rule: first_failed.induct) (auto split: if_splits)

lemma all_succeeded_iff: "all_succeeded xs \<longleftrightarrow> (\<forall>(n, ts) \<in> set xs. ts_Phase ts = TaskPhaseSucceeded)"
  by (induction xs rule: all_succeeded.induct) auto

lemma first_failed_range:
  assumes "map_order ord"
  shows "first_failed (go_range ord m) = None \<longleftrightarrow> (\<forall>n. phase_of m n \<noteq> Some TaskPhaseFailed)"
    and "first_failed (go_range ord m) = Some n \<Longrightarrow> phase_of m n = Some TaskPhaseFailed"
  using first_failed_Some [of "go_range ord m" n]
  by (auto simp: first_failed_None set_go_range [OF assms] phase_of_def)

lemma all_succeeded_range:
  assumes "map_order ord"
  shows "all_succeeded (go_range ord m) \<longleftrightarrow> (\<forall>n \<in> fmdom' m. phase_of m n = Some TaskPhaseSucceeded)"
proof -
  have "(\<forall>n \<in> fmdom' m. phase_of m n = Some TaskPhaseSucceeded)
    \<longleftrightarrow> (\<forall>n ts. fmlookup m n = Some ts \<longrightarrow> ts_Phase ts = TaskPhaseSucceeded)"
    by (auto simp: Ball_def fmlookup_dom'_iff phase_of_def)
  then show ?thesis by (simp add: all_succeeded_iff set_go_range [OF assms])
qed

subsection \<open>Starting tasks\<close>

definition start_entry :: "'q golib \<Rightarrow> string \<Rightarrow> 'q TaskAllocation \<Rightarrow> 'q TaskStatus" where
  "start_entry L wname a = \<lparr> ts_Phase = TaskPhaseRunning,
     ts_PodName = podName L wname (ta_TaskName a), ts_AllocatedResources = ta_Resources a \<rparr>"

definition start_all :: "'q golib \<Rightarrow> string \<Rightarrow> 'q TaskAllocation list \<Rightarrow> 'q TaskStatuses \<Rightarrow> 'q TaskStatuses" where
  "start_all L wname as m = foldl (\<lambda>m a. fmupd (ta_TaskName a) (start_entry L wname a) m) m as"

lemma start_task_eq: "start_task L aw a = start_entry L (om_Name (wf_Meta aw)) a"
  by (simp add: start_task_def start_entry_def)

lemma start_all_Cons:
  "start_all L wname (a # as) m = start_all L wname as (fmupd (ta_TaskName a) (start_entry L wname a) m)"
  by (simp add: start_all_def)

lemma start_all_Nil [simp]: "start_all L wname [] m = m"
  by (simp add: start_all_def)

lemma phase_of_start_all:
  "phase_of (start_all L wname as m) n
    = (if n \<in> ta_TaskName ` set as then Some TaskPhaseRunning else phase_of m n)"
  by (induction as arbitrary: m) (auto simp: start_all_Cons start_entry_def)

text \<open>The pods a workflow's tasks may get: built from the template and given its owner.\<close>

definition owned_pod :: "('w, 'q) reconciler \<Rightarrow> 'q AdaptiveWorkflow \<Rightarrow> 'q TaskAllocation \<Rightarrow> 'q Pod \<Rightarrow> bool" where
  "owned_pod R aw a pod \<longleftrightarrow> (\<exists>task aw'. find_task (ta_TaskName a) (sp_Tasks (wf_Spec aw)) = Some task
     \<and> wf_Meta aw' = wf_Meta aw \<and> wf_Spec aw' = wf_Spec aw
     \<and> cl_SetControllerReference (rc_client R) aw' (task_pod (rc_lib R) aw task a) = Inr pod)"

lemma task_pod_meta: "wf_Meta aw = wf_Meta aw' \<Longrightarrow> task_pod L aw t a = task_pod L aw' t a"
  by (simp add: task_pod_def Let_def)

lemma owned_pod_cong:
  "wf_Meta aw = wf_Meta aw' \<Longrightarrow> wf_Spec aw = wf_Spec aw' \<Longrightarrow> owned_pod R aw a p = owned_pod R aw' a p"
  by (simp add: owned_pod_def task_pod_meta [of aw aw'])

definition spawns :: "('w, 'q) reconciler \<Rightarrow> 'q AdaptiveWorkflow \<Rightarrow> 'q TaskAllocation list \<Rightarrow> 'q effect list \<Rightarrow> bool" where
  "spawns R aw as es \<longleftrightarrow> status_writes es = [] \<and> object_writes es = [] \<and> recorded es = []
     \<and> (\<forall>p \<in> set (requested_pods es). \<exists>a \<in> set as. owned_pod R aw a p)"

lemma createTaskPod_spawns:
  "createTaskPod R aw a s = (e, s') \<Longrightarrow> extends s s' \<and> spawns R aw [a] (effects s s')"
  using createTaskPod_effects [of R aw a s e s'] by (auto simp: spawns_def owned_pod_def)

lemma k_Event_effects: "extends s (k_Event K aw ty re m s)" "effects s (k_Event K aw ty re m s) = [Emitted ty re m]"
  by (simp_all add: k_Event_def)

lemma spawns_seq:
  assumes "spawns R aw [a] es" "spawns R aw as es'"
  shows "spawns R aw (a # as) (es @ Emitted x y z # es')"
  using assms by (auto simp: spawns_def)

lemma spawn_tail:
  assumes "createTaskPod R aw a s = (e, s1)"
    and "extends (k_Event (rc_client R) x ty re msg s1) s'"
    and "spawns R aw allocs (effects (k_Event (rc_client R) x ty re msg s1) s')"
  shows "extends s s' \<and> spawns R aw (a # allocs) (effects s s')"
proof -
  let ?s2 = "k_Event (rc_client R) x ty re msg s1"
  note head = createTaskPod_spawns [OF assms(1)]
  have s1: "extends s1 s'" by (rule extends_trans [OF k_Event_effects(1) assms(2)])
  then have "effects s s' = effects s s1 @ effects s1 s'" using head by (intro effects_trans) auto
  also have "effects s1 s' = effects s1 ?s2 @ effects ?s2 s'"
    by (rule effects_trans [OF k_Event_effects(1) assms(2)])
  finally have "effects s s' = effects s s1 @ Emitted ty re msg # effects ?s2 s'" by (simp add: k_Event_effects)
  moreover have "extends s s'" using head s1 by (blast intro: extends_trans)
  ultimately show ?thesis using head assms(3) by (auto intro: spawns_seq)
qed

lemma spawn_loop_spec:
  assumes "st_TaskStatuses (wf_Status aw) = Some m"
  shows "\<exists>started s'. spawn_loop R allocs aw s
      = (Some (set_statuses (start_all (rc_lib R) (om_Name (wf_Meta aw)) started m) aw), s')
    \<and> subseq started allocs \<and> extends s s' \<and> spawns R aw allocs (effects s s')"
  using assms
proof (induction allocs arbitrary: aw m s)
  case Nil
  then show ?case by (intro exI [of _ "[]"]) (simp add: set_statuses_id spawns_def)
next
  case (Cons a allocs)
  obtain e s1 where create: "createTaskPod R aw a s = (e, s1)" by fastforce
  note tail = spawn_tail [OF create, of _ _ _ _ _ allocs]
  show ?case
  proof (cases e)
    case (Some err)
    with create Cons.IH [OF Cons.prems] tail show ?thesis
      by (simp add: Let_def) (metis list_emb.list_emb_Cons)
  next
    case None
    let ?m = "fmupd (ta_TaskName a) (start_task (rc_lib R) aw a) m"
    have "st_TaskStatuses (wf_Status (set_statuses ?m aw)) = Some ?m" by simp
    define s2 where "s2 = k_Event (rc_client R) (set_statuses ?m aw) EventTypeNormal ''TaskStarted''
      (''Started task '' @ go_quote (rc_lib R) (ta_TaskName a) @ '' with pod ''
        @ go_quote (rc_lib R) (ts_PodName (start_task (rc_lib R) aw a))) s1"
    from Cons.IH [OF \<open>st_TaskStatuses (wf_Status (set_statuses ?m aw)) = Some ?m\<close>, of s2]
    obtain started s' where rest: "spawn_loop R allocs (set_statuses ?m aw) s2
        = (Some (set_statuses (start_all (rc_lib R) (om_Name (wf_Meta aw)) started ?m) aw), s')"
      "subseq started allocs" "extends s2 s'" "spawns R (set_statuses ?m aw) allocs (effects s2 s')"
      by auto
    from rest(4) have "spawns R aw allocs (effects s2 s')"
      by (simp add: spawns_def owned_pod_cong [of "set_statuses ?m aw" aw])
    with rest(3) have "extends s s' \<and> spawns R aw (a # allocs) (effects s s')"
      unfolding s2_def by (rule tail)
    moreover have "spawn_loop R (a # allocs) aw s
        = (Some (set_statuses (start_all (rc_lib R) (om_Name (wf_Meta aw)) (a # started) m) aw), s')"
      using None create Cons.prems rest(1)
      by (simp add: Let_def start_all_Cons start_task_eq s2_def)
    ultimately show ?thesis using rest(2) by (intro exI [of _ "a # started"]) auto
  qed
qed

subsection \<open>What one call may do\<close>

text \<open>
  The object a status update sends: metadata and specification as loaded, the given task
  statuses and the given phase.
\<close>

definition wrote :: "'q AdaptiveWorkflow \<Rightarrow> 'q TaskStatuses \<Rightarrow> WorkflowPhase \<Rightarrow> 'q AdaptiveWorkflow \<Rightarrow> bool" where
  "wrote aw m p aw' \<longleftrightarrow> wf_Meta aw' = wf_Meta aw \<and> wf_Spec aw' = wf_Spec aw
     \<and> st_TaskStatuses (wf_Status aw') = Some m \<and> st_Phase (wf_Status aw') = p"

lemma list_pods_effects: "list_pods R aw s = (r, s') \<Longrightarrow> extends s s' \<and> effects s s' = []"
  by (auto simp: list_pods_def k_ListPodsByOwner_def k_ListPodsByLabel_def effects_def extends_iff
      split: prod.splits sum.splits)

lemma sync_spec:
  assumes "st_TaskStatuses (wf_Status aw) = Some m" "syncPodsToStatus R aw s = ((None, aw1), s1)"
  obtains pods s0 where "list_pods R aw s = (Inr pods, s0)" "aw1 = set_statuses (synced pods m) aw"
    "extends s s1" "quiet (effects s s1)"
proof -
  obtain pods s0 where l: "list_pods R aw s = (Inr pods, s0)" and r: "sync_loop R pods aw s0 = (aw1, s1)"
    using assms(2) by (auto simp: syncPodsToStatus_def split: prod.splits sum.splits)
  from list_pods_effects [OF l] have s0: "extends s s0" "effects s s0 = []" by auto
  from sync_loop_effects [OF assms(1), of s0 R pods] r have s1: "extends s0 s1" "quiet (effects s0 s1)"
    by auto
  from sync_loop_status [OF assms(1), of R pods s0] r have "aw1 = set_statuses (synced pods m) aw"
    by simp
  moreover have "extends s s1" "quiet (effects s s1)"
    using extends_trans [OF s0(1) s1(1)] effects_trans [OF s0(1) s1(1)] s0(2) s1(2) by simp_all
  ultimately show ?thesis using that l by blast
qed

lemma sync_error:
  "syncPodsToStatus R aw s = ((Some e, aw1), s1) \<Longrightarrow> extends s s1 \<and> effects s s1 = []"
  by (auto simp: syncPodsToStatus_def split: prod.splits sum.splits dest: list_pods_effects)

text \<open>One status update and nothing else: the last step of every branch that writes.\<close>

definition one_write :: "'q AdaptiveWorkflow \<Rightarrow> 'q effect list \<Rightarrow> bool" where
  "one_write aw es \<longleftrightarrow> status_writes es = [aw] \<and> object_writes es = [] \<and> requested_pods es = []
     \<and> recorded es = []"

lemma reconcile_failed_spec:
  assumes "reconcile_failed R n aw s = (out, s')" "st_TaskStatuses (wf_Status aw) = Some m"
  shows "extends s s' \<and> (\<exists>aw'. wrote aw m WorkflowPhaseFailed aw' \<and> one_write aw' (effects s s'))
    \<and> (\<exists>e. out = Some (empty_result, e))"
  using assms
  by (auto simp: reconcile_failed_def Let_def k_UpdateStatus_def k_Event_def effects_def extends_iff
      wrote_def one_write_def split: prod.splits option.splits)

lemma reconcile_completed_spec:
  assumes "reconcile_completed R aw s = (out, s')" "st_TaskStatuses (wf_Status aw) = Some m"
  shows "extends s s' \<and> (\<exists>aw'. wrote aw m WorkflowPhaseCompleted aw' \<and> one_write aw' (effects s s')
      \<and> st_CurrentResourceUsage (wf_Status aw') = fmempty)
    \<and> (\<exists>e. out = Some (empty_result, e))"
  using assms
  by (auto simp: reconcile_completed_def Let_def k_UpdateStatus_def k_Event_def effects_def extends_iff
      wrote_def one_write_def split: prod.splits option.splits)

lemma reconcile_init_exact:
  assumes "reconcile_init R aw s = (out, s')"
  shows "\<exists>aw' ok. extends s s' \<and> effects s s' = StatusUpdated aw' ok # (if ok
        then [Emitted EventTypeNormal ''Initialized'' (''Workflow initialized with ''
          @ dec_int (int (length (sp_Tasks (wf_Spec aw)))) @ '' tasks'')] else [])
    \<and> wrote aw (init_statuses fmempty (sp_Tasks (wf_Spec aw))) WorkflowPhasePending aw'
    \<and> (if ok then out = Some (empty_result \<lparr> cr_Requeue := True \<rparr>, None)
       else \<exists>e. out = failed (Wrapf ''failed to initialize status: '' e))"
proof -
  define msg where "msg = ''Workflow initialized with '' @ dec_int (int (length (sp_Tasks (wf_Spec aw)))) @ '' tasks''"
  define aw1 where "aw1 = set_condition (rc_client R) (condition ''Progressing'' ''True'' ''Initialized'' msg)
    (set_phase WorkflowPhasePending (set_statuses (init_statuses fmempty (sp_Tasks (wf_Spec aw))) aw))"
  obtain e aw2 w where u: "cl_UpdateStatus (rc_client R) aw1 (sy_world s) = ((e, aw2), w)"
    by (metis surj_pair)
  have w: "wrote aw (init_statuses fmempty (sp_Tasks (wf_Spec aw))) WorkflowPhasePending aw1"
    by (simp add: wrote_def aw1_def)
  have r: "reconcile_init R aw s = (case e of
      Some err \<Rightarrow> (failed (Wrapf ''failed to initialize status: '' err), note_effect (StatusUpdated aw1 False) w s)
    | None \<Rightarrow> (Some (empty_result \<lparr> cr_Requeue := True \<rparr>, None),
        k_Event (rc_client R) aw2 EventTypeNormal ''Initialized'' msg (note_effect (StatusUpdated aw1 True) w s)))"
    using u by (simp add: reconcile_init_def Let_def k_UpdateStatus_def aw1_def msg_def split: option.split)
  show ?thesis
    by (rule exI [of _ aw1], rule exI [of _ "e = None"])
      (use assms w in \<open>auto simp: r k_Event_def effects_def extends_iff msg_def split: option.splits\<close>)
qed

lemma reconcile_init_spec:
  assumes "reconcile_init R aw s = (out, s')"
  shows "extends s s' \<and> (\<exists>aw'. wrote aw (init_statuses fmempty (sp_Tasks (wf_Spec aw))) WorkflowPhasePending aw'
      \<and> one_write aw' (effects s s'))"
  using reconcile_init_exact [OF assms] by (auto simp: one_write_def split: if_splits)

lemma reconcile_finish_spec:
  assumes "reconcile_finish R aw s = (out, s')" "st_TaskStatuses (wf_Status aw) = Some m"
  shows "extends s s' \<and> (\<exists>aw'. wrote aw m (st_Phase (wf_Status aw)) aw' \<and> one_write aw' (effects s s')
      \<and> st_CurrentResourceUsage (wf_Status aw')
        = computeResourceUsage (rc_lib R) (rc_range R RangeUsage (sy_world s)) m)
    \<and> (out = Some (empty_result \<lparr> cr_RequeueAfter := requeueInterval \<rparr>, None) \<or> (\<exists>e. out = failed e))"
  using assms
  by (auto simp: reconcile_finish_def Let_def k_UpdateStatus_def effects_def extends_iff
      wrote_def one_write_def split: prod.splits option.splits)

lemma reconcile_delete_spec:
  assumes "reconcile_delete R aw s = (out, s')"
  shows "extends s s' \<and> (effects s s' = []
    \<or> (\<exists>ok. effects s s' = [Updated (cl_RemoveFinalizer (rc_client R) aw workflowFinalizer) ok]))"
  using assms
  by (auto simp: reconcile_delete_def k_Update_def split: prod.splits option.splits if_splits)

lemma ensure_finalizer_spec:
  assumes "ensure_finalizer R aw s = (r, s')"
  shows "extends s s' \<and> (effects s s' = [] \<and> r = Inr aw
    \<or> (\<exists>ok. effects s s' = [Updated (cl_AddFinalizer (rc_client R) aw workflowFinalizer) ok]))"
  using assms
  by (auto simp: ensure_finalizer_def k_Update_def split: prod.splits option.splits if_splits)

text \<open>
  The runs of steps 5 to 10, as a relation between the loaded object with its status map, the
  outcome and the effects. \<open>lst\<close> is the result of listing the pods; a run that is \<open>stopped\<close> ends
  before anything is written or created.
\<close>

definition no_failures :: "'q TaskStatuses \<Rightarrow> bool" where
  "no_failures m \<longleftrightarrow> (\<forall>n. phase_of m n \<noteq> Some TaskPhaseFailed)"

definition all_done :: "'q TaskStatuses \<Rightarrow> bool" where
  "all_done m \<longleftrightarrow> m \<noteq> fmempty \<and> (\<forall>n \<in> fmdom' m. phase_of m n = Some TaskPhaseSucceeded)"

inductive active_run :: "('w, 'q) reconciler \<Rightarrow> 'q AdaptiveWorkflow \<Rightarrow> 'q TaskStatuses
    \<Rightarrow> go_error + 'q Pod list \<Rightarrow> outcome \<Rightarrow> 'q effect list \<Rightarrow> bool" for R aw m lst where
  stopped: "\<lbrakk> quiet es; \<forall>r. out \<noteq> Some (r, None) \<rbrakk> \<Longrightarrow> active_run R aw m lst out es"
| failure: "\<lbrakk> quiet es0; lst = Inr pods; phase_of (synced pods m) n = Some TaskPhaseFailed;
     wrote aw (synced pods m) WorkflowPhaseFailed aw'; one_write aw' es \<rbrakk>
   \<Longrightarrow> active_run R aw m lst (Some (empty_result, e)) (es0 @ es)"
| completion: "\<lbrakk> quiet es0; lst = Inr pods; all_done (synced pods m);
     wrote aw (synced pods m) WorkflowPhaseCompleted aw'; one_write aw' es;
     st_CurrentResourceUsage (wf_Status aw') = fmempty \<rbrakk>
   \<Longrightarrow> active_run R aw m lst (Some (empty_result, e)) (es0 @ es)"
| execution: "\<lbrakk> quiet es0; lst = Inr pods; no_failures (synced pods m); \<not> all_done (synced pods m);
     rc_Inference R (wf_Spec aw) w0 = (Some r, w);
     preds = (case r of Inl e \<Rightarrow> fmempty | Inr x \<Rightarrow> x);
     rc_Optimizer R (wf_Spec aw) (synced pods m) preds w = (Some (Inr plan), w');
     subseq started (pl_TasksToStart plan); spawns R aw (pl_TasksToStart plan) es1;
     wrote aw (start_all (rc_lib R) (om_Name (wf_Meta aw)) started (synced pods m))
       WorkflowPhaseRunning aw';
     st_CurrentResourceUsage (wf_Status aw') = computeResourceUsage (rc_lib R)
       (rc_range R RangeUsage w2) (start_all (rc_lib R) (om_Name (wf_Meta aw)) started (synced pods m));
     one_write aw' es2;
     out = Some (empty_result \<lparr> cr_RequeueAfter := requeueInterval \<rparr>, None) \<or> (\<exists>e. out = failed e) \<rbrakk>
   \<Longrightarrow> active_run R aw m lst out (es0 @ es1 @ es2)"

lemma reconcile_execute_eq:
  assumes "rc_Inference R (wf_Spec aw) (sy_world s1) = (p, w1)" "preds = (case p of Some (Inr x) \<Rightarrow> x | _ \<Rightarrow> fmempty)"
    "rc_Optimizer R (wf_Spec aw) m preds w1 = (q, w2)"
  shows "reconcile_execute R (set_statuses m aw) s1 = (case p of None \<Rightarrow> (None, move w1 s1)
    | Some _ \<Rightarrow> (case q of None \<Rightarrow> (None, move w2 s1)
       | Some (Inl e) \<Rightarrow> (failed (Wrapf ''optimizer failed: '' e), move w2 s1)
       | Some (Inr plan) \<Rightarrow> (case spawn_loop R (pl_TasksToStart plan) (set_phase WorkflowPhaseRunning (set_statuses m aw)) (move w2 s1) of
           (None, s3) \<Rightarrow> (None, s3) | (Some aw3, s3) \<Rightarrow> reconcile_finish R aw3 s3)))"
proof (cases p)
  case None
  with assms show ?thesis by (simp add: reconcile_execute_def Let_def)
next
  case (Some a)
  then have "(case a of Inl e \<Rightarrow> fmempty | Inr x \<Rightarrow> x) = preds" by (simp add: assms(2) split: sum.split)
  with Some assms show ?thesis by (simp add: reconcile_execute_def Let_def split: option.split sum.split)
qed

lemma active_run_execute:
  assumes "reconcile_execute R aw1 s1 = (out, s')" "aw1 = set_statuses (synced pods m) aw"
    "no_failures (synced pods m)" "\<not> all_done (synced pods m)" "quiet es0" "lst = Inr pods"
  shows "extends s1 s' \<and> active_run R aw m lst out (es0 @ effects s1 s')"
proof -
  let ?m = "synced pods m" and ?aw2 = "set_phase WorkflowPhaseRunning aw1"
  obtain p w1 where inf: "rc_Inference R (wf_Spec aw) (sy_world s1) = (p, w1)" by fastforce
  define preds where "preds = (case p of Some (Inr x) \<Rightarrow> x | _ \<Rightarrow> fmempty)"
  obtain q w2 where opt: "rc_Optimizer R (wf_Spec aw) ?m preds w1 = (q, w2)" by fastforce
  note ex = reconcile_execute_eq [OF inf preds_def opt, folded assms(2)]
  have stop: "extends s1 (move x s1) \<and> active_run R aw m lst out (es0 @ effects s1 (move x s1))"
    if "\<forall>r. out \<noteq> Some (r, None)" for x
    using that assms(5) by (auto intro: stopped)
  show ?thesis
  proof (cases "\<exists>a plan. p = Some a \<and> q = Some (Inr plan)")
    case False
    with assms(1) stop show ?thesis unfolding ex by (auto split: option.splits sum.splits)
  next
    case True
    then obtain a plan where pq: "p = Some a" "q = Some (Inr plan)" by blast
    have preds: "preds = (case a of Inl e \<Rightarrow> fmempty | Inr x \<Rightarrow> x)"
      by (simp add: preds_def pq(1) split: sum.split)
    have "st_TaskStatuses (wf_Status ?aw2) = Some ?m" by (simp add: assms(2))
    from spawn_loop_spec [OF this, of R "pl_TasksToStart plan" "move w2 s1"]
    obtain started s3 where sp: "spawn_loop R (pl_TasksToStart plan) ?aw2 (move w2 s1)
        = (Some (set_statuses (start_all (rc_lib R) (om_Name (wf_Meta ?aw2)) started ?m) ?aw2), s3)"
      "subseq started (pl_TasksToStart plan)" "extends (move w2 s1) s3"
      "spawns R ?aw2 (pl_TasksToStart plan) (effects (move w2 s1) s3)" by blast
    let ?m' = "start_all (rc_lib R) (om_Name (wf_Meta aw)) started ?m"
    have fin: "reconcile_finish R (set_statuses ?m' ?aw2) s3 = (out, s')"
      using assms(1) [unfolded ex pq] sp(1) by (simp add: assms(2))
    obtain aw' where aw': "extends s3 s'" "wrote (set_statuses ?m' ?aw2) ?m' WorkflowPhaseRunning aw'"
      "one_write aw' (effects s3 s')" "st_CurrentResourceUsage (wf_Status aw')
        = computeResourceUsage (rc_lib R) (rc_range R RangeUsage (sy_world s3)) ?m'"
      "out = Some (empty_result \<lparr> cr_RequeueAfter := requeueInterval \<rparr>, None) \<or> (\<exists>e. out = failed e)"
      using reconcile_finish_spec [OF fin, of ?m'] by auto
    have e3: "extends s1 s3" "effects s1 s3 = effects (move w2 s1) s3"
      using sp(3) by (auto simp: extends_iff effects_def)
    have w: "wrote aw ?m' WorkflowPhaseRunning aw'"
      using aw'(2) by (simp add: wrote_def assms(2))
    have sp': "spawns R aw (pl_TasksToStart plan) (effects s1 s3)"
      using sp(4) by (simp add: e3 spawns_def assms(2) owned_pod_cong [of "set_phase WorkflowPhaseRunning (set_statuses ?m aw)" aw])
    have "active_run R aw m lst out (es0 @ effects s1 s3 @ effects s3 s')"
      using execution [OF assms(5,6,3,4) inf [unfolded pq(1)] preds opt [unfolded pq(2)] sp(2) sp' w aw'(4) aw'(3) aw'(5)] .
    moreover have "extends s1 s'" "effects s1 s' = effects s1 s3 @ effects s3 s'"
      by (rule extends_trans [OF e3(1) aw'(1)], rule effects_trans [OF e3(1) aw'(1)])
    ultimately show ?thesis by simp
  qed
qed

lemma active_run_intro:
  assumes "st_TaskStatuses (wf_Status aw) = Some m" "fair_ranges R" "reconcile_active R aw s = (out, s')"
  shows "extends s s' \<and> active_run R aw m (fst (list_pods R aw s)) out (effects s s')"
proof -
  obtain e aw1 s1 where sync: "syncPodsToStatus R aw s = ((e, aw1), s1)" by (metis surj_pair)
  show ?thesis
  proof (cases e)
    case (Some err)
    with sync assms(3) show ?thesis
      using sync_error [of R aw s err aw1 s1] by (auto simp: reconcile_active_def intro: stopped)
  next
    case None
    with sync have "syncPodsToStatus R aw s = ((None, aw1), s1)" by simp
    with assms(1) obtain pods s0 where sp: "list_pods R aw s = (Inr pods, s0)"
      "aw1 = set_statuses (synced pods m) aw" "extends s s1" "quiet (effects s s1)"
      by (rule sync_spec)
    let ?m = "synced pods m"
    let ?f = "first_failed (go_range (rc_range R RangeFailed (sy_world s1)) ?m)"
    have ord: "map_order (rc_range R site w)" for site w using assms(2) by (simp add: fair_ranges_def)
    have st: "st_TaskStatuses (wf_Status aw1) = Some ?m" by (simp add: sp(2))
    have "all_succeeded (go_range (rc_range R RangeSucceeded (sy_world s1)) ?m) \<and> go_len ?m > 0 \<longleftrightarrow> all_done ?m"
      by (auto simp: all_succeeded_range [OF ord] all_done_def)
    then have act: "reconcile_active R aw s = (case ?f of Some n \<Rightarrow> reconcile_failed R n aw1 s1
        | None \<Rightarrow> if all_done ?m then reconcile_completed R aw1 s1 else reconcile_execute R aw1 s1)"
      using sync None st by (simp add: reconcile_active_def)
    have seq: "extends s s' \<and> effects s s' = effects s s1 @ effects s1 s'" if "extends s1 s'"
      using extends_trans [OF sp(3) that] effects_trans [OF sp(3) that] by simp
    have w: "wrote aw1 ?m p aw' = wrote aw ?m p aw'" for p aw' by (simp add: wrote_def sp(2))
    show ?thesis
    proof (cases ?f)
      case (Some n)
      with act assms(3) have "reconcile_failed R n aw1 s1 = (out, s')" by simp
      from reconcile_failed_spec [OF this st] seq first_failed_range(2) [OF ord Some] sp(1,4) w show ?thesis
        by (auto intro: failure)
    next
      case None
      then have nf: "no_failures ?m" by (simp add: first_failed_range(1) [OF ord] no_failures_def)
      show ?thesis
      proof (cases "all_done ?m")
        case True
        with None act assms(3) have "reconcile_completed R aw1 s1 = (out, s')" by simp
        from reconcile_completed_spec [OF this st] seq sp(1,4) w True show ?thesis
          by (auto intro: completion)
      next
        case False
        with None act assms(3) have "reconcile_execute R aw1 s1 = (out, s')" by simp
        from active_run_execute [OF this sp(2) nf False sp(4)] sp(1) seq show ?thesis by auto
      qed
    qed
  qed
qed

end
