(* ===== verification/Mem_Cluster.thy ===== *)
theory Mem_Cluster
  imports Reconcile
begin

text \<open>
  A cluster that can be computed with: one workflow object with all its versions, newest
  first, a list of pods and a clock. Writes are accepted only for the newest resource version,
  status and object updates are separate as for a resource with a status subresource, pods
  have unique names and are listed by label only, since no field index is registered. It
  shows that the laws the other theories state about the client can hold, and the witnesses
  of the properties are computed on it.
\<close>

record 'q cluster =
  cu_versions :: "'q AdaptiveWorkflow list"
  cu_pods :: "'q Pod list"
  cu_clock :: int

definition version_of :: "'q AdaptiveWorkflow \<Rightarrow> string" where
  "version_of aw = om_ResourceVersion (wf_Meta aw)"

definition with_version :: "'q cluster \<Rightarrow> 'q AdaptiveWorkflow \<Rightarrow> 'q AdaptiveWorkflow" where
  "with_version w aw = aw \<lparr> wf_Meta := (wf_Meta aw) \<lparr> om_ResourceVersion := dec_nat (length (cu_versions w)) \<rparr> \<rparr>"

definition mem_Get :: "string \<Rightarrow> string \<Rightarrow> 'q cluster \<Rightarrow> (go_error + 'q AdaptiveWorkflow) \<times> 'q cluster" where
  "mem_Get ns n w = ((case cu_versions w of
       aw # _ \<Rightarrow> if om_Namespace (wf_Meta aw) = ns \<and> om_Name (wf_Meta aw) = n then Inr aw
         else Inl (Err ''not found'')
     | [] \<Rightarrow> Inl (Err ''not found'')), w)"

definition mem_commit :: "('q AdaptiveWorkflow \<Rightarrow> 'q AdaptiveWorkflow \<Rightarrow> 'q AdaptiveWorkflow)
    \<Rightarrow> 'q AdaptiveWorkflow \<Rightarrow> 'q cluster \<Rightarrow> (go_error option \<times> 'q AdaptiveWorkflow) \<times> 'q cluster" where
  "mem_commit merge aw w = (case cu_versions w of
     cur # _ \<Rightarrow>
       if version_of aw = version_of cur
       then (let new = with_version w (merge cur aw)
             in ((None, new), w \<lparr> cu_versions := new # cu_versions w \<rparr>))
       else ((Some (Err ''conflict''), aw), w)
   | [] \<Rightarrow> ((Some (Err ''not found''), aw), w))"

definition mem_Create :: "'q Pod \<Rightarrow> 'q cluster \<Rightarrow> go_error option \<times> 'q cluster" where
  "mem_Create pod w =
     (if list_ex (\<lambda>p. pod_Namespace p = pod_Namespace pod \<and> pod_Name p = pod_Name pod) (cu_pods w)
      then (Some (Err ''already exists''), w)
      else (None, w \<lparr> cu_pods := cu_pods w @ [pod \<lparr> pod_Phase := ''Pending'' \<rparr>] \<rparr>))"

definition mem_set_condition :: "Condition list \<Rightarrow> Condition \<Rightarrow> Condition list" where
  "mem_set_condition cs c = (if list_ex (\<lambda>d. co_Type d = co_Type c) cs
     then map (\<lambda>d. if co_Type d = co_Type c then c else d) cs else cs @ [c])"

definition mem_client :: "('q cluster, 'q) client" where
  "mem_client = \<lparr> cl_GetWorkflow = mem_Get,
     cl_Update = mem_commit (\<lambda>cur aw. aw \<lparr> wf_Status := wf_Status cur \<rparr>),
     cl_UpdateStatus = mem_commit (\<lambda>cur aw. cur \<lparr> wf_Status := wf_Status aw \<rparr>),
     cl_ListPodsByOwner = (\<lambda>ns uid w. (Inl (Err ''no field index''), w)),
     cl_ListPodsByLabel = (\<lambda>ns l v w. (Inr (filter (\<lambda>p. pod_Namespace p = ns
       \<and> fmlookup (pod_Labels p) l = Some v) (cu_pods w)), w)),
     cl_GetPod = (\<lambda>ns n w. ((case find (\<lambda>p. pod_Namespace p = ns \<and> pod_Name p = n) (cu_pods w) of
       Some p \<Rightarrow> Inr p | None \<Rightarrow> Inl (Err ''not found'')), w)),
     cl_CreatePod = mem_Create,
     cl_IsNotFound = (\<lambda>e. e = Err ''not found''),
     cl_IsAlreadyExists = (\<lambda>e. e = Err ''already exists''),
     cl_ContainsFinalizer = (\<lambda>aw f. f \<in> set (om_Finalizers (wf_Meta aw))),
     cl_AddFinalizer = (\<lambda>aw f. aw \<lparr> wf_Meta := (wf_Meta aw)
       \<lparr> om_Finalizers := om_Finalizers (wf_Meta aw) @ [f] \<rparr> \<rparr>),
     cl_RemoveFinalizer = (\<lambda>aw f. aw \<lparr> wf_Meta := (wf_Meta aw)
       \<lparr> om_Finalizers := filter (\<lambda>x. x \<noteq> f) (om_Finalizers (wf_Meta aw)) \<rparr> \<rparr>),
     cl_SetControllerReference = (\<lambda>aw p. Inr (p \<lparr> pod_Owners := [om_UID (wf_Meta aw)] \<rparr>)),
     cl_SetStatusCondition = mem_set_condition,
     cl_Event = (\<lambda>aw ty re msg w. w),
     cl_Now = (\<lambda>w. (cu_clock w, w \<lparr> cu_clock := cu_clock w + 1 \<rparr>)) \<rparr>"

section \<open>An example\<close>

definition ex_R :: "(rat cluster, rat) reconciler" where
  "ex_R = \<lparr> rc_client = mem_client, rc_Inference = BaselineEngine,
     rc_Optimizer = GreedyOptimizer rat_lib sorted_order, rc_StateDB = Some NoOpStateDB,
     rc_lib = rat_lib, rc_range = (\<lambda>_ _. sorted_order) \<rparr>"

lemma ex_R_simps [simp]:
  "rc_client ex_R = mem_client" "rc_Inference ex_R = BaselineEngine"
  "rc_Optimizer ex_R = GreedyOptimizer rat_lib sorted_order" "rc_StateDB ex_R = Some NoOpStateDB"
  "rc_lib ex_R = rat_lib" "fair_ranges ex_R"
  by (simp_all add: ex_R_def fair_ranges_def map_order_sorted)

definition ex_meta :: ObjectMeta where
  "ex_meta = \<lparr> om_Name = ''wf'', om_Namespace = ''ns'', om_UID = ''u1'', om_ResourceVersion = ''0'',
     om_CreationTimestamp = 0, om_DeletionTimestamp = None, om_Finalizers = [workflowFinalizer] \<rparr>"

definition ex_wf :: "WorkflowPhase \<Rightarrow> rat TaskStatuses option \<Rightarrow> rat AdaptiveWorkflow" where
  "ex_wf p m = \<lparr> wf_Meta = ex_meta, wf_Spec = ex_spec,
     wf_Status = \<lparr> st_Phase = p, st_TaskStatuses = m, st_CurrentResourceUsage = fmempty,
       st_Conditions = [] \<rparr> \<rparr>"

lemma ex_wf_simps [simp]:
  "wf_Meta (ex_wf p m) = ex_meta" "wf_Spec (ex_wf p m) = ex_spec" "st_Phase (wf_Status (ex_wf p m)) = p"
  "st_TaskStatuses (wf_Status (ex_wf p m)) = m"
  by (simp_all add: ex_wf_def)

definition ex_pod :: "string \<Rightarrow> string \<Rightarrow> rat Pod" where
  "ex_pod n p = (task_pod rat_lib (ex_wf '''' None) (ex_task n [] 1)
     \<lparr> ta_TaskName = n, ta_Resources = zero_resources \<rparr>) \<lparr> pod_Phase := p \<rparr>"

definition ex_sys :: "rat AdaptiveWorkflow \<Rightarrow> rat Pod list \<Rightarrow> (rat cluster, rat) sys" where
  "ex_sys aw pods = \<lparr> sy_world = \<lparr> cu_versions = [aw], cu_pods = pods, cu_clock = 0 \<rparr>, sy_trace = [] \<rparr>"

text \<open>The statuses with task \<open>a\<close> running, and with \<open>a\<close> succeeded.\<close>

definition ex_running :: "rat TaskStatuses" where
  "ex_running = fmupd ''a'' (ex_status TaskPhaseRunning) ex_statuses"

lemma ex_list:
  "list_pods ex_R (ex_wf p m) (ex_sys aw pods) = (Inr (filter (\<lambda>q. pod_Namespace q = ''ns''
     \<and> fmlookup (pod_Labels q) ''adaptive-workflow'' = Some ''wf'') pods), ex_sys aw pods)"
  by (simp add: list_pods_def k_ListPodsByOwner_def k_ListPodsByLabel_def mem_client_def ex_sys_def
      move_def ex_meta_def)

lemma ex_get: "k_GetWorkflow mem_client ''ns'' ''wf'' (ex_sys (ex_wf p m) pods)
    = (Inr (ex_wf p m), ex_sys (ex_wf p m) pods)"
  by (simp add: k_GetWorkflow_def mem_client_def mem_Get_def ex_sys_def move_def ex_meta_def)

lemma ex_finalizer: "ensure_finalizer ex_R (ex_wf p m) s = (Inr (ex_wf p m), s)"
  by (simp add: ensure_finalizer_def mem_client_def ex_meta_def)

end
