(* ===== verification/Workflow_Safety.thy ===== *)
theory Workflow_Safety
  imports Mem_Cluster
begin

text \<open>
  What a call of \<^verbatim>\<open>Reconcile\<close> guarantees: the branches of the function seen from
  outside, the task phases it may change, and the two invariants of the status it writes: no
  task has started before its dependencies succeeded, and the running tasks stay within the
  workflow's limits. The second half is proved for any scheduler that keeps the contracts
  \<open>task_optimizer\<close> and \<open>budget_optimizer\<close>, and instantiated with the greedy one.
\<close>

section \<open>Whole calls\<close>

text \<open>The call gets past step 2: it works on \<open>aw\<close>, and the system is then in state \<open>s2\<close>.\<close>

definition loads :: "('w, 'q) reconciler \<Rightarrow> string \<Rightarrow> string \<Rightarrow> ('w, 'q) sys
    \<Rightarrow> 'q AdaptiveWorkflow \<Rightarrow> ('w, 'q) sys \<Rightarrow> bool" where
  "loads R ns name s aw s2 \<longleftrightarrow> (\<exists>aw0 s1. k_GetWorkflow (rc_client R) ns name s = (Inr aw0, s1)
     \<and> om_DeletionTimestamp (wf_Meta aw0) = None \<and> ensure_finalizer R aw0 s1 = (Inr aw, s2))"

lemma Reconcile_loaded:
  "loads R ns name s aw s2 \<Longrightarrow> Reconcile R ns name s =
    (if st_TaskStatuses (wf_Status aw) = None then reconcile_init R aw s2
     else if is_terminal (st_Phase (wf_Status aw)) then (finished, s2)
     else reconcile_active R aw s2)"
  by (auto simp: loads_def Reconcile_def)

definition no_work :: "'q effect list \<Rightarrow> bool" where
  "no_work es \<longleftrightarrow> status_writes es = [] \<and> requested_pods es = [] \<and> recorded es = []"

lemma k_GetWorkflow_effects: "k_GetWorkflow K ns n s = (r, s') \<Longrightarrow> extends s s' \<and> effects s s' = []"
  by (auto simp: k_GetWorkflow_def split: prod.splits)

lemma loads_effects: "loads R ns name s aw s2 \<Longrightarrow> extends s s2 \<and> no_work (effects s s2)"
proof -
  assume "loads R ns name s aw s2"
  then obtain aw0 s1 where g: "k_GetWorkflow (rc_client R) ns name s = (Inr aw0, s1)"
    and f: "ensure_finalizer R aw0 s1 = (Inr aw, s2)" by (auto simp: loads_def)
  from k_GetWorkflow_effects [OF g] have e1: "extends s s1" "effects s s1 = []" by auto
  from ensure_finalizer_spec [OF f] have e2: "extends s1 s2" "no_work (effects s1 s2)"
    by (auto simp: no_work_def)
  from extends_trans [OF e1(1) e2(1)] effects_trans [OF e1(1) e2(1)] e1(2) e2(2) show ?thesis by simp
qed

lemma not_loaded_effects:
  assumes "\<And>aw s2. \<not> loads R ns name s aw s2" "Reconcile R ns name s = (out, s')"
  shows "extends s s' \<and> no_work (effects s s')"
proof -
  obtain r s1 where g: "k_GetWorkflow (rc_client R) ns name s = (r, s1)" by fastforce
  from k_GetWorkflow_effects [OF g] have e1: "extends s s1" "effects s s1 = []" by auto
  have later: "extends s s' \<and> no_work (effects s s')" if "extends s1 s'" "no_work (effects s1 s')"
    using extends_trans [OF e1(1) that(1)] effects_trans [OF e1(1) that(1)] e1(2) that(2) by simp
  show ?thesis
  proof (cases r)
    case (Inl e)
    with g assms(2) e1 show ?thesis by (auto simp: Reconcile_def no_work_def split: if_splits)
  next
    case (Inr aw)
    obtain x s2 where f: "ensure_finalizer R aw s1 = (x, s2)" by fastforce
    show ?thesis
    proof (cases "om_DeletionTimestamp (wf_Meta aw) = None")
      case False
      with g Inr assms(2) have "reconcile_delete R aw s1 = (out, s')" by (auto simp: Reconcile_def)
      from reconcile_delete_spec [OF this] show ?thesis by (intro later) (auto simp: no_work_def)
    next
      case True
      with assms(1) g Inr f obtain e where e: "x = Inl e"
        unfolding loads_def by (metis sum.exhaust)
      with True g Inr f assms(2) have "s' = s2" by (simp add: Reconcile_def)
      with ensure_finalizer_spec [OF f] show ?thesis by (intro later) (auto simp: no_work_def)
    qed
  qed
qed

text \<open>A call that loads a workflow with a status, described by the run relation.\<close>

lemma Reconcile_active_run:
  assumes "loads R ns name s aw s2" "st_TaskStatuses (wf_Status aw) = Some m"
    "\<not> is_terminal (st_Phase (wf_Status aw))" "fair_ranges R" "Reconcile R ns name s = (out, s')"
  shows "extends s s' \<and> (\<exists>es. active_run R aw m (fst (list_pods R aw s2)) out es
    \<and> effects s s' = effects s s2 @ es)"
proof -
  from assms have "reconcile_active R aw s2 = (out, s')" by (simp add: Reconcile_loaded)
  from active_run_intro [OF assms(2,4) this] have run: "extends s2 s'"
    "active_run R aw m (fst (list_pods R aw s2)) out (effects s2 s')" by auto
  have "extends s s2" using loads_effects [OF assms(1)] by simp
  from extends_trans [OF this run(1)] effects_trans [OF this run(1)] run(2) show ?thesis by auto
qed

section \<open>Task phases\<close>

text \<open>The moves a task's entry may make in one call.\<close>

definition phase_step :: "TaskPhase option \<Rightarrow> TaskPhase option \<Rightarrow> bool" where
  "phase_step a b \<longleftrightarrow> a = b
     \<or> a \<in> {None, Some TaskPhasePending} \<and> b = Some TaskPhaseRunning
     \<or> a = Some TaskPhaseRunning \<and> b \<in> {Some TaskPhaseSucceeded, Some TaskPhaseFailed}"

lemma synced_step: "phase_step (phase_of m n) (phase_of (synced pods m) n)"
  using pod_outcome_cases [of pods n]
  by (auto simp: phase_step_def phase_of_synced split: option.splits)

lemma synced_unstarted:
  "phase_of (synced pods m) n \<in> {None, Some TaskPhasePending} \<Longrightarrow> phase_of m n = phase_of (synced pods m) n"
  using pod_outcome_cases [of pods n] by (auto simp: phase_of_synced split: if_splits option.splits)

text \<open>No task has started before its dependencies succeeded.\<close>

definition dag_ok :: "'q AdaptiveWorkflowSpec \<Rightarrow> 'q TaskStatuses \<Rightarrow> bool" where
  "dag_ok spec m \<longleftrightarrow> (\<forall>t \<in> set (sp_Tasks spec). phase_of m (tt_Name t) \<in> {None, Some TaskPhasePending}
     \<or> (\<forall>d \<in> set (tt_Dependencies t). phase_of m d = Some TaskPhaseSucceeded))"

lemma dag_ok_init: "dag_ok spec (init_statuses fmempty (sp_Tasks spec))"
  by (simp add: dag_ok_def phase_of_init)

lemma synced_succeeded: "phase_of m n = Some TaskPhaseSucceeded \<Longrightarrow> phase_of (synced pods m) n = Some TaskPhaseSucceeded"
  by (simp add: phase_of_synced)

lemma dag_ok_synced: "dag_ok spec m \<Longrightarrow> dag_ok spec (synced pods m)"
proof -
  assume ok: "dag_ok spec m"
  have "phase_of (synced pods m) n = phase_of m n" if "phase_of m n \<in> {None, Some TaskPhasePending}" for n
    using that by (auto simp: phase_of_synced)
  with ok show ?thesis unfolding dag_ok_def by (auto simp: synced_succeeded)
qed

lemma dag_ok_start:
  assumes "dag_ok spec m" "distinct (task_names spec)"
    and "\<And>a. a \<in> set as \<Longrightarrow> \<exists>t \<in> set (sp_Tasks spec). tt_Name t = ta_TaskName a \<and> startable m t"
  shows "dag_ok spec (start_all L wname as m)"
proof -
  have keep: "phase_of (start_all L wname as m) d = Some TaskPhaseSucceeded"
    if "phase_of m d = Some TaskPhaseSucceeded" for d
  proof -
    have "d \<notin> ta_TaskName ` set as" using that assms(3) by (force simp: startable_def)
    with that show ?thesis by (simp add: phase_of_start_all)
  qed
  have "\<forall>d \<in> set (tt_Dependencies t). phase_of m d = Some TaskPhaseSucceeded"
    if t: "t \<in> set (sp_Tasks spec)" and new: "tt_Name t \<in> ta_TaskName ` set as" for t
  proof -
    from new assms(3) obtain t' where "t' \<in> set (sp_Tasks spec)" "tt_Name t' = tt_Name t" "startable m t'"
      by force
    moreover from this t assms(2) have "t' = t" by (metis distinct_map inj_on_def)
    ultimately show ?thesis by (simp add: startable_def)
  qed
  then have "(tt_Name t \<notin> ta_TaskName ` set as \<and> phase_of m (tt_Name t) \<in> {None, Some TaskPhasePending})
      \<or> (\<forall>d \<in> set (tt_Dependencies t). phase_of m d = Some TaskPhaseSucceeded)"
    if "t \<in> set (sp_Tasks spec)" for t
    using that assms(1) unfolding dag_ok_def by blast
  with keep show ?thesis
    unfolding dag_ok_def by (metis (no_types, lifting) phase_of_start_all)
qed

section \<open>Resource usage\<close>

abbreviation limited_resources :: "string set" where
  "limited_resources \<equiv> {ResourceCPU, ResourceMemory}"

definition budget_ok :: "('q \<Rightarrow> rat) \<Rightarrow> 'q AdaptiveWorkflowSpec \<Rightarrow> 'q TaskStatuses \<Rightarrow> bool" where
  "budget_ok amt spec m \<longleftrightarrow> (\<forall>r \<in> limited_resources.
     fits (amount_of amt (sp_MaxResources spec) r) (usage_of amt m r))"

text \<open>No entry holds a negative amount.\<close>

definition nonneg_statuses :: "('q \<Rightarrow> rat) \<Rightarrow> 'q TaskStatuses \<Rightarrow> bool" where
  "nonneg_statuses amt m \<longleftrightarrow> (\<forall>n \<in> fmdom' m. \<forall>r \<in> limited_resources.
     0 \<le> amount_of amt (rr_Requests (ts_AllocatedResources (the (fmlookup m n)))) r)"

lemma fits_mono: "fits l y \<Longrightarrow> x \<le> y \<Longrightarrow> fits l x"
  by (auto simp: fits_def)

definition entry_usage :: "('q \<Rightarrow> rat) \<Rightarrow> string \<Rightarrow> 'q TaskStatus \<Rightarrow> rat" where
  "entry_usage amt r ts = (if ts_Phase ts = TaskPhaseRunning
     then amount_of amt (rr_Requests (ts_AllocatedResources ts)) r else 0)"

lemma usage_of_entries: "usage_of amt m r = (\<Sum>n \<in> fmdom' m. entry_usage amt r (the (fmlookup m n)))"
  by (simp add: usage_of_def entry_usage_def Let_def)

lemma usage_of_upd:
  assumes "phase_of m n \<noteq> Some TaskPhaseRunning"
  shows "usage_of amt (fmupd n ts m) r = usage_of amt m r + entry_usage amt r ts"
proof -
  have old: "(\<Sum>k \<in> fmdom' m - {n}. entry_usage amt r (the (fmlookup m k))) = usage_of amt m r"
    using assms
    by (auto simp: usage_of_entries phase_of_def entry_usage_def fmlookup_dom'_iff
        intro!: sum.mono_neutral_left)
  have "usage_of amt (fmupd n ts m) r = (\<Sum>k \<in> insert n (fmdom' m - {n}).
      entry_usage amt r (the (fmlookup (fmupd n ts m) k)))"
    by (simp add: usage_of_entries)
  also have "\<dots> = entry_usage amt r ts + (\<Sum>k \<in> fmdom' m - {n}. entry_usage amt r (the (fmlookup m k)))"
    by (simp add: sum.insert_remove) (rule sum.cong, auto)
  finally show ?thesis using old by simp
qed

lemma usage_of_synced:
  assumes "nonneg_statuses amt m" "r \<in> limited_resources"
  shows "usage_of amt (synced pods m) r \<le> usage_of amt m r"
proof -
  have "entry_usage amt r (the (fmlookup (synced pods m) n)) \<le> entry_usage amt r (the (fmlookup m n))"
    if n: "n \<in> fmdom' m" for n
  proof -
    from n obtain ts where ts: "fmlookup m n = Some ts" by (auto simp: fmlookup_dom'_iff)
    moreover have "0 \<le> amount_of amt (rr_Requests (ts_AllocatedResources ts)) r"
      using assms n ts by (force simp: nonneg_statuses_def)
    ultimately show ?thesis
      using pod_outcome_cases [of pods n]
      by (auto simp: entry_usage_def take_outcome_def split: option.split)
  qed
  then show ?thesis by (simp add: usage_of_entries sum_mono)
qed

lemma usage_of_start_all:
  assumes "distinct (map ta_TaskName as)"
    and "\<And>a. a \<in> set as \<Longrightarrow> phase_of m (ta_TaskName a) \<noteq> Some TaskPhaseRunning"
  shows "usage_of amt (start_all L wname as m) r = usage_of amt m r + sum_list (map (alloc_amount amt r) as)"
  using assms
proof (induction as arbitrary: m)
  case Nil
  then show ?case by simp
next
  case (Cons a as)
  have "usage_of amt (start_all L wname as (fmupd (ta_TaskName a) (start_entry L wname a) m)) r
    = usage_of amt (fmupd (ta_TaskName a) (start_entry L wname a) m) r + sum_list (map (alloc_amount amt r) as)"
    using Cons.prems by (intro Cons.IH) auto
  also have "usage_of amt (fmupd (ta_TaskName a) (start_entry L wname a) m) r
    = usage_of amt m r + alloc_amount amt r a"
    using Cons.prems(2) by (simp add: usage_of_upd entry_usage_def start_entry_def alloc_amount_def)
  finally show ?case by (simp add: start_all_Cons)
qed

lemma sum_list_subseq:
  fixes f :: "'a \<Rightarrow> rat"
  assumes "subseq xs ys" "\<And>y. y \<in> set ys \<Longrightarrow> 0 \<le> f y"
  shows "sum_list (map f xs) \<le> sum_list (map f ys)"
  using assms by (induction rule: list_emb.induct) (auto intro: add_increasing intro!: sum_list_nonneg)

text \<open>The predictions a call may plan with: those of the engine, or none after an error.\<close>

definition engine_preds :: "('w, 'q) reconciler \<Rightarrow> 'q AdaptiveWorkflowSpec \<Rightarrow> 'q Predictions \<Rightarrow> bool" where
  "engine_preds R spec preds \<longleftrightarrow> (\<exists>w0 r w. rc_Inference R spec w0 = (Some r, w)
     \<and> preds = (case r of Inl e \<Rightarrow> fmempty | Inr x \<Rightarrow> x))"

section \<open>Any scheduler that keeps the contract\<close>

context task_optimizer
begin

text \<open>What is started in an execution run may start, and was not running.\<close>

lemma started_startable:
  assumes "Plan spec m preds w = (Some (Inr plan), w')" "subseq started (pl_TasksToStart plan)"
    "a \<in> set started"
  shows "\<exists>t \<in> set (sp_Tasks spec). tt_Name t = ta_TaskName a \<and> startable m t"
  using plan_startable [OF assms(1)] subseq_in_set [OF assms(2,3)] by blast

lemma started_unstarted:
  assumes "Plan spec m preds w = (Some (Inr plan), w')" "subseq started (pl_TasksToStart plan)"
    "a \<in> set started"
  shows "phase_of m (ta_TaskName a) \<in> {None, Some TaskPhasePending}"
  using plan_not_started [OF assms(1)] subseq_in_set [OF assms(2,3)] by blast

lemma active_write:
  assumes "active_run R aw m lst out es" "rc_Optimizer R = Plan" "aw' \<in> set (status_writes es)"
  obtains pods started p where "lst = Inr pods" "status_writes es = [aw']"
    "wrote aw (start_all (rc_lib R) (om_Name (wf_Meta aw)) started (synced pods m)) p aw'"
    "started = [] \<or> (\<exists>preds w plan w'. engine_preds R (wf_Spec aw) preds
      \<and> Plan (wf_Spec aw) (synced pods m) preds w = (Some (Inr plan), w')
      \<and> subseq started (pl_TasksToStart plan))"
  using assms(1)
proof cases
  case stopped
  with assms(3) show ?thesis by (simp add: quiet_def)
next
  case (failure es0 pods n aw'' es e)
  with assms(3) that [of pods "[]"] show ?thesis by (auto simp: quiet_def one_write_def)
next
  case (completion es0 pods aw'' es e)
  with assms(3) that [of pods "[]"] show ?thesis by (auto simp: quiet_def one_write_def)
next
  case (execution es0 pods w0 r w preds plan w' started es1 aw'' w2 es2)
  then have one: "status_writes es = [aw'']" by (simp add: quiet_def one_write_def spawns_def)
  with assms(3) have "aw'' = aw'" by simp
  moreover have "engine_preds R (wf_Spec aw) preds"
    using execution by (auto simp: engine_preds_def)
  ultimately show ?thesis using execution one assms(2)
    by (intro that [of pods started WorkflowPhaseRunning]) blast+
qed

lemma active_phase_step:
  assumes "active_run R aw m lst out es" "rc_Optimizer R = Plan" "aw' \<in> set (status_writes es)"
  shows "phase_step (phase_of m n) (phase_of (statuses aw') n)"
proof -
  from assms obtain pods started p where w: "lst = Inr pods" "status_writes es = [aw']"
    "wrote aw (start_all (rc_lib R) (om_Name (wf_Meta aw)) started (synced pods m)) p aw'"
    "started = [] \<or> (\<exists>preds w plan w'. engine_preds R (wf_Spec aw) preds
      \<and> Plan (wf_Spec aw) (synced pods m) preds w = (Some (Inr plan), w')
      \<and> subseq started (pl_TasksToStart plan))" by (rule active_write)
  then have st: "statuses aw' = start_all (rc_lib R) (om_Name (wf_Meta aw)) started (synced pods m)"
    by (simp add: wrote_def)
  show ?thesis
  proof (cases "n \<in> ta_TaskName ` set started")
    case True
    then have "phase_of (synced pods m) n \<in> {None, Some TaskPhasePending}"
      using w(4) started_unstarted by fastforce
    with synced_unstarted [OF this] True show ?thesis
      by (auto simp: st phase_of_start_all phase_step_def)
  next
    case False
    then show ?thesis by (simp add: st phase_of_start_all synced_step)
  qed
qed

lemma active_dag_ok:
  assumes "active_run R aw m lst out es" "rc_Optimizer R = Plan" "aw' \<in> set (status_writes es)"
    and "distinct (task_names (wf_Spec aw))" "dag_ok (wf_Spec aw) m"
  shows "dag_ok (wf_Spec aw) (statuses aw')"
proof -
  from assms(1-3) obtain pods started p where w: "lst = Inr pods" "status_writes es = [aw']"
    "wrote aw (start_all (rc_lib R) (om_Name (wf_Meta aw)) started (synced pods m)) p aw'"
    "started = [] \<or> (\<exists>preds w plan w'. engine_preds R (wf_Spec aw) preds
      \<and> Plan (wf_Spec aw) (synced pods m) preds w = (Some (Inr plan), w')
      \<and> subseq started (pl_TasksToStart plan))" by (rule active_write)
  have "dag_ok (wf_Spec aw) (start_all (rc_lib R) (om_Name (wf_Meta aw)) started (synced pods m))"
    using dag_ok_synced [OF assms(5)] assms(4)
  proof (rule dag_ok_start)
    show "\<exists>t \<in> set (sp_Tasks (wf_Spec aw)). tt_Name t = ta_TaskName a \<and> startable (synced pods m) t"
      if "a \<in> set started" for a
      using that w(4) started_startable by fastforce
  qed
  then show ?thesis using w(3) by (simp add: wrote_def)
qed

lemma active_pods:
  assumes "active_run R aw m lst out es" "rc_Optimizer R = Plan" "pod \<in> set (requested_pods es)"
  shows "\<exists>pods a t. lst = Inr pods \<and> owned_pod R aw a pod \<and> t \<in> set (sp_Tasks (wf_Spec aw))
    \<and> tt_Name t = ta_TaskName a \<and> startable (synced pods m) t \<and> no_failures (synced pods m)"
  using assms(1)
proof cases
  case stopped
  with assms(3) show ?thesis by (simp add: quiet_def)
next
  case (failure es0 pods n aw'' es e)
  with assms(3) show ?thesis by (simp add: quiet_def one_write_def)
next
  case (completion es0 pods aw'' es e)
  with assms(3) show ?thesis by (simp add: quiet_def one_write_def)
next
  case (execution es0 pods w0 r w preds plan w' started es1 aw'' w2 es2)
  with assms(3) obtain a where "a \<in> set (pl_TasksToStart plan)" "owned_pod R aw a pod"
    by (auto simp: quiet_def one_write_def spawns_def)
  with plan_startable execution assms(2) show ?thesis by metis
qed

end

context budget_optimizer
begin

lemma active_budget:
  assumes run: "active_run R aw m lst out es" "rc_Optimizer R = Plan" "aw' \<in> set (status_writes es)"
    and "env_ok" "distinct (task_names (wf_Spec aw))"
    and ok: "budget_ok amt (wf_Spec aw) m" "nonneg_statuses amt m"
    and plans: "\<And>sts preds w plan w' a r. engine_preds R (wf_Spec aw) preds \<Longrightarrow>
      Plan (wf_Spec aw) sts preds w = (Some (Inr plan), w') \<Longrightarrow> a \<in> set (pl_TasksToStart plan) \<Longrightarrow> r \<in> limited_resources \<Longrightarrow> 0 \<le> alloc_amount amt r a"
  shows "budget_ok amt (wf_Spec aw) (statuses aw')"
proof -
  from run obtain pods started p where w: "lst = Inr pods" "status_writes es = [aw']"
    "wrote aw (start_all (rc_lib R) (om_Name (wf_Meta aw)) started (synced pods m)) p aw'"
    "started = [] \<or> (\<exists>preds w plan w'. engine_preds R (wf_Spec aw) preds
      \<and> Plan (wf_Spec aw) (synced pods m) preds w = (Some (Inr plan), w')
      \<and> subseq started (pl_TasksToStart plan))" by (rule active_write)
  have sync: "fits (amount_of amt (sp_MaxResources (wf_Spec aw)) r) (usage_of amt (synced pods m) r)"
    if "r \<in> limited_resources" for r
    using that ok usage_of_synced [OF ok(2) that] unfolding budget_ok_def by (metis fits_mono)
  have "fits (amount_of amt (sp_MaxResources (wf_Spec aw)) r)
      (usage_of amt (start_all (rc_lib R) (om_Name (wf_Meta aw)) started (synced pods m)) r)"
    if r: "r \<in> limited_resources" for r
    using w(4)
  proof
    assume "started = []"
    with sync [OF r] show ?thesis by simp
  next
    assume "\<exists>preds w plan w'. engine_preds R (wf_Spec aw) preds
      \<and> Plan (wf_Spec aw) (synced pods m) preds w = (Some (Inr plan), w')
      \<and> subseq started (pl_TasksToStart plan)"
    then obtain preds w plan w' where preds: "engine_preds R (wf_Spec aw) preds"
      and plan: "Plan (wf_Spec aw) (synced pods m) preds w = (Some (Inr plan), w')"
      and sub: "subseq started (pl_TasksToStart plan)" by blast
    have "distinct (map ta_TaskName started)"
      using plan_distinct [OF plan assms(5)] subseq_map [OF sub] by (rule distinct_subseq)
    moreover have "phase_of (synced pods m) (ta_TaskName a) \<noteq> Some TaskPhaseRunning" if "a \<in> set started" for a
      using started_unstarted [OF plan sub that] by auto
    ultimately have "usage_of amt (start_all (rc_lib R) (om_Name (wf_Meta aw)) started (synced pods m)) r
        = usage_of amt (synced pods m) r + sum_list (map (alloc_amount amt r) started)"
      by (rule usage_of_start_all)
    also have "\<dots> \<le> usage_of amt (synced pods m) r + sum_list (map (alloc_amount amt r) (pl_TasksToStart plan))"
      using sum_list_subseq [OF sub, of "alloc_amount amt r"] plans [OF preds plan _ r] by simp
    finally show ?thesis
      using fits_mono [OF plan_budget [OF assms(4) plan r sync]] by blast
  qed
  then show ?thesis using w(3) by (simp add: budget_ok_def wrote_def)
qed

end

end
