(* ===== verification/Workflow_Properties.thy ===== *)
theory Workflow_Properties
  imports Workflow_Safety
begin

text \<open>
  The properties of the controller, one call of \<^verbatim>\<open>Reconcile\<close> or of a helper at a time, with
  their instances on the in-memory cluster.
\<close>

section \<open>The example\<close>

lemma ex_loads:
  "loads ex_R ''ns'' ''wf'' (ex_sys (ex_wf p m) pods) (ex_wf p m) (ex_sys (ex_wf p m) pods)"
  by (simp add: loads_def ex_get ex_finalizer) (simp add: ex_meta_def)

lemma ex_pod_label: "label_of (ex_pod n p) = n" "pod_Phase (ex_pod n p) = p"
  "pod_Namespace (ex_pod n p) = ''ns''" "fmlookup (pod_Labels (ex_pod n p)) ''adaptive-workflow'' = Some ''wf''"
  by (simp_all add: ex_pod_def label_of_def task_pod_def Let_def ex_meta_def)

lemma ex_distinct: "distinct (task_names ex_spec)"
  by (simp add: ex_spec_def ex_task_def)

lemma ex_not_terminal: "\<not> is_terminal WorkflowPhaseRunning" "\<not> is_terminal WorkflowPhasePending"
  by (simp_all add: is_terminal_def)

lemma ex_phases:
  "phase_of ex_statuses n = (if n \<in> {''a'', ''b'', ''c''} then Some TaskPhasePending else None)"
  "phase_of ex_running n = (if n = ''a'' then Some TaskPhaseRunning else phase_of ex_statuses n)"
  by (simp_all add: ex_running_def ex_statuses_def ex_status_def)

text \<open>A call on the example with task \<open>a\<close> running and its pod in a given phase.\<close>

abbreviation ex_start :: "string \<Rightarrow> (rat cluster, rat) sys" where
  "ex_start p \<equiv> ex_sys (ex_wf WorkflowPhaseRunning (Some ex_running)) [ex_pod ''a'' p]"

lemma ex_start_loads:
  "loads ex_R ''ns'' ''wf'' (ex_start p) (ex_wf WorkflowPhaseRunning (Some ex_running)) (ex_start p)"
  by (rule ex_loads)

lemma ex_start_list:
  "list_pods ex_R (ex_wf WorkflowPhaseRunning (Some ex_running)) (ex_start p) = (Inr [ex_pod ''a'' p], ex_start p)"
  by (simp add: ex_list ex_pod_label)

section \<open>The branches of a call\<close>

text \<open>
  C19. Initialisation. A call that loads a workflow without task statuses sends one status
  update, with every task of the specification pending and nothing else in the map, the
  workflow pending and the specification untouched. It asks for no pod. If the update is
  accepted it reports the event and asks to be called again at once, otherwise it returns the
  error.
\<close>

theorem reconcile_initialises:
  assumes "loads R ns name s aw s2" "st_TaskStatuses (wf_Status aw) = None"
    and "Reconcile R ns name s = (out, s')"
  shows "\<exists>aw' ok. effects s s' = effects s s2 @ StatusUpdated aw' ok # (if ok
        then [Emitted EventTypeNormal ''Initialized'' (''Workflow initialized with ''
          @ dec_int (int (length (sp_Tasks (wf_Spec aw)))) @ '' tasks'')] else [])
    \<and> wf_Spec aw' = wf_Spec aw \<and> st_Phase (wf_Status aw') = WorkflowPhasePending
    \<and> (\<forall>n. phase_of (statuses aw') n = (if n \<in> set (task_names (wf_Spec aw)) then Some TaskPhasePending else None))
    \<and> requested_pods (effects s s') = []
    \<and> (if ok then out = Some (empty_result \<lparr> cr_Requeue := True \<rparr>, None)
       else \<exists>e. out = failed (Wrapf ''failed to initialize status: '' e))"
proof -
  from assms have init: "reconcile_init R aw s2 = (out, s')" by (simp add: Reconcile_loaded)
  have e: "extends s s2" "no_work (effects s s2)" using loads_effects [OF assms(1)] by auto
  from reconcile_init_exact [OF init] obtain aw' ok where x: "extends s2 s'"
    "effects s2 s' = StatusUpdated aw' ok # (if ok
        then [Emitted EventTypeNormal ''Initialized'' (''Workflow initialized with ''
          @ dec_int (int (length (sp_Tasks (wf_Spec aw)))) @ '' tasks'')] else [])"
    "wrote aw (init_statuses fmempty (sp_Tasks (wf_Spec aw))) WorkflowPhasePending aw'"
    "if ok then out = Some (empty_result \<lparr> cr_Requeue := True \<rparr>, None)
       else \<exists>e. out = failed (Wrapf ''failed to initialize status: '' e)" by blast
  have "effects s s' = effects s s2 @ effects s2 s'" by (rule effects_trans [OF e(1) x(1)])
  moreover have "statuses aw' = init_statuses fmempty (sp_Tasks (wf_Spec aw))"
    using x(3) by (simp add: wrote_def)
  ultimately show ?thesis
    using x e(2) by (intro exI [of _ aw'] exI [of _ ok]) (auto simp: phase_of_init wrote_def no_work_def)
qed

theorem reconcile_initialises_witness:
  "\<exists>out s' aw'. Reconcile ex_R ''ns'' ''wf'' (ex_sys (ex_wf '''' None) []) = (out, s')
    \<and> aw' \<in> set (status_writes (effects (ex_sys (ex_wf '''' None) []) s'))
    \<and> phase_of (statuses aw') ''c'' = Some TaskPhasePending"
proof -
  obtain out s' where r: "Reconcile ex_R ''ns'' ''wf'' (ex_sys (ex_wf '''' None) []) = (out, s')"
    by fastforce
  have "''c'' \<in> set (task_names ex_spec)" by (simp add: ex_spec_def ex_task_def)
  with reconcile_initialises [OF ex_loads _ r] r show ?thesis by fastforce
qed

text \<open>
  A completed or failed workflow is left alone: the call does nothing after loading it, and
  does not ask to be called again.
\<close>

theorem reconcile_terminal:
  assumes "loads R ns name s aw s2" "st_TaskStatuses (wf_Status aw) \<noteq> None"
    and "is_terminal (st_Phase (wf_Status aw))"
  shows "Reconcile R ns name s = (Some (empty_result, None), s2)
    \<and> status_writes (effects s s2) = [] \<and> requested_pods (effects s s2) = []"
  using loads_effects [OF assms(1)] assms(2,3)
  by (auto simp: Reconcile_loaded [OF assms(1)] no_work_def)

theorem reconcile_terminal_witness:
  "fst (Reconcile ex_R ''ns'' ''wf'' (ex_sys (ex_wf WorkflowPhaseFailed (Some ex_statuses)) []))
    = Some (empty_result, None)"
  using reconcile_terminal [OF ex_loads [of WorkflowPhaseFailed "Some ex_statuses" "[]"]]
  by (simp add: is_terminal_def)

text \<open>
  C23. A workflow that is being deleted is never worked on: if the finalizer is there the call
  sends one update that removes it, and in no case does it write a status or ask for a pod.
\<close>

theorem reconcile_deletion:
  assumes "k_GetWorkflow (rc_client R) ns name s = (Inr aw, s1)"
    and "om_DeletionTimestamp (wf_Meta aw) \<noteq> None"
    and "Reconcile R ns name s = (out, s')"
  shows "\<exists>ok. effects s s' = (if cl_ContainsFinalizer (rc_client R) aw workflowFinalizer
      then [Updated (cl_RemoveFinalizer (rc_client R) aw workflowFinalizer) ok] else [])"
proof -
  have e1: "extends s s1" "effects s s1 = []" using k_GetWorkflow_effects [OF assms(1)] by auto
  from assms have d: "reconcile_delete R aw s1 = (out, s')" by (auto simp: Reconcile_def)
  have e2: "extends s1 s'" using reconcile_delete_spec [OF d] by simp
  have "effects s s' = effects s1 s'" using effects_trans [OF e1(1) e2] e1(2) by simp
  then show ?thesis
    using d by (auto simp: reconcile_delete_def k_Update_def split: prod.splits option.splits if_splits)
qed

definition ex_deleted :: "rat AdaptiveWorkflow" where
  "ex_deleted = (ex_wf WorkflowPhaseRunning (Some ex_statuses))
     \<lparr> wf_Meta := ex_meta \<lparr> om_DeletionTimestamp := Some 7 \<rparr> \<rparr>"

theorem reconcile_deletion_witness:
  "\<exists>out s'. Reconcile ex_R ''ns'' ''wf'' (ex_sys ex_deleted []) = (out, s')
    \<and> length (effects (ex_sys ex_deleted []) s') = 1 \<and> requested_pods (effects (ex_sys ex_deleted []) s') = []"
proof -
  obtain out s' where r: "Reconcile ex_R ''ns'' ''wf'' (ex_sys ex_deleted []) = (out, s')" by fastforce
  have g: "k_GetWorkflow (rc_client ex_R) ''ns'' ''wf'' (ex_sys ex_deleted []) = (Inr ex_deleted, ex_sys ex_deleted [])"
    by (simp add: k_GetWorkflow_def mem_client_def mem_Get_def ex_sys_def move_def ex_deleted_def ex_meta_def)
  have "cl_ContainsFinalizer mem_client ex_deleted workflowFinalizer"
    by (simp add: mem_client_def ex_deleted_def ex_meta_def)
  with reconcile_deletion [OF g _ r] r show ?thesis by (auto simp: ex_deleted_def)
qed

lemma active_decision:
  assumes "active_run R aw m lst out es" "lst = Inr pods" "aw' \<in> set (status_writes es)"
  shows "status_writes es = [aw'] \<and> st_Phase (wf_Status aw')
      = (if \<not> no_failures (synced pods m) then WorkflowPhaseFailed
         else if all_done (synced pods m) then WorkflowPhaseCompleted else WorkflowPhaseRunning)
    \<and> (st_Phase (wf_Status aw') \<noteq> WorkflowPhaseRunning \<longrightarrow> requested_pods es = [])
    \<and> (\<forall>res. out = Some (res, None) \<longrightarrow> \<not> cr_Requeue res \<and> cr_RequeueAfter res
        = (if st_Phase (wf_Status aw') = WorkflowPhaseRunning then requeueInterval else 0))"
  using assms(1)
proof cases
  case stopped
  with assms(3) show ?thesis by (simp add: quiet_def)
next
  case (failure es0 pods' n aw'' es1 e)
  with assms show ?thesis
    by (auto simp: quiet_def one_write_def no_failures_def wrote_def empty_result_def)
next
  case (completion es0 pods' aw'' es1 e)
  then have "no_failures (synced pods m)"
    using assms(2) by (force simp: all_done_def no_failures_def phase_of_def intro: fmdom'I)
  with completion assms show ?thesis
    by (auto simp: quiet_def one_write_def wrote_def empty_result_def)
next
  case (execution es0 pods' w0 r w preds plan w' started es1 aw'' w2 es2)
  with assms show ?thesis
    by (auto simp: quiet_def one_write_def wrote_def spawns_def empty_result_def)
qed

text \<open>
  C5. The decision of a call on an active workflow. What it writes, if it writes, is a single
  status update whose phase is a function of the task statuses after reading the pods back:
  failed if any task failed, completed if there are tasks and all succeeded, running
  otherwise. Pods are asked for only in the last case, and a call without error asks to be
  called again after the requeue interval exactly in that case.
\<close>

theorem reconcile_decision:
  assumes "loads R ns name s aw s2" "st_TaskStatuses (wf_Status aw) = Some m"
    "\<not> is_terminal (st_Phase (wf_Status aw))" "fair_ranges R" "Reconcile R ns name s = (out, s')"
    and "list_pods R aw s2 = (Inr pods, s3)" "aw' \<in> set (status_writes (effects s s'))"
  shows "status_writes (effects s s') = [aw'] \<and> st_Phase (wf_Status aw')
      = (if \<exists>n. phase_of (synced pods m) n = Some TaskPhaseFailed then WorkflowPhaseFailed
         else if synced pods m \<noteq> fmempty
           \<and> (\<forall>n \<in> fmdom' (synced pods m). phase_of (synced pods m) n = Some TaskPhaseSucceeded)
         then WorkflowPhaseCompleted else WorkflowPhaseRunning)
    \<and> (st_Phase (wf_Status aw') \<noteq> WorkflowPhaseRunning \<longrightarrow> requested_pods (effects s s') = [])
    \<and> (\<forall>res. out = Some (res, None) \<longrightarrow> \<not> cr_Requeue res \<and> cr_RequeueAfter res
        = (if st_Phase (wf_Status aw') = WorkflowPhaseRunning then requeueInterval else 0))"
proof -
  from Reconcile_active_run [OF assms(1-5)] assms(6) obtain es where
    run: "active_run R aw m (Inr pods) out es" and es: "effects s s' = effects s s2 @ es" by auto
  from loads_effects [OF assms(1)] have "no_work (effects s s2)" by simp
  then have eq: "status_writes (effects s s') = status_writes es" "requested_pods (effects s s') = requested_pods es"
    by (simp_all add: es no_work_def)
  with active_decision [OF run refl, of aw'] assms(7) show ?thesis
    unfolding eq no_failures_def all_done_def by auto
qed

definition ex_call :: "string \<Rightarrow> outcome \<times> (rat cluster, rat) sys" where
  "ex_call p = Reconcile ex_R ''ns'' ''wf'' (ex_start p)"

abbreviation ex_effects :: "string \<Rightarrow> rat effect list" where
  "ex_effects p \<equiv> effects (ex_start p) (snd (ex_call p))"

lemma ex_call_eq: "Reconcile ex_R ''ns'' ''wf'' (ex_start p) = (fst (ex_call p), snd (ex_call p))"
  by (simp add: ex_call_def)

lemma ex_active: "\<not> is_terminal (st_Phase (wf_Status (ex_wf WorkflowPhaseRunning m)))"
  by (simp add: ex_not_terminal)

lemma ex_wf_distinct: "distinct (task_names (wf_Spec (ex_wf p m)))"
  by (simp add: ex_distinct del: distinct_map)

lemmas ex_args = ex_start_loads ex_wf_simps(4) ex_active ex_R_simps(6) ex_call_eq

lemma ex_call_computed:
  "length (status_writes (ex_effects PodSucceeded)) = 1"
  "length (status_writes (ex_effects PodFailed)) = 1"
  "map pod_Name (requested_pods (ex_effects PodSucceeded)) = [''wf-b'']"
  by code_simp+

lemma ex_written:
  obtains aw' where "aw' \<in> set (status_writes (ex_effects PodSucceeded))"
  using ex_call_computed(1) by (cases "status_writes (ex_effects PodSucceeded)") auto

theorem reconcile_decision_witness:
  "\<exists>aw' \<in> set (status_writes (ex_effects PodFailed)). st_Phase (wf_Status aw') = WorkflowPhaseFailed"
proof -
  obtain aw' where aw': "aw' \<in> set (status_writes (ex_effects PodFailed))"
    using ex_call_computed(2) by (cases "status_writes (ex_effects PodFailed)") auto
  have "phase_of (synced [ex_pod ''a'' PodFailed] ex_running) ''a'' = Some TaskPhaseFailed"
    by (simp add: phase_of_synced ex_phases ex_pod_label)
  with reconcile_decision [OF ex_args ex_start_list aw'] aw' show ?thesis
    by (auto simp: ex_not_terminal)
qed

section \<open>Dependencies and phases\<close>



text \<open>
  C6. Task phases only move forward. With the greedy scheduler, an entry of the written status
  is as loaded, or went from pending (or absent) to running, or from running to succeeded or
  failed. So a finished task is never started again and nothing finishes without having run.
\<close>

theorem reconcile_phase_steps:
  assumes "loads R ns name s aw s2" "st_TaskStatuses (wf_Status aw) = Some m"
    "\<not> is_terminal (st_Phase (wf_Status aw))" "fair_ranges R" "Reconcile R ns name s = (out, s')"
    and "rc_Optimizer R = GreedyOptimizer L ord" "aw' \<in> set (status_writes (effects s s'))"
  shows "phase_of (statuses aw') n = phase_of m n
    \<or> phase_of m n \<in> {None, Some TaskPhasePending} \<and> phase_of (statuses aw') n = Some TaskPhaseRunning
    \<or> phase_of m n = Some TaskPhaseRunning
      \<and> phase_of (statuses aw') n \<in> {Some TaskPhaseSucceeded, Some TaskPhaseFailed}"
proof -
  from Reconcile_active_run [OF assms(1-5)] obtain es where
    run: "active_run R aw m (fst (list_pods R aw s2)) out es" and es: "effects s s' = effects s s2 @ es" by auto
  from loads_effects [OF assms(1)] assms(7) have "aw' \<in> set (status_writes es)"
    by (simp add: es no_work_def)
  from greedy.active_phase_step [OF run assms(6) this, of n] show ?thesis
    by (auto simp: phase_step_def)
qed

theorem reconcile_phase_steps_witness:
  "\<exists>aw' \<in> set (status_writes (ex_effects PodSucceeded)). phase_of (statuses aw') ''a'' \<noteq> Some TaskPhasePending"
proof -
  obtain aw' where aw': "aw' \<in> set (status_writes (ex_effects PodSucceeded))" by (rule ex_written)
  from reconcile_phase_steps [OF ex_args ex_R_simps(3) aw', where n = "''a''"] aw' show ?thesis
    by (intro bexI [OF _ aw']) (auto simp: ex_phases)
qed

text \<open>
  C2. The dependency invariant. If in the loaded status every task that is not pending has only
  succeeded dependencies, the same holds in the status a call with the greedy scheduler writes;
  the status of a new workflow has it.
\<close>

theorem reconcile_keeps_dependencies:
  assumes "loads R ns name s aw s2" "\<not> is_terminal (st_Phase (wf_Status aw))" "fair_ranges R"
    and "Reconcile R ns name s = (out, s')" "rc_Optimizer R = GreedyOptimizer L ord"
    and "distinct (task_names (wf_Spec aw))" "\<And>m. st_TaskStatuses (wf_Status aw) = Some m \<Longrightarrow> dag_ok (wf_Spec aw) m"
    and "aw' \<in> set (status_writes (effects s s'))"
  shows "dag_ok (wf_Spec aw) (statuses aw')"
proof (cases "st_TaskStatuses (wf_Status aw)")
  case None
  with assms have init: "reconcile_init R aw s2 = (out, s')" by (simp add: Reconcile_loaded)
  have e: "extends s s2" "no_work (effects s s2)" using loads_effects [OF assms(1)] by auto
  from reconcile_init_spec [OF init] e assms(8) show ?thesis
    by (auto simp: effects_trans [of s s2 s'] no_work_def one_write_def wrote_def dag_ok_init)
next
  case (Some m)
  from Reconcile_active_run [OF assms(1) Some assms(2-4)] obtain es where
    run: "active_run R aw m (fst (list_pods R aw s2)) out es" and es: "effects s s' = effects s s2 @ es" by auto
  from loads_effects [OF assms(1)] assms(8) have "aw' \<in> set (status_writes es)"
    by (simp add: es no_work_def)
  from greedy.active_dag_ok [OF run assms(5) this assms(6)] assms(7) Some show ?thesis by simp
qed

theorem reconcile_keeps_dependencies_witness:
  "\<exists>aw' \<in> set (status_writes (ex_effects PodSucceeded)). dag_ok ex_spec (statuses aw')"
proof -
  obtain aw' where aw': "aw' \<in> set (status_writes (ex_effects PodSucceeded))" by (rule ex_written)
  have "dag_ok ex_spec ex_running" by (simp add: dag_ok_def ex_phases ex_spec_def ex_task_def)
  with reconcile_keeps_dependencies [OF ex_start_loads ex_active ex_R_simps(6) ex_call_eq ex_R_simps(3)
      ex_wf_distinct _ aw'] aw' show ?thesis
    by (auto simp: ex_not_terminal ex_distinct)
qed

section \<open>Resources\<close>

text \<open>Requests are never negative: in the specification, and in predictions.\<close>

definition nonneg_requests :: "('q \<Rightarrow> rat) \<Rightarrow> 'q ResourceRequirements \<Rightarrow> bool" where
  "nonneg_requests amt rr \<longleftrightarrow> (\<forall>r \<in> limited_resources. 0 \<le> amount_of amt (rr_Requests rr) r)"

definition nonneg_engine :: "('q \<Rightarrow> rat) \<Rightarrow> ('w, 'q) reconciler \<Rightarrow> 'q AdaptiveWorkflowSpec \<Rightarrow> bool" where
  "nonneg_engine amt R spec \<longleftrightarrow> (\<forall>t \<in> set (sp_Tasks spec). nonneg_requests amt (tt_BaseResources t))
     \<and> (\<forall>preds n p. engine_preds R spec preds \<longrightarrow> fmlookup preds n = Some p \<longrightarrow>
          nonneg_requests amt (tp_EstimatedResources p))"

lemma default_nonneg:
  assumes "quantity_parses L amt" "resolveResources L t fmempty = Some res"
    "rr_Requests (tt_BaseResources t) = fmempty" "rr_Limits (tt_BaseResources t) = fmempty"
  shows "nonneg_requests amt res"
proof -
  have r: "int64_range 100" "int64_range 128" by (simp_all add: int64_range_def)
  obtain a b where "q_MustParse L ''100m'' = Some a" "0 \<le> amt a" "q_MustParse L ''128Mi'' = Some b" "0 \<le> amt b"
    using quantity_parses_milli [OF assms(1) r(1)] quantity_parses_Mi [OF assms(1) r(2)]
    unfolding default_texts [symmetric] by auto
  with assms(2-4) show ?thesis
    by (auto simp: resolveResources_def nonneg_requests_def amount_of_def split: Option.bind_splits)
qed

lemma resolve_nonneg:
  assumes "quantity_parses L amt" "nonneg_engine amt R spec" "engine_preds R spec preds"
    "t \<in> set (sp_Tasks spec)" "resolveResources L t preds = Some res"
  shows "nonneg_requests amt res"
proof (cases "fmlookup preds (tt_Name t)")
  case (Some p)
  with assms show ?thesis by (auto simp: resolveResources_def nonneg_engine_def)
next
  case None
  then have eq: "resolveResources L t fmempty = Some res" using assms(5) by (simp add: resolveResources_def)
  show ?thesis
  proof (cases "rr_Requests (tt_BaseResources t) = fmempty \<and> rr_Limits (tt_BaseResources t) = fmempty")
    case True
    with default_nonneg [OF assms(1) eq] show ?thesis by simp
  next
    case False
    with eq have "res = tt_BaseResources t" by (auto simp: resolveResources_def)
    with assms(2,4) show ?thesis by (simp add: nonneg_engine_def)
  qed
qed

lemma greedy_plan_nonneg:
  assumes "quantity_parses L amt" "nonneg_engine amt R spec" "engine_preds R spec preds"
    "GreedyOptimizer_Plan L ord spec sts preds = Some (Inr plan)" "a \<in> set (pl_TasksToStart plan)"
    "r \<in> limited_resources"
  shows "0 \<le> alloc_amount amt r a"
proof -
  from assms(4) obtain ts where ts: "subseq ts (filter (startable sts) (sp_Tasks spec))"
    "list_all2 (\<lambda>a t. resolveResources L t preds = Some (ta_Resources a)) (pl_TasksToStart plan) ts"
    by (rule greedy_shape)
  from assms(5) obtain i where "i < length (pl_TasksToStart plan)" "a = pl_TasksToStart plan ! i"
    by (auto simp: in_set_conv_nth)
  with ts(2) have t: "ts ! i \<in> set ts" "resolveResources L (ts ! i) preds = Some (ta_Resources a)"
    by (simp_all add: list_all2_conv_all_nth)
  from subseq_in_set [OF ts(1) t(1)] have "ts ! i \<in> set (sp_Tasks spec)" by simp
  from resolve_nonneg [OF assms(1-3) this t(2)] assms(6) show ?thesis
    by (auto simp: nonneg_requests_def alloc_amount_def)
qed

text \<open>
  C4. The budget invariant. If the running tasks of the loaded status are within the limits
  and no request is negative, then the running tasks of the status a call with the greedy
  scheduler writes are within the limits, also when some of the planned pods could not be
  created.
\<close>

theorem reconcile_keeps_budget:
  assumes "loads R ns name s aw s2" "st_TaskStatuses (wf_Status aw) = Some m"
    "\<not> is_terminal (st_Phase (wf_Status aw))" "fair_ranges R" "Reconcile R ns name s = (out, s')"
    and "rc_Optimizer R = GreedyOptimizer L ord" "distinct (task_names (wf_Spec aw))"
    and "aw' \<in> set (status_writes (effects s s'))"
    and "quantity_arith L amt" "quantity_parses L amt" "map_order ord"
    and "budget_ok amt (wf_Spec aw) m" "nonneg_statuses amt m" "nonneg_engine amt R (wf_Spec aw)"
  shows "budget_ok amt (wf_Spec aw) (statuses aw')"
proof -
  from Reconcile_active_run [OF assms(1-5)] obtain es where
    run: "active_run R aw m (fst (list_pods R aw s2)) out es" and es: "effects s s' = effects s s2 @ es" by auto
  from loads_effects [OF assms(1)] assms(8) have w: "aw' \<in> set (status_writes es)"
    by (simp add: es no_work_def)
  from assms(9-11) have env: "quantity_arith L amt \<and> quantity_parses L amt \<and> map_order ord" by simp
  have "0 \<le> alloc_amount amt r a"
    if "engine_preds R (wf_Spec aw) preds" "GreedyOptimizer L ord (wf_Spec aw) sts preds w = (Some (Inr plan), w')"
      "a \<in> set (pl_TasksToStart plan)" "r \<in> limited_resources" for sts preds w plan w' a r
  proof -
    from that(2) have "GreedyOptimizer_Plan L ord (wf_Spec aw) sts preds = Some (Inr plan)"
      by (simp add: GreedyOptimizer_def)
    from greedy_plan_nonneg [OF assms(10,14) that(1) this that(3,4)] show ?thesis .
  qed
  from greedy.active_budget [OF run assms(6) w env assms(7,12,13) this] show ?thesis .
qed

lemma ex_nonneg: "nonneg_engine (\<lambda>q. q) ex_R ex_spec" "nonneg_statuses (\<lambda>q. q) ex_running"
proof -
  have base: "nonneg_requests (\<lambda>q. q) (tt_BaseResources t)" if "t \<in> set (sp_Tasks ex_spec)" for t
    using that by (auto simp: ex_spec_def ex_task_def nonneg_requests_def amount_of_def)
  have "preds = baseline_loop fmempty (sp_Tasks ex_spec)" if "engine_preds ex_R ex_spec preds" for preds
    using that by (auto simp: engine_preds_def BaselineEngine_def BaselineEngine_Predict_def)
  moreover have "nonneg_requests (\<lambda>q. q) (tp_EstimatedResources p)"
    if "fmlookup (baseline_loop fmempty (sp_Tasks ex_spec)) n = Some p" for n p
    using that by (auto simp: ex_spec_def ex_task_def nonneg_requests_def amount_of_def split: if_splits)
  ultimately show "nonneg_engine (\<lambda>q. q) ex_R ex_spec" using base unfolding nonneg_engine_def by blast
  show "nonneg_statuses (\<lambda>q. q) ex_running"
    by (simp add: nonneg_statuses_def ex_running_def ex_statuses_def ex_status_def amount_of_def)
qed

lemma ex_budget: "budget_ok (\<lambda>q. q) ex_spec ex_running"
  by (simp add: budget_ok_def ex_max fits_def)
    (simp add: ex_running_def ex_statuses_def ex_status_def usage_of_def amount_of_def)

theorem reconcile_keeps_budget_witness:
  "\<exists>aw' \<in> set (status_writes (ex_effects PodSucceeded)). usage_of (\<lambda>q. q) (statuses aw') ResourceCPU \<le> 1"
proof -
  obtain aw' where aw': "aw' \<in> set (status_writes (ex_effects PodSucceeded))" by (rule ex_written)
  from reconcile_keeps_budget [OF ex_args ex_R_simps(3) ex_wf_distinct aw' rat_lib_arith rat_lib_parses
      map_order_sorted] ex_nonneg ex_budget
  have "budget_ok (\<lambda>q. q) ex_spec (statuses aw')" by simp
  then show ?thesis by (intro bexI [OF _ aw']) (simp add: budget_ok_def ex_max fits_def)
qed

text \<open>
  C18. The reported usage is right: the amounts of \<^verbatim>\<open>CurrentResourceUsage\<close> in a status written
  with the workflow running are the totals of what the running tasks of that status hold.
\<close>

theorem reconcile_reports_usage:
  assumes "loads R ns name s aw s2" "st_TaskStatuses (wf_Status aw) = Some m"
    "\<not> is_terminal (st_Phase (wf_Status aw))" "fair_ranges R" "Reconcile R ns name s = (out, s')"
    and "aw' \<in> set (status_writes (effects s s'))" "st_Phase (wf_Status aw') = WorkflowPhaseRunning"
    and "quantity_arith (rc_lib R) amt" "r \<in> {ResourceCPU, ResourceMemory}"
  shows "amount_of amt (st_CurrentResourceUsage (wf_Status aw')) r = usage_of amt (statuses aw') r"
proof -
  from Reconcile_active_run [OF assms(1-5)] obtain es where
    run: "active_run R aw m (fst (list_pods R aw s2)) out es" and es: "effects s s' = effects s s2 @ es" by auto
  from loads_effects [OF assms(1)] assms(6) have w: "aw' \<in> set (status_writes es)"
    by (simp add: es no_work_def)
  have ord: "map_order (rc_range R site w)" for site w using assms(4) by (simp add: fair_ranges_def)
  from run show ?thesis
  proof cases
    case (execution es0 pods w0 p w preds plan w' started es1 aw'' w2 es2)
    with w have "aw'' = aw'" by (simp add: quiet_def one_write_def spawns_def)
    with execution(11,12) computeResourceUsage_amount [OF assms(8) ord assms(9)] show ?thesis
      by (simp add: wrote_def)
  qed (use w assms(7) in \<open>auto simp: quiet_def one_write_def wrote_def\<close>)
qed

theorem reconcile_reports_usage_witness:
  "\<exists>aw' \<in> set (status_writes (ex_effects PodSucceeded)).
     amount_of (\<lambda>q. q) (st_CurrentResourceUsage (wf_Status aw')) ResourceCPU
       = usage_of (\<lambda>q. q) (statuses aw') ResourceCPU"
proof -
  obtain aw' where aw': "aw' \<in> set (status_writes (ex_effects PodSucceeded))" by (rule ex_written)
  have "list_all (\<lambda>a. st_Phase (wf_Status a) = WorkflowPhaseRunning) (status_writes (ex_effects PodSucceeded))"
    by code_simp
  with aw' have ph: "st_Phase (wf_Status aw') = WorkflowPhaseRunning" by (simp add: list_all_iff)
  have ar: "quantity_arith (rc_lib ex_R) (\<lambda>q. q)" by (simp add: rat_lib_arith)
  show ?thesis
    using reconcile_reports_usage [OF ex_args aw' ph ar, of ResourceCPU] by (intro bexI [OF _ aw']) simp
qed

end
