(* ===== verification/Controller_Properties.thy ===== *)
theory Controller_Properties
  imports Workflow_Properties
begin

text \<open>
  Properties of the controller's helpers: reading pods back, the execution history, pod
  creation and names, counting; and what a call does when a service it uses fails.
\<close>

section \<open>Reading the pods back\<close>

lemma pod_outcome_find:
  "pod_outcome pods n = (if n = '''' then None else map_option
     (\<lambda>p. if pod_Phase p = PodSucceeded then TaskPhaseSucceeded else TaskPhaseFailed)
     (find (\<lambda>p. label_of p = n \<and> pod_Phase p \<in> {PodSucceeded, PodFailed}) pods))"
  by (induction pods) auto

text \<open>
  C16. Reading the pods back. When the pods can be listed, the function returns without error,
  writes nothing and asks for no pod. It changes only the status map, and there only the phase
  of running tasks: such a task takes the outcome of the first finished pod that carries its
  name, if there is one.
\<close>

theorem sync_takes_outcomes:
  assumes "st_TaskStatuses (wf_Status aw) = Some m" "list_pods R aw s = (Inr pods, s0)"
  shows "\<exists>m' s1. syncPodsToStatus R aw s = ((None, set_statuses m' aw), s1)
    \<and> requested_pods (effects s s1) = [] \<and> status_writes (effects s s1) = [] \<and> object_writes (effects s s1) = []
    \<and> (\<forall>n. fmlookup m' n = (case fmlookup m n of None \<Rightarrow> None | Some ts \<Rightarrow>
        (if ts_Phase ts = TaskPhaseRunning \<and> n \<noteq> ''''
         then (case find (\<lambda>p. label_of p = n \<and> pod_Phase p \<in> {PodSucceeded, PodFailed}) pods of
             None \<Rightarrow> Some ts
           | Some p \<Rightarrow> Some (ts \<lparr> ts_Phase :=
               (if pod_Phase p = PodSucceeded then TaskPhaseSucceeded else TaskPhaseFailed) \<rparr>))
         else Some ts)))"
proof -
  obtain aw1 s1 where l: "sync_loop R pods aw s0 = (aw1, s1)" by fastforce
  with sync_loop_status [OF assms(1), of R pods s0] have aw1: "aw1 = set_statuses (synced pods m) aw" by simp
  have sync: "syncPodsToStatus R aw s = ((None, aw1), s1)" by (simp add: syncPodsToStatus_def assms(2) l)
  with assms(1) have "quiet (effects s s1)" by (rule sync_spec)
  moreover have "fmlookup (synced pods m) n = (case fmlookup m n of None \<Rightarrow> None | Some ts \<Rightarrow>
        (if ts_Phase ts = TaskPhaseRunning \<and> n \<noteq> ''''
         then (case find (\<lambda>p. label_of p = n \<and> pod_Phase p \<in> {PodSucceeded, PodFailed}) pods of
             None \<Rightarrow> Some ts
           | Some p \<Rightarrow> Some (ts \<lparr> ts_Phase :=
               (if pod_Phase p = PodSucceeded then TaskPhaseSucceeded else TaskPhaseFailed) \<rparr>))
         else Some ts))" for n
    by (auto simp: take_outcome_def pod_outcome_find split: option.split)
  ultimately show ?thesis using sync aw1 by (intro exI [of _ "synced pods m"] exI [of _ s1]) (simp add: quiet_def)
qed

theorem sync_takes_outcomes_witness:
  "\<exists>m' s1. syncPodsToStatus ex_R (ex_wf WorkflowPhaseRunning (Some ex_running)) (ex_start PodSucceeded)
      = ((None, set_statuses m' (ex_wf WorkflowPhaseRunning (Some ex_running))), s1)
    \<and> phase_of m' ''a'' = Some TaskPhaseSucceeded"
proof -
  have a: "fmlookup ex_running ''a'' = Some (ex_status TaskPhaseRunning)" by (simp add: ex_running_def)
  have "ts_Phase (ex_status TaskPhaseRunning) = TaskPhaseRunning" by (simp add: ex_status_def)
  then show ?thesis
    using sync_takes_outcomes [OF ex_wf_simps(4) ex_start_list [of PodSucceeded]]
    by (force simp: phase_of_def a ex_pod_label)
qed

text \<open>
  Every record in the history comes from a succeeded pod of the task it names, and holds what
  the task's status says was allocated.
\<close>

definition records_pod :: "('w, 'q) reconciler \<Rightarrow> 'q AdaptiveWorkflow \<Rightarrow> 'q TaskStatuses \<Rightarrow> 'q Pod list
    \<Rightarrow> TaskExecution \<Rightarrow> bool" where
  "records_pod R aw m pods x \<longleftrightarrow> (\<exists>ts pod now1 now2. fmlookup m (te_TaskName x) = Some ts \<and> pod \<in> set pods
     \<and> label_of pod = te_TaskName x \<and> pod_Phase pod = PodSucceeded
     \<and> x = pod_execution (rc_lib R) aw (te_TaskName x) ts pod now1 now2)"

lemma pod_execution_cong:
  "wf_Meta aw = wf_Meta aw' \<Longrightarrow> ts_AllocatedResources ts = ts_AllocatedResources ts' \<Longrightarrow>
    pod_execution L aw n ts pod t1 t2 = pod_execution L aw' n ts' pod t1 t2"
  by (simp add: pod_execution_def Let_def)

lemma pod_execution_name [simp]: "te_TaskName (pod_execution L aw n ts pod t1 t2) = n"
  by (simp add: pod_execution_def Let_def)

lemma pod_execution_fields:
  "te_WorkflowName (pod_execution L aw n ts pod t1 t2) = om_Name (wf_Meta aw)"
  "te_Succeeded (pod_execution L aw n ts pod t1 t2)"
  by (simp_all add: pod_execution_def Let_def)

lemma report_success_records:
  assumes "x \<in> set (recorded (effects s (report_success R aw n ts pod s)))"
  shows "\<exists>t1 t2. x = pod_execution (rc_lib R) aw n ts pod t1 t2"
  using assms
  by (auto simp: report_success_def k_Now_def k_RecordExecution_def effects_def
      split: option.splits prod.splits) blast

lemma sync_pod_records:
  assumes "st_TaskStatuses (wf_Status aw) = Some m"
    "x \<in> set (recorded (effects s (snd (sync_pod R pod aw s))))"
  shows "records_pod R aw m [pod] x"
proof -
  let ?n = "label_of pod"
  have ev: "recorded (effects s (report_success R aw' n ts pod (k_Event (rc_client R) aw' ty re msg s)))
    = recorded (effects (k_Event (rc_client R) aw' ty re msg s)
        (report_success R aw' n ts pod (k_Event (rc_client R) aw' ty re msg s)))" for aw' n ts ty re msg
    using effects_trans [OF k_Event_effects(1) [of s "rc_client R" aw' ty re msg]
        conjunct1 [OF report_success_effects [of "k_Event (rc_client R) aw' ty re msg s" R aw' n ts pod]]]
    by (simp add: k_Event_effects)
  from assms(2) sync_pod_effects [of s R pod aw] have fin: "?n \<noteq> ''''" "pod_Phase pod = PodSucceeded"
    "phase_of m ?n = Some TaskPhaseRunning"
    using assms(1) by (auto split: if_splits)
  then obtain ts where ts: "fmlookup m ?n = Some ts" "ts_Phase ts = TaskPhaseRunning"
    by (auto simp: phase_of_def)
  define aw' where "aw' = set_statuses (fmupd ?n (ts \<lparr> ts_Phase := TaskPhaseSucceeded \<rparr>) m) aw"
  define s1 where "s1 = k_Event (rc_client R) aw' EventTypeNormal ''TaskSucceeded''
    (''Task '' @ go_quote (rc_lib R) ?n @ '' completed successfully'') s"
  have "snd (sync_pod R pod aw s) = report_success R aw' ?n (ts \<lparr> ts_Phase := TaskPhaseSucceeded \<rparr>) pod s1"
    using fin ts assms(1) by (simp add: sync_pod_def Let_def label_of_def [symmetric] aw'_def s1_def)
  with assms(2) have "x \<in> set (recorded (effects s1 (report_success R aw' ?n
      (ts \<lparr> ts_Phase := TaskPhaseSucceeded \<rparr>) pod s1)))"
    by (simp add: s1_def ev)
  from report_success_records [OF this] obtain t1 t2 where
    "x = pod_execution (rc_lib R) aw' ?n (ts \<lparr> ts_Phase := TaskPhaseSucceeded \<rparr>) pod t1 t2" by blast
  moreover have "\<dots> = pod_execution (rc_lib R) aw ?n ts pod t1 t2"
    by (rule pod_execution_cong) (simp_all add: aw'_def)
  ultimately show ?thesis using ts(1) fin(2) unfolding records_pod_def by fastforce
qed

lemma sync_loop_records:
  assumes "st_TaskStatuses (wf_Status aw) = Some m"
    "x \<in> set (recorded (effects s (snd (sync_loop R pods aw s))))"
  shows "records_pod R aw m pods x"
  using assms
proof (induction pods arbitrary: aw m s)
  case Nil
  then show ?case by simp
next
  case (Cons pod pods)
  obtain aw1 s1 where step: "sync_pod R pod aw s = (aw1, s1)" by fastforce
  with sync_pod_status [OF Cons.prems(1), of R pod s]
  have aw1: "aw1 = set_statuses (synced [pod] m) aw" by simp
  then have st: "st_TaskStatuses (wf_Status aw1) = Some (synced [pod] m)" by simp
  have "extends s s1" using sync_pod_effects [of s R pod aw] step by simp
  then have "effects s (snd (sync_loop R pods aw1 s1)) = effects s s1 @ effects s1 (snd (sync_loop R pods aw1 s1))"
    using sync_loop_effects [OF st, of s1 R pods] by (intro effects_trans) auto
  with Cons.prems(2) step consider "x \<in> set (recorded (effects s s1))"
    | "x \<in> set (recorded (effects s1 (snd (sync_loop R pods aw1 s1))))" by auto
  then show ?case
  proof cases
    case 1
    with sync_pod_records [OF Cons.prems(1), of x s R pod] step show ?thesis
      by (auto simp: records_pod_def)
  next
    case 2
    from Cons.IH [OF st 2] obtain ts pod' t1 t2 where r: "fmlookup (synced [pod] m) (te_TaskName x) = Some ts"
      "pod' \<in> set pods" "label_of pod' = te_TaskName x" "pod_Phase pod' = PodSucceeded"
      "x = pod_execution (rc_lib R) aw1 (te_TaskName x) ts pod' t1 t2" unfolding records_pod_def by blast
    from r(1) obtain ts0 where ts0: "fmlookup m (te_TaskName x) = Some ts0"
      "ts_AllocatedResources ts = ts_AllocatedResources ts0"
      by (auto simp: take_outcome_def split: option.splits if_splits)
    have "pod_execution (rc_lib R) aw1 (te_TaskName x) ts pod' t1 t2
      = pod_execution (rc_lib R) aw (te_TaskName x) ts0 pod' t1 t2"
      by (rule pod_execution_cong) (simp_all add: aw1 ts0)
    with r ts0 show ?thesis unfolding records_pod_def by (metis list.set_intros(2))
  qed
qed

lemma sync_effects_split:
  assumes "st_TaskStatuses (wf_Status aw) = Some m" "list_pods R aw s = (Inr pods, s0)"
    "syncPodsToStatus R aw s = ((None, aw1), s1)"
  shows "effects s s1 = effects s0 (snd (sync_loop R pods aw s0))"
proof -
  have s1: "s1 = snd (sync_loop R pods aw s0)" using assms(2,3) by (auto simp: syncPodsToStatus_def split: prod.splits)
  have "extends s s0" "effects s s0 = []" using list_pods_effects [OF assms(2)] by auto
  with effects_trans [of s s0 s1] sync_loop_effects [OF assms(1), of s0 R pods] s1 show ?thesis by simp
qed


lemma ex_sync:
  "\<exists>s1. syncPodsToStatus ex_R (ex_wf WorkflowPhaseRunning (Some ex_running)) (ex_start PodSucceeded)
    = ((None, set_statuses (synced [ex_pod ''a'' PodSucceeded] ex_running) (ex_wf WorkflowPhaseRunning (Some ex_running))), s1)"
  using sync_loop_status [OF ex_wf_simps(4), of ex_R "[ex_pod ''a'' PodSucceeded]" WorkflowPhaseRunning ex_running
      "ex_start PodSucceeded"]
  by (auto simp: syncPodsToStatus_def ex_start_list split: prod.split)


section \<open>Failing services\<close>

lemma reconcile_execute_returns:
  assumes "\<And>spec w. fst (rc_Inference R spec w) \<noteq> None" "\<And>spec sts preds w. fst (rc_Optimizer R spec sts preds w) \<noteq> None"
    "st_TaskStatuses (wf_Status aw) = Some m"
  shows "fst (reconcile_execute R aw s) \<noteq> None"
proof -
  have fin: "fst (reconcile_finish R x s') \<noteq> None" for x s'
    by (auto simp: reconcile_finish_def Let_def k_UpdateStatus_def split: prod.split option.split)
  obtain p w1 where p: "rc_Inference R (wf_Spec aw) (sy_world s) = (Some p, w1)"
    using assms(1) [of "wf_Spec aw" "sy_world s"] by (metis fst_conv not_None_eq surj_pair)
  obtain q w2 where q: "rc_Optimizer R (wf_Spec aw) (statuses aw)
      (case p of Inl e \<Rightarrow> fmempty | Inr preds \<Rightarrow> preds) w1 = (Some q, w2)"
    using assms(2) [of "wf_Spec aw" "statuses aw" "case p of Inl e \<Rightarrow> fmempty | Inr preds \<Rightarrow> preds" w1]
    by (metis fst_conv not_None_eq surj_pair)
  have "st_TaskStatuses (wf_Status (set_phase WorkflowPhaseRunning aw)) = Some m" by (simp add: assms(3))
  from spawn_loop_spec [OF this] have sp: "\<exists>x s3. spawn_loop R as (set_phase WorkflowPhaseRunning aw) s' = (Some x, s3)" for as s'
    by blast
  show ?thesis
  proof (cases q)
    case (Inl e)
    with p q show ?thesis by (simp add: reconcile_execute_def Let_def)
  next
    case (Inr plan)
    obtain x s3 where "spawn_loop R (pl_TasksToStart plan) (set_phase WorkflowPhaseRunning aw) (move w2 s) = (Some x, s3)"
      using sp by blast
    with p q Inr fin show ?thesis by (simp add: reconcile_execute_def Let_def)
  qed
qed

lemma Reconcile_returns:
  assumes "\<And>spec w. fst (rc_Inference R spec w) \<noteq> None" "\<And>spec sts preds w. fst (rc_Optimizer R spec sts preds w) \<noteq> None"
  shows "fst (Reconcile R ns name s) \<noteq> None"
proof -
  have writes: "fst (reconcile_init R aw s') \<noteq> None" "fst (reconcile_failed R n aw s') \<noteq> None"
    "fst (reconcile_completed R aw s') \<noteq> None" "fst (reconcile_delete R aw s') \<noteq> None" for aw n s'
    by (auto simp: reconcile_init_def reconcile_failed_def reconcile_completed_def reconcile_delete_def
        Let_def k_UpdateStatus_def k_Update_def split: prod.split option.split)
  have act: "fst (reconcile_active R aw s') \<noteq> None" if st: "st_TaskStatuses (wf_Status aw) = Some m" for aw m s'
  proof -
    obtain e aw1 s1 where sy: "syncPodsToStatus R aw s' = ((e, aw1), s1)" by (metis surj_pair)
    show ?thesis
    proof (cases e)
      case (Some err)
      with sy show ?thesis by (simp add: reconcile_active_def)
    next
      case None
      with sy have "syncPodsToStatus R aw s' = ((None, aw1), s1)" by simp
      with st obtain pods where "aw1 = set_statuses (synced pods m) aw" by (rule sync_spec)
      then have "st_TaskStatuses (wf_Status aw1) = Some (synced pods m)" by simp
      from reconcile_execute_returns [OF assms this] sy None writes show ?thesis
        by (simp add: reconcile_active_def split: option.split)
    qed
  qed
  show ?thesis
    using writes act
    by (auto simp: Reconcile_def split: prod.split sum.split option.split)
qed

text \<open>
  C20. No panic: with the in-process engine and scheduler, a call returns a result and an error
  value in every state of the cluster and however the cluster answers.
\<close>

theorem reconcile_never_panics:
  assumes "quantity_arith L amt" "quantity_parses L amt" "map_order ord"
    and "rc_Inference R = BaselineEngine" "rc_Optimizer R = GreedyOptimizer L ord"
  shows "\<exists>res err s'. Reconcile R ns name s = (Some (res, err), s')"
proof -
  have "fst (Reconcile R ns name s) \<noteq> None"
    by (rule Reconcile_returns)
      (simp_all add: assms(4,5) BaselineEngine_def GreedyOptimizer_def greedy_refines [OF assms(1-3)])
  then show ?thesis by (metis fst_conv not_None_eq surj_pair)
qed

theorem reconcile_never_panics_witness:
  "\<exists>res err s'. Reconcile ex_R ''ns'' ''wf'' (ex_start PodSucceeded) = (Some (res, err), s')"
  using reconcile_never_panics [OF rat_lib_laws(1,3) map_order_sorted, of ex_R] by simp



section \<open>Pods and names\<close>



text \<open>
  Within one workflow, pods of different tasks have different names as long as the task
  names are ASCII and differ in more than upper and lower case.
\<close>

theorem podName_injective:
  assumes "is_ascii wname" "is_ascii t" "is_ascii t'"
  shows "podName L wname t = podName L wname t' \<longleftrightarrow> map lower_ascii t = map lower_ascii t'"
  using assms by (simp add: podName_def go_ToLower_def is_ascii_def)

theorem podName_injective_witness:
  "podName rat_lib ''wf'' ''a'' \<noteq> podName rat_lib ''wf'' ''b''"
proof -
  have "is_ascii ''wf''" "is_ascii ''a''" "is_ascii ''b''" by (simp_all add: is_ascii_def)
  from podName_injective [OF this, of rat_lib] show ?thesis by (simp add: lower_ascii_def)
qed

text \<open>The workflow \<open>a\<close> with a task \<open>b-c\<close>, and the pod of task \<open>c\<close> of the workflow \<open>a-b\<close>.\<close>

definition ex_short :: "rat AdaptiveWorkflow" where
  "ex_short = (ex_wf WorkflowPhaseRunning (Some ex_statuses))
     \<lparr> wf_Meta := ex_meta \<lparr> om_Name := ''a'' \<rparr>, wf_Spec := ex_spec \<lparr> sp_Tasks := [ex_task ''b-c'' [] 1] \<rparr> \<rparr>"

definition ex_long :: "rat AdaptiveWorkflow" where
  "ex_long = ex_short \<lparr> wf_Meta := ex_meta \<lparr> om_Name := ''a-b'', om_UID := ''u2'' \<rparr> \<rparr>"

definition ex_alloc_of :: "string \<Rightarrow> rat TaskAllocation" where
  "ex_alloc_of n = \<lparr> ta_TaskName = n, ta_Resources = zero_resources \<rparr>"

definition ex_foreign :: "rat Pod" where
  "ex_foreign = (task_pod rat_lib ex_long (ex_task ''c'' [] 1) (ex_alloc_of ''c''))
     \<lparr> pod_Owners := [om_UID (wf_Meta ex_long)] \<rparr>"

text \<open>
  Across workflows pod names collide, since the separator may occur in names: the task
  \<open>b-c\<close> of workflow \<open>a\<close> and the task \<open>c\<close> of workflow \<open>a-b\<close> share a pod name. If the other
  workflow's pod exists, starting the task succeeds although no pod is created for it, and the
  pods the workflow lists do not contain the pod that stands for the task.
\<close>

theorem podName_collision:
  "podName L ''a'' ''b-c'' = podName L ''a-b'' ''c''
    \<and> fst (createTaskPod ex_R ex_short (ex_alloc_of ''b-c'') (ex_sys ex_short [ex_foreign])) = None
    \<and> effects (ex_sys ex_short [ex_foreign])
        (snd (createTaskPod ex_R ex_short (ex_alloc_of ''b-c'') (ex_sys ex_short [ex_foreign]))) = []
    \<and> fst (list_pods ex_R ex_short (ex_sys ex_short [ex_foreign])) = Inr []"
proof -
  have "fst (createTaskPod ex_R ex_short (ex_alloc_of ''b-c'') (ex_sys ex_short [ex_foreign])) = None"
    by code_simp
  moreover have "length (effects (ex_sys ex_short [ex_foreign])
      (snd (createTaskPod ex_R ex_short (ex_alloc_of ''b-c'') (ex_sys ex_short [ex_foreign])))) = 0"
    by code_simp
  moreover have "fst (list_pods ex_R ex_short (ex_sys ex_short [ex_foreign])) = Inr []"
    by code_simp
  ultimately show ?thesis by (simp add: podName_def)
qed

end
