(* ===== verification/Grpc.thy ===== *)
theory Grpc
  imports Inference
begin

text \<open>
  The gRPC side of the program: the messages of \<^verbatim>\<open>proto/gen/go\<close>, the clients of
  \<^verbatim>\<open>internal/grpcclient\<close> and the optimizer server of \<^verbatim>\<open>cmd/optimizer\<close>.

  Pointers to messages that the code compares to nil are options; the messages in maps and
  lists come off the wire and are never nil. The transport is a parameter: a function from
  request and world to a response or an error, which stands for the generated stub together
  with the thirty seconds it may take. Conversions can panic, in \<^verbatim>\<open>resource.MustParse\<close>.
\<close>

section \<open>Messages\<close>

record pb_ResourceHint =
  rh_CpuMillicores :: int64
  rh_MemoryMib :: int64

record pb_DAGTask =
  dt_Name :: string
  dt_Image :: string
  dt_Command :: "string list"
  dt_Dependencies :: "string list"
  dt_BaseResources :: "pb_ResourceHint option"

record pb_TaskStatus =
  ps_Phase :: string
  ps_PodName :: string
  ps_AllocatedCpuMillicores :: int64
  ps_AllocatedMemoryMib :: int64

record pb_TaskPrediction =
  pp_CpuMillicores :: int64
  pp_MemoryMib :: int64
  pp_EstimatedDurationS :: float64
  pp_Confidence :: float64

record pb_ResourceLimit =
  rm_CpuMillicores :: int64
  rm_MemoryMib :: int64

record pb_ResourceUsage =
  ru_CpuMillicores :: int64
  ru_MemoryMib :: int64

record pb_PlanRequest =
  pq_WorkflowName :: string
  pq_OptimizationGoal :: string
  pq_Tasks :: "pb_DAGTask list"
  pq_TaskStatuses :: "(string, pb_TaskStatus) fmap"
  pq_Predictions :: "(string, pb_TaskPrediction) fmap"
  pq_MaxResources :: "pb_ResourceLimit option"
  pq_CurrentUsage :: "pb_ResourceUsage option"

record pb_TaskAllocation =
  pa_TaskName :: string
  pa_CpuRequestMillicores :: int64
  pa_MemoryRequestMib :: int64
  pa_CpuLimitMillicores :: int64
  pa_MemoryLimitMib :: int64

record pb_PlanResponse =
  pr_TasksToStart :: "pb_TaskAllocation list"

text \<open>The inference service has a task message of its own, with the same fields.\<close>

record pb_TaskInfo =
  ti_Name :: string
  ti_Image :: string
  ti_Command :: "string list"
  ti_Dependencies :: "string list"
  ti_BaseResources :: "pb_ResourceHint option"

record pb_PredictRequest =
  pdq_WorkflowName :: string
  pdq_Tasks :: "pb_TaskInfo list"

record pb_PredictResponse =
  pdr_Predictions :: "(string, pb_TaskPrediction) fmap"

record pb_TaskMetrics =
  tm_TaskName :: string
  tm_Image :: string
  tm_ActualCpuMillicores :: int64
  tm_ActualMemoryMib :: int64
  tm_ActualDurationS :: float64
  tm_Succeeded :: bool
  tm_CompletedAt :: string

record pb_ReportMetricsRequest =
  rq_WorkflowName :: string
  rq_TaskMetrics :: "pb_TaskMetrics list"

record pb_ReportMetricsResponse =
  rp_Accepted :: bool

section \<open>Conversions both sides share\<close>

text \<open>
  \<^verbatim>\<open>if cpu, ok := m["cpu"]; ok { x = cpu.MilliValue() }\<close> and the same for memory, on a field
  that is zero before.
\<close>

definition cpu_millicores :: "'q golib \<Rightarrow> 'q ResourceList \<Rightarrow> int64" where
  "cpu_millicores L rl = (case fmlookup rl ResourceCPU of Some cpu \<Rightarrow> q_MilliValue L cpu | None \<Rightarrow> 0)"

definition memory_mib :: "'q golib \<Rightarrow> 'q ResourceList \<Rightarrow> int64" where
  "memory_mib L rl = (case fmlookup rl ResourceMemory of
     Some mem \<Rightarrow> go_div64 (q_Value L mem) mebibyte | None \<Rightarrow> 0)"

text \<open>A resource list built from a number of millicores and one of mebibytes.\<close>

definition parse_resources :: "'q golib \<Rightarrow> int64 \<Rightarrow> int64 \<Rightarrow> 'q ResourceList option" where
  "parse_resources L cpu mem = do {
     c \<leftarrow> q_MustParse L (dec_int (sint cpu) @ ''m'');
     m \<leftarrow> q_MustParse L (dec_int (sint mem) @ ''Mi'');
     Some (fmupd ResourceMemory m (fmupd ResourceCPU c fmempty)) }"

text \<open>Loops that convert a map entry by entry into a new map; the second one may panic.\<close>

fun copy_loop :: "('v \<Rightarrow> 'u) \<Rightarrow> (string \<times> 'v) list \<Rightarrow> (string, 'u) fmap \<Rightarrow> (string, 'u) fmap" where
  "copy_loop f [] result = result"
| "copy_loop f ((name, v) # rest) result = copy_loop f rest (fmupd name (f v) result)"

fun convert_loop :: "('v \<Rightarrow> 'u option) \<Rightarrow> (string \<times> 'v) list \<Rightarrow> (string, 'u) fmap \<Rightarrow> (string, 'u) fmap option" where
  "convert_loop f [] result = Some result"
| "convert_loop f ((name, v) # rest) result =
     (case f v of None \<Rightarrow> None | Some u \<Rightarrow> convert_loop f rest (fmupd name u result))"

text \<open>A prediction message as predictions: limits are one and a half times the requests.\<close>

definition prediction_of :: "'q golib \<Rightarrow> pb_TaskPrediction \<Rightarrow> 'q TaskPrediction option" where
  "prediction_of L p = do {
     req \<leftarrow> parse_resources L (pp_CpuMillicores p) (pp_MemoryMib p);
     lim \<leftarrow> parse_resources L (int64_of_f64_times_1_5 L (pp_CpuMillicores p))
              (int64_of_f64_times_1_5 L (pp_MemoryMib p));
     Some \<lparr> tp_EstimatedDuration = pp_EstimatedDurationS p,
            tp_EstimatedResources = \<lparr> rr_Requests = req, rr_Limits = lim \<rparr> \<rparr> }"

section \<open>The inference client\<close>

definition hint_of :: "'q golib \<Rightarrow> 'q TaskTemplate \<Rightarrow> pb_ResourceHint option" where
  "hint_of L task = (if go_len (rr_Requests (tt_BaseResources task)) > 0
     then Some \<lparr> rh_CpuMillicores = cpu_millicores L (rr_Requests (tt_BaseResources task)),
                 rh_MemoryMib = memory_mib L (rr_Requests (tt_BaseResources task)) \<rparr>
     else None)"

definition task_info :: "'q golib \<Rightarrow> 'q TaskTemplate \<Rightarrow> pb_TaskInfo" where
  "task_info L task = \<lparr> ti_Name = tt_Name task, ti_Image = tt_Image task, ti_Command = tt_Command task,
     ti_Dependencies = tt_Dependencies task, ti_BaseResources = hint_of L task \<rparr>"

definition predict_request :: "'q golib \<Rightarrow> 'q AdaptiveWorkflowSpec \<Rightarrow> pb_PredictRequest" where
  "predict_request L spec = \<lparr> pdq_WorkflowName = ''current'', pdq_Tasks = map (task_info L) (sp_Tasks spec) \<rparr>"

definition InferenceClient_Predict :: "'q golib \<Rightarrow> (string, pb_TaskPrediction) map_order
    \<Rightarrow> (pb_PredictRequest \<Rightarrow> 'w \<Rightarrow> (go_error + pb_PredictResponse) \<times> 'w)
    \<Rightarrow> 'q AdaptiveWorkflowSpec \<Rightarrow> 'w \<Rightarrow> (go_error + 'q Predictions) option \<times> 'w" where
  "InferenceClient_Predict L ord rpc spec w = (case rpc (predict_request L spec) w of
     (Inl err, w1) \<Rightarrow> (Some (Inl (Wrapf ''gRPC Predict failed: '' err)), w1)
   | (Inr resp, w1) \<Rightarrow>
       (map_option Inr (convert_loop (prediction_of L) (go_range ord (pdr_Predictions resp)) fmempty), w1))"

definition InferenceClient_ReportMetrics ::
  "(pb_ReportMetricsRequest \<Rightarrow> 'w \<Rightarrow> (go_error + pb_ReportMetricsResponse) \<times> 'w)
    \<Rightarrow> string \<Rightarrow> pb_TaskMetrics list \<Rightarrow> 'w \<Rightarrow> go_error option \<times> 'w" where
  "InferenceClient_ReportMetrics rpc workflowName metrics w =
     (case rpc \<lparr> rq_WorkflowName = workflowName, rq_TaskMetrics = metrics \<rparr> w of
        (Inl err, w1) \<Rightarrow> (Some (Wrapf ''gRPC ReportMetrics failed: '' err), w1)
      | (Inr resp, w1) \<Rightarrow>
          if \<not> rp_Accepted resp then (Some (Err ''metrics were not accepted by inference engine''), w1)
          else (None, w1))"

section \<open>The optimizer client\<close>

definition dag_task :: "'q golib \<Rightarrow> 'q TaskTemplate \<Rightarrow> pb_DAGTask" where
  "dag_task L task = \<lparr> dt_Name = tt_Name task, dt_Image = tt_Image task, dt_Command = tt_Command task,
     dt_Dependencies = tt_Dependencies task, dt_BaseResources = hint_of L task \<rparr>"

definition status_message :: "'q golib \<Rightarrow> 'q TaskStatus \<Rightarrow> pb_TaskStatus" where
  "status_message L ts = \<lparr> ps_Phase = ts_Phase ts, ps_PodName = ts_PodName ts,
     ps_AllocatedCpuMillicores = cpu_millicores L (rr_Requests (ts_AllocatedResources ts)),
     ps_AllocatedMemoryMib = memory_mib L (rr_Requests (ts_AllocatedResources ts)) \<rparr>"

definition prediction_message :: "'q golib \<Rightarrow> 'q TaskPrediction \<Rightarrow> pb_TaskPrediction" where
  "prediction_message L p = \<lparr> pp_CpuMillicores = cpu_millicores L (rr_Requests (tp_EstimatedResources p)),
     pp_MemoryMib = memory_mib L (rr_Requests (tp_EstimatedResources p)),
     pp_EstimatedDurationS = tp_EstimatedDuration p, pp_Confidence = Finite 0 \<rparr>"

definition limit_message :: "'q golib \<Rightarrow> 'q ResourceList \<Rightarrow> pb_ResourceLimit option" where
  "limit_message L rl = (if go_len rl > 0
     then Some \<lparr> rm_CpuMillicores = cpu_millicores L rl, rm_MemoryMib = memory_mib L rl \<rparr> else None)"

definition plan_request :: "'q golib \<Rightarrow> (string, 'q TaskStatus) map_order \<Rightarrow> (string, 'q TaskPrediction) map_order
    \<Rightarrow> 'q AdaptiveWorkflowSpec \<Rightarrow> 'q TaskStatuses \<Rightarrow> 'q Predictions \<Rightarrow> pb_PlanRequest" where
  "plan_request L ords ordp spec sts preds =
     \<lparr> pq_WorkflowName = ''current'', pq_OptimizationGoal = sp_OptimizationGoal spec,
       pq_Tasks = map (dag_task L) (sp_Tasks spec),
       pq_TaskStatuses = copy_loop (status_message L) (go_range ords sts) fmempty,
       pq_Predictions = copy_loop (prediction_message L) (go_range ordp preds) fmempty,
       pq_MaxResources = limit_message L (sp_MaxResources spec), pq_CurrentUsage = None \<rparr>"

definition allocation_of :: "'q golib \<Rightarrow> pb_TaskAllocation \<Rightarrow> 'q TaskAllocation option" where
  "allocation_of L ta = do {
     req \<leftarrow> parse_resources L (pa_CpuRequestMillicores ta) (pa_MemoryRequestMib ta);
     lim \<leftarrow> parse_resources L (pa_CpuLimitMillicores ta) (pa_MemoryLimitMib ta);
     Some \<lparr> ta_TaskName = pa_TaskName ta, ta_Resources = \<lparr> rr_Requests = req, rr_Limits = lim \<rparr> \<rparr> }"

fun allocations_loop :: "'q golib \<Rightarrow> pb_TaskAllocation list \<Rightarrow> 'q TaskAllocation list
    \<Rightarrow> 'q TaskAllocation list option" where
  "allocations_loop L [] plan = Some plan"
| "allocations_loop L (ta # tas) plan =
     (case allocation_of L ta of None \<Rightarrow> None | Some a \<Rightarrow> allocations_loop L tas (plan @ [a]))"

definition OptimizerClient_Plan :: "'q golib \<Rightarrow> (string, 'q TaskStatus) map_order
    \<Rightarrow> (string, 'q TaskPrediction) map_order
    \<Rightarrow> (pb_PlanRequest \<Rightarrow> 'w \<Rightarrow> (go_error + pb_PlanResponse) \<times> 'w)
    \<Rightarrow> 'q AdaptiveWorkflowSpec \<Rightarrow> 'q TaskStatuses \<Rightarrow> 'q Predictions \<Rightarrow> 'w
    \<Rightarrow> (go_error + 'q SchedulePlan) option \<times> 'w" where
  "OptimizerClient_Plan L ords ordp rpc spec sts preds w = (case rpc (plan_request L ords ordp spec sts preds) w of
     (Inl err, w1) \<Rightarrow> (Some (Inl (Wrapf ''gRPC Plan failed: '' err)), w1)
   | (Inr resp, w1) \<Rightarrow>
       (map_option (\<lambda>as. Inr \<lparr> pl_TasksToStart = as \<rparr>) (allocations_loop L (pr_TasksToStart resp) []), w1))"

section \<open>The optimizer server\<close>

definition template_of :: "'q golib \<Rightarrow> pb_DAGTask \<Rightarrow> 'q TaskTemplate option" where
  "template_of L t = (case dt_BaseResources t of
     None \<Rightarrow> Some \<lparr> tt_Name = dt_Name t, tt_Image = dt_Image t, tt_Command = dt_Command t,
       tt_Dependencies = dt_Dependencies t, tt_BaseResources = zero_resources \<rparr>
   | Some h \<Rightarrow> do {
       req \<leftarrow> parse_resources L (rh_CpuMillicores h) (rh_MemoryMib h);
       Some \<lparr> tt_Name = dt_Name t, tt_Image = dt_Image t, tt_Command = dt_Command t,
         tt_Dependencies = dt_Dependencies t,
         tt_BaseResources = \<lparr> rr_Requests = req, rr_Limits = fmempty \<rparr> \<rparr> })"

fun templates_loop :: "'q golib \<Rightarrow> pb_DAGTask list \<Rightarrow> 'q TaskTemplate list \<Rightarrow> 'q TaskTemplate list option" where
  "templates_loop L [] tasks = Some tasks"
| "templates_loop L (t # ts) tasks =
     (case template_of L t of None \<Rightarrow> None | Some task \<Rightarrow> templates_loop L ts (tasks @ [task]))"

definition protoToSpec :: "'q golib \<Rightarrow> pb_PlanRequest \<Rightarrow> 'q AdaptiveWorkflowSpec option" where
  "protoToSpec L req = do {
     tasks \<leftarrow> templates_loop L (pq_Tasks req) [];
     mx \<leftarrow> (case pq_MaxResources req of None \<Rightarrow> Some fmempty
            | Some m \<Rightarrow> parse_resources L (rm_CpuMillicores m) (rm_MemoryMib m));
     Some \<lparr> sp_Tasks = tasks, sp_MaxResources = mx, sp_OptimizationGoal = pq_OptimizationGoal req \<rparr> }"

definition status_of :: "'q golib \<Rightarrow> pb_TaskStatus \<Rightarrow> 'q TaskStatus option" where
  "status_of L s = do {
     res \<leftarrow> (if sint (ps_AllocatedCpuMillicores s) > 0 \<or> sint (ps_AllocatedMemoryMib s) > 0
       then do {
         req \<leftarrow> parse_resources L (ps_AllocatedCpuMillicores s) (ps_AllocatedMemoryMib s);
         Some \<lparr> rr_Requests = req, rr_Limits = fmempty \<rparr> }
       else Some zero_resources);
     Some \<lparr> ts_Phase = ps_Phase s, ts_PodName = ps_PodName s, ts_AllocatedResources = res \<rparr> }"

definition protoToTaskStatuses :: "'q golib \<Rightarrow> (string, pb_TaskStatus) map_order
    \<Rightarrow> (string, pb_TaskStatus) fmap \<Rightarrow> 'q TaskStatuses option" where
  "protoToTaskStatuses L ord statuses = convert_loop (status_of L) (go_range ord statuses) fmempty"

definition protoToPredictions :: "'q golib \<Rightarrow> (string, pb_TaskPrediction) map_order
    \<Rightarrow> (string, pb_TaskPrediction) fmap \<Rightarrow> 'q Predictions option" where
  "protoToPredictions L ord preds = convert_loop (prediction_of L) (go_range ord preds) fmempty"

definition allocation_message :: "'q golib \<Rightarrow> 'q TaskAllocation \<Rightarrow> pb_TaskAllocation" where
  "allocation_message L alloc = \<lparr> pa_TaskName = ta_TaskName alloc,
     pa_CpuRequestMillicores = cpu_millicores L (rr_Requests (ta_Resources alloc)),
     pa_MemoryRequestMib = memory_mib L (rr_Requests (ta_Resources alloc)),
     pa_CpuLimitMillicores = cpu_millicores L (rr_Limits (ta_Resources alloc)),
     pa_MemoryLimitMib = memory_mib L (rr_Limits (ta_Resources alloc)) \<rparr>"

text \<open>The handler; \<open>opt\<close> is the scheduler the server was started with.\<close>

definition optimizerServer_Plan :: "'q golib \<Rightarrow> (string, pb_TaskStatus) map_order
    \<Rightarrow> (string, pb_TaskPrediction) map_order
    \<Rightarrow> ('q AdaptiveWorkflowSpec \<Rightarrow> 'q TaskStatuses \<Rightarrow> 'q Predictions \<Rightarrow> (go_error + 'q SchedulePlan) option)
    \<Rightarrow> pb_PlanRequest \<Rightarrow> (go_error + pb_PlanResponse) option" where
  "optimizerServer_Plan L ords ordp opt req = do {
     spec \<leftarrow> protoToSpec L req;
     taskStatuses \<leftarrow> protoToTaskStatuses L ords (pq_TaskStatuses req);
     predictions \<leftarrow> protoToPredictions L ordp (pq_Predictions req);
     r \<leftarrow> opt spec taskStatuses predictions;
     Some (case r of
       Inl err \<Rightarrow> Inl (Wrapf ''optimizer plan failed: '' err)
     | Inr plan \<Rightarrow> Inr \<lparr> pr_TasksToStart = map (allocation_message L) (pl_TasksToStart plan) \<rparr>) }"

section \<open>Connections\<close>

text \<open>
  A client is a connection and the stub generated for it. \<^verbatim>\<open>grpc.NewClient\<close>, the stub constructor
  and the closing of a connection are parameters.
\<close>

record ('w, 'conn) InferenceClient =
  ic_Predict :: "pb_PredictRequest \<Rightarrow> 'w \<Rightarrow> (go_error + pb_PredictResponse) \<times> 'w"
  ic_ReportMetrics :: "pb_ReportMetricsRequest \<Rightarrow> 'w \<Rightarrow> (go_error + pb_ReportMetricsResponse) \<times> 'w"
  ic_conn :: 'conn

record ('w, 'conn) OptimizerClient =
  oc_Plan :: "pb_PlanRequest \<Rightarrow> 'w \<Rightarrow> (go_error + pb_PlanResponse) \<times> 'w"
  oc_conn :: 'conn

record ('w, 'conn) grpc_lib =
  gr_NewClient :: "string \<Rightarrow> 'w \<Rightarrow> (go_error + 'conn) \<times> 'w"
  gr_Predict :: "'conn \<Rightarrow> pb_PredictRequest \<Rightarrow> 'w \<Rightarrow> (go_error + pb_PredictResponse) \<times> 'w"
  gr_ReportMetrics :: "'conn \<Rightarrow> pb_ReportMetricsRequest \<Rightarrow> 'w \<Rightarrow> (go_error + pb_ReportMetricsResponse) \<times> 'w"
  gr_Plan :: "'conn \<Rightarrow> pb_PlanRequest \<Rightarrow> 'w \<Rightarrow> (go_error + pb_PlanResponse) \<times> 'w"
  gr_Close :: "'conn \<Rightarrow> 'w \<Rightarrow> go_error option \<times> 'w"

definition NewInferenceClient :: "('w, 'conn) grpc_lib \<Rightarrow> string \<Rightarrow> 'w
    \<Rightarrow> (go_error + ('w, 'conn) InferenceClient) \<times> 'w" where
  "NewInferenceClient G addr w = (case gr_NewClient G addr w of
     (Inl err, w1) \<Rightarrow> (Inl (Wrapf (''failed to connect to inference engine at '' @ addr @ '': '') err), w1)
   | (Inr conn, w1) \<Rightarrow> (Inr \<lparr> ic_Predict = gr_Predict G conn, ic_ReportMetrics = gr_ReportMetrics G conn, ic_conn = conn \<rparr>, w1))"

definition InferenceClient_Close :: "('w, 'conn) grpc_lib \<Rightarrow> ('w, 'conn) InferenceClient \<Rightarrow> 'w \<Rightarrow> go_error option \<times> 'w" where
  "InferenceClient_Close G c w = gr_Close G (ic_conn c) w"

definition NewOptimizerClient :: "('w, 'conn) grpc_lib \<Rightarrow> string \<Rightarrow> 'w
    \<Rightarrow> (go_error + ('w, 'conn) OptimizerClient) \<times> 'w" where
  "NewOptimizerClient G addr w = (case gr_NewClient G addr w of
     (Inl err, w1) \<Rightarrow> (Inl (Wrapf (''failed to connect to optimizer at '' @ addr @ '': '') err), w1)
   | (Inr conn, w1) \<Rightarrow> (Inr \<lparr> oc_Plan = gr_Plan G conn, oc_conn = conn \<rparr>, w1))"

definition OptimizerClient_Close :: "('w, 'conn) grpc_lib \<Rightarrow> ('w, 'conn) OptimizerClient \<Rightarrow> 'w \<Rightarrow> go_error option \<times> 'w" where
  "OptimizerClient_Close G c w = gr_Close G (oc_conn c) w"

end
