(* ===== verification/Manager.thy ===== *)
theory Manager
  imports Controller Grpc
begin

text \<open>
  The entry points: \<^verbatim>\<open>cmd/main.go\<close>, which parses the flags, configures the controller manager and
  chooses engine, optimizer and database from the environment, and \<^verbatim>\<open>main\<close> of
  \<^verbatim>\<open>cmd/optimizer\<close>. Exits are values: \<open>Exit n\<close>. The flag parser is that of the Go library;
  the flags other packages add (those of zap, and \<^verbatim>\<open>kubeconfig\<close>) are a parameter, as are
  controller-runtime and gRPC. Log messages are left out.
\<close>

section \<open>Flags\<close>

record 'o flags =
  fl_metricsAddr :: string
  fl_probeAddr :: string
  fl_enableLeaderElection :: bool
  fl_secureMetrics :: bool
  fl_webhookCertPath :: string
  fl_webhookCertName :: string
  fl_webhookCertKey :: string
  fl_metricsCertPath :: string
  fl_metricsCertName :: string
  fl_metricsCertKey :: string
  fl_enableHTTP2 :: bool
  fl_others :: 'o

definition default_flags :: "'o \<Rightarrow> 'o flags" where
  "default_flags others = \<lparr> fl_metricsAddr = ''0'', fl_probeAddr = '':8081'', fl_enableLeaderElection = False,
     fl_secureMetrics = True, fl_webhookCertPath = '''', fl_webhookCertName = ''tls.crt'',
     fl_webhookCertKey = ''tls.key'', fl_metricsCertPath = '''', fl_metricsCertName = ''tls.crt'',
     fl_metricsCertKey = ''tls.key'', fl_enableHTTP2 = False, fl_others = others \<rparr>"

text \<open>A registered flag: how its value is set, and whether it is a switch.\<close>

datatype 'o flag = StringVar "string \<Rightarrow> 'o flags \<Rightarrow> 'o flags" | BoolVar "bool \<Rightarrow> 'o flags \<Rightarrow> 'o flags"
  | OtherVar bool "string \<Rightarrow> 'o \<Rightarrow> 'o option"

definition manager_flags :: "(string \<times> 'o flag) list" where
  "manager_flags =
     [(''metrics-bind-address'', StringVar (\<lambda>v f. f\<lparr> fl_metricsAddr := v \<rparr>)),
      (''health-probe-bind-address'', StringVar (\<lambda>v f. f\<lparr> fl_probeAddr := v \<rparr>)),
      (''leader-elect'', BoolVar (\<lambda>b f. f\<lparr> fl_enableLeaderElection := b \<rparr>)),
      (''metrics-secure'', BoolVar (\<lambda>b f. f\<lparr> fl_secureMetrics := b \<rparr>)),
      (''webhook-cert-path'', StringVar (\<lambda>v f. f\<lparr> fl_webhookCertPath := v \<rparr>)),
      (''webhook-cert-name'', StringVar (\<lambda>v f. f\<lparr> fl_webhookCertName := v \<rparr>)),
      (''webhook-cert-key'', StringVar (\<lambda>v f. f\<lparr> fl_webhookCertKey := v \<rparr>)),
      (''metrics-cert-path'', StringVar (\<lambda>v f. f\<lparr> fl_metricsCertPath := v \<rparr>)),
      (''metrics-cert-name'', StringVar (\<lambda>v f. f\<lparr> fl_metricsCertName := v \<rparr>)),
      (''metrics-cert-key'', StringVar (\<lambda>v f. f\<lparr> fl_metricsCertKey := v \<rparr>)),
      (''enable-http2'', BoolVar (\<lambda>b f. f\<lparr> fl_enableHTTP2 := b \<rparr>))]"

definition strconv_ParseBool :: "string \<Rightarrow> bool option" where
  "strconv_ParseBool s =
     (if s \<in> {''1'', ''t'', ''T'', ''true'', ''TRUE'', ''True''} then Some True
      else if s \<in> {''0'', ''f'', ''F'', ''false'', ''FALSE'', ''False''} then Some False else None)"

definition set_flag :: "'o flag \<Rightarrow> string \<Rightarrow> 'o flags \<Rightarrow> 'o flags option" where
  "set_flag fl v f = (case fl of
     StringVar upd \<Rightarrow> Some (upd v f)
   | BoolVar upd \<Rightarrow> map_option (\<lambda>b. upd b f) (strconv_ParseBool v)
   | OtherVar _ upd \<Rightarrow> map_option (\<lambda>x. f\<lparr> fl_others := x \<rparr>) (upd v (fl_others f)))"

definition is_switch :: "'o flag \<Rightarrow> bool" where
  "is_switch fl = (case fl of StringVar _ \<Rightarrow> False | BoolVar _ \<Rightarrow> True | OtherVar b _ \<Rightarrow> b)"

text \<open>The flags of \<^verbatim>\<open>main\<close> and those of other packages.\<close>

definition all_flags :: "(string \<Rightarrow> (bool \<times> (string \<Rightarrow> 'o \<Rightarrow> 'o option)) option) \<Rightarrow> string \<Rightarrow> 'o flag option" where
  "all_flags others name = (case map_of manager_flags name of
     Some fl \<Rightarrow> Some fl | None \<Rightarrow> map_option (\<lambda>(switch, upd). OtherVar switch upd) (others name))"

text \<open>
  An argument is no flag, the end of the flags, badly formed, or a flag: its name without the
  dashes, and the text after the first equals sign behind the name's first character, if any.
\<close>

datatype flag_arg = NoFlag | EndOfFlags | BadSyntax | FlagArg string "string option"

definition split_value :: "string \<Rightarrow> string \<times> string option" where
  "split_value name = (case dropWhile (\<lambda>c. c \<noteq> CHR ''='') (tl name) of
     [] \<Rightarrow> (name, None)
   | _ # value \<Rightarrow> (take 1 name @ takeWhile (\<lambda>c. c \<noteq> CHR ''='') (tl name), Some value))"

definition flag_argument :: "string \<Rightarrow> flag_arg" where
  "flag_argument s =
     (if length s < 2 \<or> hd s \<noteq> CHR ''-'' then NoFlag
      else if s = ''--'' then EndOfFlags
      else let name = (if s ! 1 = CHR ''-'' then drop 2 s else drop 1 s) in
        if name = [] \<or> hd name = CHR ''-'' \<or> hd name = CHR ''='' then BadSyntax
        else case split_value name of (n, v) \<Rightarrow> FlagArg n v)"

text \<open>
  \<^verbatim>\<open>flag.Parse\<close> on the command line's flag set exits with 2 on an error and with 0 when help is
  asked for.
\<close>

fun flag_Parse :: "(string \<Rightarrow> 'o flag option) \<Rightarrow> string list \<Rightarrow> 'o flags \<Rightarrow> int + 'o flags" where
  "flag_Parse formal [] f = Inr f"
| "flag_Parse formal (s # args) f = (case flag_argument s of
     NoFlag \<Rightarrow> Inr f
   | EndOfFlags \<Rightarrow> Inr f
   | BadSyntax \<Rightarrow> Inl 2
   | FlagArg name value \<Rightarrow> (case formal name of
       None \<Rightarrow> Inl (if name \<in> {''help'', ''h''} then 0 else 2)
     | Some fl \<Rightarrow>
         if is_switch fl then
           (case set_flag fl (case value of Some v \<Rightarrow> v | None \<Rightarrow> ''true'') f of
              None \<Rightarrow> Inl 2 | Some f' \<Rightarrow> flag_Parse formal args f')
         else (case value of
           Some v \<Rightarrow> (case set_flag fl v f of None \<Rightarrow> Inl 2 | Some f' \<Rightarrow> flag_Parse formal args f')
         | None \<Rightarrow> (case args of
             [] \<Rightarrow> Inl 2
           | v # args' \<Rightarrow> (case set_flag fl v f of None \<Rightarrow> Inl 2 | Some f' \<Rightarrow> flag_Parse formal args' f')))))"

section \<open>Options\<close>

record tls_config =
  tc_NextProtos :: "string list"

definition disableHTTP2 :: "tls_config \<Rightarrow> tls_config" where
  "disableHTTP2 c = c\<lparr> tc_NextProtos := [''http/1.1''] \<rparr>"

record server_options =
  so_TLSOpts :: "(tls_config \<Rightarrow> tls_config) list"
  so_CertDir :: string
  so_CertName :: string
  so_KeyName :: string

record metrics_options = server_options +
  mo_BindAddress :: string
  mo_SecureServing :: bool
  mo_Filter :: bool

record manager_options =
  op_Metrics :: metrics_options
  op_Webhook :: server_options
  op_HealthProbeBindAddress :: string
  op_LeaderElection :: bool
  op_LeaderElectionID :: string

definition tls_options :: "'o flags \<Rightarrow> (tls_config \<Rightarrow> tls_config) list" where
  "tls_options f = (if \<not> fl_enableHTTP2 f then [disableHTTP2] else [])"

definition webhook_options :: "'o flags \<Rightarrow> server_options" where
  "webhook_options f = (let o0 = \<lparr> so_TLSOpts = tls_options f, so_CertDir = '''', so_CertName = '''', so_KeyName = '''' \<rparr> in
     if length (fl_webhookCertPath f) > 0
     then o0\<lparr> so_CertDir := fl_webhookCertPath f, so_CertName := fl_webhookCertName f, so_KeyName := fl_webhookCertKey f \<rparr>
     else o0)"

definition metrics_server_options :: "'o flags \<Rightarrow> metrics_options" where
  "metrics_server_options f = (let
     o0 = \<lparr> so_TLSOpts = tls_options f, so_CertDir = '''', so_CertName = '''', so_KeyName = '''',
            mo_BindAddress = fl_metricsAddr f, mo_SecureServing = fl_secureMetrics f, mo_Filter = False \<rparr>;
     o1 = (if fl_secureMetrics f then o0\<lparr> mo_Filter := True \<rparr> else o0) in
     if length (fl_metricsCertPath f) > 0
     then o1\<lparr> so_CertDir := fl_metricsCertPath f, so_CertName := fl_metricsCertName f, so_KeyName := fl_metricsCertKey f \<rparr>
     else o1)"

definition options_of_flags :: "'o flags \<Rightarrow> manager_options" where
  "options_of_flags f = \<lparr> op_Metrics = metrics_server_options f, op_Webhook = webhook_options f,
     op_HealthProbeBindAddress = fl_probeAddr f, op_LeaderElection = fl_enableLeaderElection f,
     op_LeaderElectionID = ''c74ba7e1.wannabe.dev'' \<rparr>"

section \<open>The choice of components\<close>

text \<open>
  The libraries \<^verbatim>\<open>main\<close> calls: \<open>rt_NewManager\<close> stands for \<^verbatim>\<open>ctrl.GetConfigOrDie\<close>, which exits when
  there is no configuration (\<open>None\<close>), and \<^verbatim>\<open>ctrl.NewManager\<close>. A manager brings a client (with event
  recorder and clock); the \<open>rt_range\<close> fields are the orders of map iterations.
\<close>

record ('w, 'q, 'mgr, 'conn) runtime_lib =
  rt_NewManager :: "manager_options \<Rightarrow> 'w \<Rightarrow> (go_error + 'mgr) option \<times> 'w"
  rt_client :: "'mgr \<Rightarrow> ('w, 'q) client"
  rt_Complete :: "('w, 'q) reconciler \<Rightarrow> 'mgr \<Rightarrow> 'w \<Rightarrow> go_error option \<times> 'w"
  rt_AddHealthzCheck :: "string \<Rightarrow> 'mgr \<Rightarrow> 'w \<Rightarrow> go_error option \<times> 'w"
  rt_AddReadyzCheck :: "string \<Rightarrow> 'mgr \<Rightarrow> 'w \<Rightarrow> go_error option \<times> 'w"
  rt_Start :: "'mgr \<Rightarrow> 'w \<Rightarrow> go_error option \<times> 'w"
  rt_grpc :: "('w, 'conn) grpc_lib"
  rt_sql_Open :: "string \<Rightarrow> string \<Rightarrow> 'w \<Rightarrow> (go_error + 'w sql_db) \<times> 'w"
  rt_lib :: "'q golib"
  rt_range :: "range_site \<Rightarrow> 'w \<Rightarrow> (string, 'q TaskStatus) map_order"
  rt_range_usage :: "(string, 'q TaskStatus) map_order"
  rt_range_statuses :: "(string, 'q TaskStatus) map_order"
  rt_range_predictions :: "(string, 'q TaskPrediction) map_order"
  rt_range_answer :: "(string, pb_TaskPrediction) map_order"

definition os_Getenv :: "(string \<rightharpoonup> string) \<Rightarrow> string \<Rightarrow> string" where
  "os_Getenv env k = (case env k of Some v \<Rightarrow> v | None \<Rightarrow> '''')"

definition choose_inference :: "('w, 'q, 'mgr, 'conn) runtime_lib \<Rightarrow> (string \<rightharpoonup> string) \<Rightarrow> 'w
    \<Rightarrow> (int + ('w, 'q) engine) \<times> 'w" where
  "choose_inference T env w = (let addr = os_Getenv env ''INFERENCE_GRPC_ADDR'' in
     if addr \<noteq> '''' then
       (case NewInferenceClient (rt_grpc T) addr w of
          (Inl err, w1) \<Rightarrow> (Inl 1, w1)
        | (Inr c, w1) \<Rightarrow> (Inr (InferenceClient_Predict (rt_lib T) (rt_range_answer T) (ic_Predict c)), w1))
     else (Inr BaselineEngine, w))"

definition choose_optimizer :: "('w, 'q, 'mgr, 'conn) runtime_lib \<Rightarrow> (string \<rightharpoonup> string) \<Rightarrow> 'w
    \<Rightarrow> (int + ('w, 'q) optimizer) \<times> 'w" where
  "choose_optimizer T env w = (let addr = os_Getenv env ''OPTIMIZER_GRPC_ADDR'' in
     if addr \<noteq> '''' then
       (case NewOptimizerClient (rt_grpc T) addr w of
          (Inl err, w1) \<Rightarrow> (Inl 1, w1)
        | (Inr c, w1) \<Rightarrow>
            (Inr (OptimizerClient_Plan (rt_lib T) (rt_range_statuses T) (rt_range_predictions T) (oc_Plan c)), w1))
     else (Inr (GreedyOptimizer (rt_lib T) (rt_range_usage T)), w))"

definition choose_statedb :: "('w, 'q, 'mgr, 'conn) runtime_lib \<Rightarrow> (string \<rightharpoonup> string) \<Rightarrow> 'w \<Rightarrow> 'w StateDB \<times> 'w" where
  "choose_statedb T env w = (let connStr = os_Getenv env ''STATEDB_CONNECTION_STR'' in
     if connStr \<noteq> '''' then
       (case NewPostgresStateDB (rt_sql_Open T) connStr w of
          (Inl err, w1) \<Rightarrow> (NoOpStateDB, w1)
        | (Inr db, w1) \<Rightarrow> (PostgresStateDB (rt_lib T) db, w1))
     else (NoOpStateDB, w))"

text \<open>The reconciler, or the exit status.\<close>

definition make_reconciler :: "('w, 'q, 'mgr, 'conn) runtime_lib \<Rightarrow> (string \<rightharpoonup> string) \<Rightarrow> 'mgr \<Rightarrow> 'w
    \<Rightarrow> (int + ('w, 'q) reconciler) \<times> 'w" where
  "make_reconciler T env mgr w = (case choose_inference T env w of
     (Inl n, w1) \<Rightarrow> (Inl n, w1)
   | (Inr inferenceEngine, w1) \<Rightarrow> (case choose_optimizer T env w1 of
       (Inl n, w2) \<Rightarrow> (Inl n, w2)
     | (Inr optimizerEngine, w2) \<Rightarrow> (case choose_statedb T env w2 of
         (stateDB, w3) \<Rightarrow> (Inr \<lparr> rc_client = rt_client T mgr, rc_Inference = inferenceEngine,
           rc_Optimizer = optimizerEngine, rc_StateDB = Some stateDB, rc_lib = rt_lib T, rc_range = rt_range T \<rparr>, w3))))"

section \<open>The entry points\<close>

datatype exit = Exit int | Returned

text \<open>A sequence of calls of which the first that fails makes the program exit with 1.\<close>

fun or_exit :: "('w \<Rightarrow> go_error option \<times> 'w) list \<Rightarrow> 'w \<Rightarrow> exit \<times> 'w" where
  "or_exit [] w = (Returned, w)"
| "or_exit (f # fs) w = (case f w of (Some err, w1) \<Rightarrow> (Exit 1, w1) | (None, w1) \<Rightarrow> or_exit fs w1)"

text \<open>\<^verbatim>\<open>SetupWithManager\<close> builds a controller for workflows and the pods they own.\<close>

definition SetupWithManager :: "('w, 'q, 'mgr, 'conn) runtime_lib \<Rightarrow> ('w, 'q) reconciler \<Rightarrow> 'mgr \<Rightarrow> 'w
    \<Rightarrow> go_error option \<times> 'w" where
  "SetupWithManager T R mgr w = rt_Complete T R mgr w"

definition run_manager :: "('w, 'q, 'mgr, 'conn) runtime_lib \<Rightarrow> (string \<rightharpoonup> string) \<Rightarrow> 'mgr \<Rightarrow> 'w \<Rightarrow> exit \<times> 'w" where
  "run_manager T env mgr w = (case make_reconciler T env mgr w of
     (Inl n, w1) \<Rightarrow> (Exit n, w1)
   | (Inr R, w1) \<Rightarrow> or_exit
       [SetupWithManager T R mgr, rt_AddHealthzCheck T ''healthz'' mgr, rt_AddReadyzCheck T ''readyz'' mgr, rt_Start T mgr] w1)"

definition manager_main :: "('w, 'q, 'mgr, 'conn) runtime_lib
    \<Rightarrow> (string \<Rightarrow> (bool \<times> (string \<Rightarrow> 'o \<Rightarrow> 'o option)) option) \<Rightarrow> 'o
    \<Rightarrow> string list \<Rightarrow> (string \<rightharpoonup> string) \<Rightarrow> 'w \<Rightarrow> exit \<times> 'w" where
  "manager_main T others o0 args env w = (case flag_Parse (all_flags others) args (default_flags o0) of
     Inl n \<Rightarrow> (Exit n, w)
   | Inr f \<Rightarrow> (case rt_NewManager T (options_of_flags f) w of
       (None, w1) \<Rightarrow> (Exit 1, w1)
     | (Some (Inl err), w1) \<Rightarrow> (Exit 1, w1)
     | (Some (Inr mgr), w1) \<Rightarrow> run_manager T env mgr w1))"

text \<open>
  The optimizer service: \<open>serve\<close> runs the gRPC server on a listener with a handler until it
  is stopped by a signal or fails.
\<close>

definition optimizer_port :: "(string \<rightharpoonup> string) \<Rightarrow> string" where
  "optimizer_port env = (let port = os_Getenv env ''GRPC_PORT'' in if port = '''' then ''50052'' else port)"

definition optimizer_main :: "'q golib \<Rightarrow> (string, pb_TaskStatus) map_order \<Rightarrow> (string, pb_TaskPrediction) map_order
    \<Rightarrow> (string, 'q TaskStatus) map_order \<Rightarrow> (string \<Rightarrow> string \<Rightarrow> 'w \<Rightarrow> (go_error + 'lis) \<times> 'w)
    \<Rightarrow> ((pb_PlanRequest \<Rightarrow> (go_error + pb_PlanResponse) option) \<Rightarrow> 'lis \<Rightarrow> 'w \<Rightarrow> go_error option \<times> 'w)
    \<Rightarrow> (string \<rightharpoonup> string) \<Rightarrow> 'w \<Rightarrow> exit \<times> 'w" where
  "optimizer_main L ords ordp ord net_Listen serve env w =
     (case net_Listen ''tcp'' ('':'' @ optimizer_port env) w of
        (Inl err, w1) \<Rightarrow> (Exit 1, w1)
      | (Inr lis, w1) \<Rightarrow>
          or_exit [serve (optimizerServer_Plan L ords ordp (GreedyOptimizer_Plan L ord)) lis] w1)"

end
