(* ===== verification/System.thy ===== *)
theory System
  imports Workflow_Properties
begin

text \<open>
  The controller running against the API server. A world has the versions of the workflow
  object the server has stored so far, newest first. A call of \<^verbatim>\<open>Reconcile\<close> may load any of
  them, since reads come from a cache, while the rest of the cluster keeps acting between any
  two calls of the client. The server accepts an update only if it carries the newest resource
  version; the answer to an accepted update may get lost. Under these laws, and with a
  scheduler that keeps the contract \<open>task_optimizer\<close>, the stored history is safe: phases only
  move forward from version to version, finished workflows stay as they are, and no version
  has a task started before its dependencies succeeded.
\<close>

section \<open>The laws of the server\<close>

text \<open>
  What others may do to the object: add versions with the same specification and status (labels,
  finalizers, the deletion mark). Specifications are taken to be immutable once submitted.
\<close>

definition drift :: "'q AdaptiveWorkflow list \<Rightarrow> 'q AdaptiveWorkflow list \<Rightarrow> bool" where
  "drift vs vs' \<longleftrightarrow> (\<exists>new. vs' = new @ vs \<and> (new \<noteq> [] \<longrightarrow> vs \<noteq> [])
     \<and> (\<forall>v \<in> set new. wf_Spec v = wf_Spec (hd vs) \<and> wf_Status v = wf_Status (hd vs)))"

definition calm :: "('w \<Rightarrow> bool) \<Rightarrow> ('w \<Rightarrow> 'q AdaptiveWorkflow list) \<Rightarrow> ('w \<Rightarrow> 'w) \<Rightarrow> bool" where
  "calm ok vs f \<longleftrightarrow> (\<forall>w. ok w \<longrightarrow> ok (f w) \<and> drift (vs w) (vs (f w)))"

text \<open>
  An update: refused, or accepted because it carries the newest version. \<open>merge\<close> says what the
  accepted version has to do with the stored one and the one sent. Only the answer to an
  accepted update is free of error.
\<close>

definition guarded :: "('w \<Rightarrow> bool) \<Rightarrow> ('w \<Rightarrow> 'q AdaptiveWorkflow list)
    \<Rightarrow> ('q AdaptiveWorkflow \<Rightarrow> 'q AdaptiveWorkflow \<Rightarrow> 'q AdaptiveWorkflow \<Rightarrow> bool)
    \<Rightarrow> ('q AdaptiveWorkflow \<Rightarrow> 'w \<Rightarrow> (go_error option \<times> 'q AdaptiveWorkflow) \<times> 'w) \<Rightarrow> bool" where
  "guarded ok vs merge update \<longleftrightarrow> (\<forall>aw w e aw' w'. ok w \<longrightarrow> update aw w = ((e, aw'), w') \<longrightarrow> ok w'
     \<and> (vs w' = vs w \<and> e \<noteq> None
       \<or> (\<exists>cur rest new. vs w = cur # rest \<and> version_of aw = version_of cur \<and> vs w' = new # vs w
            \<and> merge cur aw new \<and> (e = None \<longrightarrow> aw' = new))))"

text \<open>The calls that read, create pods, emit events or ask for the time have no hand in it.\<close>

definition calm_client :: "('w, 'q) client \<Rightarrow> string \<Rightarrow> string \<Rightarrow> ('w \<Rightarrow> bool)
    \<Rightarrow> ('w \<Rightarrow> 'q AdaptiveWorkflow list) \<Rightarrow> bool" where
  "calm_client K ns name ok vs \<longleftrightarrow>
     calm ok vs (\<lambda>w. snd (cl_GetWorkflow K ns name w))
     \<and> (\<forall>n u. calm ok vs (\<lambda>w. snd (cl_ListPodsByOwner K n u w)))
     \<and> (\<forall>n l v. calm ok vs (\<lambda>w. snd (cl_ListPodsByLabel K n l v w)))
     \<and> (\<forall>n p. calm ok vs (\<lambda>w. snd (cl_GetPod K n p w)))
     \<and> (\<forall>p. calm ok vs (\<lambda>w. snd (cl_CreatePod K p w)))
     \<and> (\<forall>aw ty re m. calm ok vs (cl_Event K aw ty re m))
     \<and> calm ok vs (\<lambda>w. snd (cl_Now K w))"

definition api_laws :: "('w, 'q) client \<Rightarrow> string \<Rightarrow> string \<Rightarrow> ('w \<Rightarrow> bool)
    \<Rightarrow> ('w \<Rightarrow> 'q AdaptiveWorkflow list) \<Rightarrow> bool" where
  "api_laws K ns name ok vs \<longleftrightarrow>
     (\<forall>w. ok w \<longrightarrow> inj_on version_of (set (vs w)))
     \<and> calm_client K ns name ok vs
     \<and> (\<forall>w aw w'. ok w \<longrightarrow> cl_GetWorkflow K ns name w = (Inr aw, w') \<longrightarrow> aw \<in> set (vs w'))
     \<and> guarded ok vs (\<lambda>cur aw new. wf_Spec new = wf_Spec aw \<and> wf_Status new = wf_Status cur) (cl_Update K)
     \<and> guarded ok vs (\<lambda>cur aw new. wf_Spec new = wf_Spec cur \<and> wf_Status new = wf_Status aw) (cl_UpdateStatus K)
     \<and> (\<forall>aw f. wf_Spec (cl_AddFinalizer K aw f) = wf_Spec aw
         \<and> version_of (cl_AddFinalizer K aw f) = version_of aw
         \<and> wf_Spec (cl_RemoveFinalizer K aw f) = wf_Spec aw
         \<and> version_of (cl_RemoveFinalizer K aw f) = version_of aw)"

lemma api_calm: "api_laws K ns name ok vs \<Longrightarrow> calm_client K ns name ok vs"
  by (simp add: api_laws_def)

text \<open>The services the controller calls have no hand in the workflow object.\<close>

definition calm_services :: "('w, 'q) reconciler \<Rightarrow> ('w \<Rightarrow> bool) \<Rightarrow> ('w \<Rightarrow> 'q AdaptiveWorkflow list) \<Rightarrow> bool" where
  "calm_services R ok vs \<longleftrightarrow> (\<forall>spec. calm ok vs (\<lambda>w. snd (rc_Inference R spec w)))
     \<and> (\<forall>spec sts preds. calm ok vs (\<lambda>w. snd (rc_Optimizer R spec sts preds w)))
     \<and> (\<forall>D x. rc_StateDB R = Some D \<longrightarrow> calm ok vs (\<lambda>w. snd (sdb_RecordExecution D x w)))"

section \<open>Calm runs\<close>

lemma drift_refl [simp]: "drift vs vs"
  by (simp add: drift_def)

lemma drift_trans: "drift vs vs' \<Longrightarrow> drift vs' vs'' \<Longrightarrow> drift vs vs''"
  unfolding drift_def
  by (elim exE conjE, rule_tac x = "newa @ new" in exI) (case_tac new, auto)

definition keeps :: "('w \<Rightarrow> bool) \<Rightarrow> ('w \<Rightarrow> 'q AdaptiveWorkflow list) \<Rightarrow> ('w, 'q) sys \<Rightarrow> ('w, 'q) sys \<Rightarrow> bool" where
  "keeps ok vs s s' \<longleftrightarrow> (ok (sy_world s) \<longrightarrow>
     ok (sy_world s') \<and> drift (vs (sy_world s)) (vs (sy_world s')))"

lemma keeps_refl [simp]: "keeps ok vs s s"
  by (simp add: keeps_def)

lemma keeps_trans: "keeps ok vs s s' \<Longrightarrow> keeps ok vs s' s'' \<Longrightarrow> keeps ok vs s s''"
  by (auto simp: keeps_def intro: drift_trans)

lemma keeps_calm: "calm ok vs f \<Longrightarrow> sy_world s' = f (sy_world s) \<Longrightarrow> keeps ok vs s s'"
  by (simp add: calm_def keeps_def)

lemma calm_calls:
  assumes "calm_client K ns name ok vs"
  shows "k_GetWorkflow K ns name s = (r1, s1) \<Longrightarrow> keeps ok vs s s1"
    and "k_ListPodsByOwner K n u s = (r2, s1) \<Longrightarrow> keeps ok vs s s1"
    and "k_ListPodsByLabel K n l v s = (r2, s1) \<Longrightarrow> keeps ok vs s s1"
    and "k_GetPod K n p s = (r3, s1) \<Longrightarrow> keeps ok vs s s1"
    and "k_CreatePod K pod s = (r4, s1) \<Longrightarrow> keeps ok vs s s1"
    and "keeps ok vs s (k_Event K aw ty re m s)"
    and "k_Now K s = (t, s1) \<Longrightarrow> keeps ok vs s s1"
  using assms unfolding calm_client_def
  by (auto simp: k_defs keeps_def calm_def split: prod.splits; metis snd_conv)+

lemma calm_record:
  assumes "calm_services R ok vs" "rc_StateDB R = Some D"
  shows "keeps ok vs s (snd (k_RecordExecution D x s))"
  using assms unfolding calm_services_def
  by (auto simp: k_RecordExecution_def keeps_def calm_def split: prod.splits) (metis snd_conv)+

text \<open>The helpers that write nothing keep the stored history, up to what others do to it.\<close>

lemma createTaskPod_keeps:
  assumes "calm_client (rc_client R) ns name ok vs" "createTaskPod R aw a s = (e, s')"
  shows "keeps ok vs s s'"
proof -
  let ?n = "podName (rc_lib R) (om_Name (wf_Meta aw)) (ta_TaskName a)"
  obtain r s1 where g: "k_GetPod (rc_client R) (om_Namespace (wf_Meta aw)) ?n s = (r, s1)" by fastforce
  have k1: "keeps ok vs s s1" by (rule calm_calls(4) [OF assms(1) g])
  have k2: "keeps ok vs s s2" if "k_CreatePod (rc_client R) pod s1 = (x, s2)" for pod x s2
    using k1 calm_calls(5) [OF assms(1) that] by (rule keeps_trans)
  from assms(2) g k1 k2 show ?thesis
    by (auto simp: createTaskPod_def Let_def split: option.splits sum.splits prod.splits if_splits)
qed

lemma spawn_loop_keeps:
  assumes "calm_client (rc_client R) ns name ok vs"
  shows "keeps ok vs s (snd (spawn_loop R as aw s))"
proof (induction as arbitrary: aw s)
  case Nil
  then show ?case by simp
next
  case (Cons a as)
  obtain e s1 where c: "createTaskPod R aw a s = (e, s1)" by fastforce
  have k1: "keeps ok vs s s1" by (rule createTaskPod_keeps [OF assms c])
  have "keeps ok vs s (snd (spawn_loop R as aw' (k_Event (rc_client R) x ty re m s1)))" for aw' x ty re m
    using keeps_trans [OF k1 keeps_trans [OF calm_calls(6) [OF assms] Cons.IH]] .
  with c k1 show ?case by (simp add: Let_def split: option.split)
qed

lemma sync_pod_keeps:
  assumes "calm_client (rc_client R) ns name ok vs" "calm_services R ok vs"
  shows "keeps ok vs s (snd (sync_pod R pod aw s))"
proof -
  have rep: "keeps ok vs s1 (report_success R aw' n ts pod s1)" for aw' n ts s1
  proof (cases "rc_StateDB R")
    case None
    then show ?thesis by (simp add: report_success_def)
  next
    case (Some D)
    obtain t1 s2 t2 s3 where now: "k_Now (rc_client R) s1 = (t1, s2)" "k_Now (rc_client R) s2 = (t2, s3)"
      by fastforce
    from keeps_trans [OF calm_calls(7) [OF assms(1) now(1)] calm_calls(7) [OF assms(1) now(2)]]
      calm_record [OF assms(2) Some] Some now show ?thesis
      by (auto simp: report_success_def intro: keeps_trans)
  qed
  have "keeps ok vs s (report_success R aw' n ts pod (k_Event (rc_client R) aw' ty re m s))" for aw' n ts ty re m
    using keeps_trans [OF calm_calls(6) [OF assms(1)] rep] .
  then show ?thesis
    using calm_calls(6) [OF assms(1)] by (simp add: sync_pod_def Let_def split: option.split)
qed

lemma sync_loop_keeps:
  assumes "calm_client (rc_client R) ns name ok vs" "calm_services R ok vs"
  shows "keeps ok vs s (snd (sync_loop R pods aw s))"
proof (induction pods arbitrary: aw s)
  case Nil
  then show ?case by simp
next
  case (Cons pod pods)
  have "keeps ok vs s (snd (sync_pod R pod aw s))" by (rule sync_pod_keeps [OF assms])
  with Cons.IH show ?case by (auto intro: keeps_trans split: prod.split)
qed

lemma sync_keeps:
  assumes "calm_client (rc_client R) ns name ok vs" "calm_services R ok vs"
    "syncPodsToStatus R aw s = (r, s')"
  shows "keeps ok vs s s'"
proof -
  obtain l s1 where l: "list_pods R aw s = (l, s1)" by fastforce
  obtain r1 s0 where o1: "k_ListPodsByOwner (rc_client R) (om_Namespace (wf_Meta aw)) (om_UID (wf_Meta aw)) s = (r1, s0)"
    by fastforce
  have "keeps ok vs s s0" by (rule calm_calls(2) [OF assms(1) o1])
  moreover have "keeps ok vs s0 s1"
    using l o1 calm_calls(3) [OF assms(1)]
    by (auto simp: list_pods_def split: sum.splits)
  ultimately have "keeps ok vs s s1" by (rule keeps_trans)
  with assms(3) l sync_loop_keeps [OF assms(1,2)] show ?thesis
    by (auto simp: syncPodsToStatus_def split: sum.splits prod.splits intro: keeps_trans)
      (metis keeps_trans snd_conv)
qed

text \<open>A call that sends one status update, with calm steps before and after.\<close>

definition updates :: "('w, 'q) reconciler \<Rightarrow> ('w \<Rightarrow> bool) \<Rightarrow> ('w \<Rightarrow> 'q AdaptiveWorkflow list)
    \<Rightarrow> ('w, 'q) sys \<Rightarrow> 'q AdaptiveWorkflow \<Rightarrow> ('w, 'q) sys \<Rightarrow> bool" where
  "updates R ok vs s aw' s' \<longleftrightarrow> (\<exists>s1 r s2. keeps ok vs s s1 \<and> k_UpdateStatus (rc_client R) aw' s1 = (r, s2)
     \<and> keeps ok vs s2 s')"

lemma updates_after: "keeps ok vs s s0 \<Longrightarrow> updates R ok vs s0 aw' s' \<Longrightarrow> updates R ok vs s aw' s'"
  unfolding updates_def by (blast intro: keeps_trans)

lemma one_write_eq: "one_write aw es \<Longrightarrow> status_writes es = [aw]"
  by (simp add: one_write_def)

lemma final_updates:
  assumes "calm_client (rc_client R) ns name ok vs"
  shows "reconcile_init R aw s = (out, s') \<Longrightarrow> \<exists>aw'. status_writes (effects s s') = [aw'] \<and> updates R ok vs s aw' s'"
    and "reconcile_failed R n aw s = (out, s') \<Longrightarrow> \<exists>aw'. status_writes (effects s s') = [aw'] \<and> updates R ok vs s aw' s'"
    and "reconcile_completed R aw s = (out, s') \<Longrightarrow> \<exists>aw'. status_writes (effects s s') = [aw'] \<and> updates R ok vs s aw' s'"
    and "reconcile_finish R aw s = (out, s') \<Longrightarrow> \<exists>aw'. status_writes (effects s s') = [aw'] \<and> updates R ok vs s aw' s'"
proof -
  have sent: "\<exists>aw'. status_writes (effects s s') = [aw'] \<and> updates R ok vs s aw' s'"
    if u: "k_UpdateStatus (rc_client R) aw1 s = (r, s1)"
      and s': "s' = s1 \<or> (\<exists>x ty re m. s' = k_Event (rc_client R) x ty re m s1)" for aw1 r s1
  proof -
    have "status_writes (effects s s1) = [aw1]" "extends s s1"
      using u by (auto simp: k_UpdateStatus_def split: prod.splits)
    moreover have "extends s1 s' \<and> status_writes (effects s1 s') = [] \<and> keeps ok vs s1 s'"
      using s' calm_calls(6) [OF assms] by (auto simp: k_Event_effects)
    ultimately have "status_writes (effects s s') = [aw1]" by (simp add: effects_trans [of s s1 s'])
    moreover have "updates R ok vs s aw1 s'"
      unfolding updates_def using u \<open>extends s1 s' \<and> _\<close> keeps_refl by blast
    ultimately show ?thesis by blast
  qed
  have split: "(case k_UpdateStatus (rc_client R) aw1 s of ((Some e, _), s1) \<Rightarrow> (f e, s1)
      | ((None, aw2), s1) \<Rightarrow> (g, h aw2 s1)) = (out, s') \<Longrightarrow> (\<And>x s1. h x s1 = s1 \<or> (\<exists>y ty re m. h x s1 = k_Event (rc_client R) y ty re m s1)) \<Longrightarrow>
      \<exists>aw'. status_writes (effects s s') = [aw'] \<and> updates R ok vs s aw' s'" for aw1 f g h
    using sent [of aw1] by (auto split: prod.splits option.splits)
  show "reconcile_init R aw s = (out, s') \<Longrightarrow> \<exists>aw'. status_writes (effects s s') = [aw'] \<and> updates R ok vs s aw' s'"
    unfolding reconcile_init_def Let_def by (erule split) blast
  show "reconcile_failed R n aw s = (out, s') \<Longrightarrow> \<exists>aw'. status_writes (effects s s') = [aw'] \<and> updates R ok vs s aw' s'"
    unfolding reconcile_failed_def Let_def by (erule split) blast
  show "reconcile_completed R aw s = (out, s') \<Longrightarrow> \<exists>aw'. status_writes (effects s s') = [aw'] \<and> updates R ok vs s aw' s'"
    unfolding reconcile_completed_def Let_def by (erule split) blast
  show "reconcile_finish R aw s = (out, s') \<Longrightarrow> \<exists>aw'. status_writes (effects s s') = [aw'] \<and> updates R ok vs s aw' s'"
    unfolding reconcile_finish_def Let_def by (erule split) blast
qed

definition writes_once :: "('w, 'q) reconciler \<Rightarrow> ('w \<Rightarrow> bool) \<Rightarrow> ('w \<Rightarrow> 'q AdaptiveWorkflow list)
    \<Rightarrow> ('w, 'q) sys \<Rightarrow> ('w, 'q) sys \<Rightarrow> bool" where
  "writes_once R ok vs s s' \<longleftrightarrow> keeps ok vs s s'
     \<or> (\<exists>aw'. aw' \<in> set (status_writes (effects s s')) \<and> updates R ok vs s aw' s')"

lemma writes_once_after:
  assumes "keeps ok vs s s0" "extends s s0" "writes_once R ok vs s0 s'" "extends s0 s'"
  shows "writes_once R ok vs s s'"
  using assms unfolding writes_once_def
  by (auto simp: effects_trans [of s s0 s'] intro: keeps_trans updates_after)

lemma final_writes_once:
  assumes "\<exists>aw'. status_writes (effects s s') = [aw'] \<and> updates R ok vs s aw' s'"
  shows "writes_once R ok vs s s'"
  using assms by (auto simp: writes_once_def)

lemma reconcile_execute_extends:
  assumes "reconcile_execute R aw s = (out, s')" "st_TaskStatuses (wf_Status aw) = Some m"
  shows "extends s s'"
proof -
  have sp: "\<exists>x s3. spawn_loop R as (set_phase WorkflowPhaseRunning aw) (move w s) = (Some x, s3)
      \<and> extends s s3 \<and> st_TaskStatuses (wf_Status x) \<noteq> None" for as w
    using spawn_loop_spec [of "set_phase WorkflowPhaseRunning aw" m R as "move w s"] assms(2)
    by (fastforce simp: extends_iff)
  have fin: "extends s s'" if "reconcile_finish R x s3 = (out, s')" "extends s s3"
      "st_TaskStatuses (wf_Status x) \<noteq> None" for x s3
    using reconcile_finish_spec [OF that(1)] that(2,3) by (auto intro: extends_trans)
  from assms(1) show ?thesis
    using sp fin
    by (auto simp: reconcile_execute_def Let_def split: prod.splits option.splits sum.splits) (metis option.distinct(1) option.inject prod.inject)+
qed

lemma execute_writes_once:
  assumes "calm_client (rc_client R) ns name ok vs" "calm_services R ok vs"
    "st_TaskStatuses (wf_Status aw) = Some m" "reconcile_execute R aw s = (out, s')"
  shows "writes_once R ok vs s s'"
proof -
  obtain p w1 where p: "rc_Inference R (wf_Spec aw) (sy_world s) = (p, w1)" by fastforce
  have k1: "keeps ok vs s (move w1 s)"
    using assms(2) p by (intro keeps_calm [of ok vs "\<lambda>w. snd (rc_Inference R (wf_Spec aw) w)"]) (auto simp: calm_services_def)
  show ?thesis
  proof (cases p)
    case None
    with assms(4) p k1 show ?thesis by (auto simp: reconcile_execute_def Let_def writes_once_def)
  next
    case (Some a)
    let ?preds = "case a of Inl e \<Rightarrow> fmempty | Inr preds \<Rightarrow> preds"
    obtain q w2 where q: "rc_Optimizer R (wf_Spec aw) (statuses aw) ?preds w1 = (q, w2)" by fastforce
    have "keeps ok vs (move w1 s) (move w2 s)"
      using assms(2) q
      by (intro keeps_calm [of ok vs "\<lambda>w. snd (rc_Optimizer R (wf_Spec aw) (statuses aw) ?preds w)"])
        (auto simp: calm_services_def)
    with k1 have k2: "keeps ok vs s (move w2 s)" by (rule keeps_trans)
    show ?thesis
    proof (cases "\<exists>plan. q = Some (Inr plan)")
      case False
      with assms(4) p Some q k2 show ?thesis
        by (auto simp: reconcile_execute_def Let_def writes_once_def split: option.splits sum.splits)
    next
      case True
      then obtain plan where plan: "q = Some (Inr plan)" by blast
      have "st_TaskStatuses (wf_Status (set_phase WorkflowPhaseRunning aw)) = Some m" by (simp add: assms(3))
      from spawn_loop_spec [OF this, of R "pl_TasksToStart plan" "move w2 s"] obtain x s3 where
        sp: "spawn_loop R (pl_TasksToStart plan) (set_phase WorkflowPhaseRunning aw) (move w2 s) = (Some x, s3)"
          "extends (move w2 s) s3" "st_TaskStatuses (wf_Status x) \<noteq> None" by fastforce
      have k3: "keeps ok vs (move w2 s) s3"
        using spawn_loop_keeps [OF assms(1), of "move w2 s" "pl_TasksToStart plan" "set_phase WorkflowPhaseRunning aw"] sp(1)
        by simp
      have fin: "reconcile_finish R x s3 = (out, s')"
        using assms(4) p Some q plan sp(1) by (simp add: reconcile_execute_def Let_def)
      have "extends s3 s'" using reconcile_finish_spec [OF fin] sp(3) by auto
      moreover have "extends s s3" using sp(2) by (auto simp: extends_iff)
      ultimately show ?thesis
        using writes_once_after [OF keeps_trans [OF k2 k3] _ final_writes_once [OF final_updates(4) [OF assms(1) fin]]]
        by blast
    qed
  qed
qed

lemma active_writes_once:
  assumes "calm_client (rc_client R) ns name ok vs" "calm_services R ok vs" "fair_ranges R"
    "st_TaskStatuses (wf_Status aw) = Some m" "reconcile_active R aw s = (out, s')"
  shows "writes_once R ok vs s s'"
proof -
  obtain e aw1 s1 where sy: "syncPodsToStatus R aw s = ((e, aw1), s1)" by (metis surj_pair)
  have k: "keeps ok vs s s1" by (rule sync_keeps [OF assms(1,2) sy])
  show ?thesis
  proof (cases e)
    case (Some err)
    with assms(5) sy k show ?thesis by (auto simp: reconcile_active_def writes_once_def)
  next
    case None
    with sy have "syncPodsToStatus R aw s = ((None, aw1), s1)" by simp
    with assms(4) obtain pods where pods: "aw1 = set_statuses (synced pods m) aw" "extends s s1"
      by (rule sync_spec)
    then have st: "st_TaskStatuses (wf_Status aw1) = Some (synced pods m)" by simp
    have later: "writes_once R ok vs s s'" if "writes_once R ok vs s1 s'" "extends s1 s'"
      by (rule writes_once_after [OF k pods(2) that])
    let ?f = "first_failed (go_range (rc_range R RangeFailed (sy_world s1)) (statuses aw1))"
    consider (failed) n where "reconcile_failed R n aw1 s1 = (out, s')"
      | (finish) "reconcile_completed R aw1 s1 = (out, s')"
      | (run) "reconcile_execute R aw1 s1 = (out, s')"
      using assms(5) sy None by (auto simp: reconcile_active_def split: option.splits if_splits)
    then show ?thesis
    proof cases
      case failed
      with later final_writes_once [OF final_updates(2) [OF assms(1) failed]] reconcile_failed_spec [OF failed st]
      show ?thesis by blast
    next
      case finish
      with later final_writes_once [OF final_updates(3) [OF assms(1) finish]] reconcile_completed_spec [OF finish st]
      show ?thesis by blast
    next
      case run
      have "extends s1 s'" using reconcile_execute_extends [OF run st] .
      with later execute_writes_once [OF assms(1,2) st run] show ?thesis by blast
    qed
  qed
qed

section \<open>Safe histories\<close>

text \<open>How a version may follow another.\<close>

definition evolves :: "'q AdaptiveWorkflow \<Rightarrow> 'q AdaptiveWorkflow \<Rightarrow> bool" where
  "evolves u v \<longleftrightarrow> wf_Spec v = wf_Spec u \<and> (\<forall>m. st_TaskStatuses (wf_Status u) = Some m \<longrightarrow>
     st_TaskStatuses (wf_Status v) \<noteq> None
     \<and> (\<forall>n. phase_step (phase_of m n) (phase_of (statuses v) n))
     \<and> (is_terminal (st_Phase (wf_Status u)) \<longrightarrow> wf_Status v = wf_Status u))"

definition version_ok :: "'q AdaptiveWorkflowSpec \<Rightarrow> 'q AdaptiveWorkflow \<Rightarrow> bool" where
  "version_ok spec v \<longleftrightarrow> wf_Spec v = spec
     \<and> (\<forall>m. st_TaskStatuses (wf_Status v) = Some m \<longrightarrow> dag_ok spec m)"

definition safe_history :: "'q AdaptiveWorkflowSpec \<Rightarrow> 'q AdaptiveWorkflow list \<Rightarrow> bool" where
  "safe_history spec vs \<longleftrightarrow> (\<forall>v \<in> set vs. version_ok spec v) \<and> successively (\<lambda>v u. evolves u v) vs"

lemma phase_step_refl [simp]: "phase_step p p"
  by (simp add: phase_step_def)

lemma evolves_same:
  "wf_Spec v = wf_Spec u \<Longrightarrow> wf_Status v = wf_Status u \<Longrightarrow> evolves u v"
  by (auto simp: evolves_def statuses_def)

lemma safe_history_add:
  "safe_history spec (cur # rest) \<Longrightarrow> evolves cur new \<Longrightarrow> version_ok spec new \<Longrightarrow>
    safe_history spec (new # cur # rest)"
  by (simp add: safe_history_def)

lemma safe_history_same:
  assumes "safe_history spec (cur # rest)" "wf_Spec new = spec" "wf_Status new = wf_Status cur"
  shows "safe_history spec (new # cur # rest)"
proof (rule safe_history_add [OF assms(1)])
  have cur: "version_ok spec cur" using assms(1) by (simp add: safe_history_def)
  then show "evolves cur new" using assms(2,3) by (intro evolves_same) (simp_all add: version_ok_def)
  from cur show "version_ok spec new" using assms(2,3) by (simp add: version_ok_def)
qed

lemma safe_history_drift:
  assumes "drift vs vs'" "safe_history spec vs"
  shows "safe_history spec vs'"
proof -
  from assms(1) obtain new where new: "vs' = new @ vs" "new \<noteq> [] \<longrightarrow> vs \<noteq> []"
    "\<forall>v \<in> set new. wf_Spec v = wf_Spec (hd vs) \<and> wf_Status v = wf_Status (hd vs)" by (auto simp: drift_def)
  have "safe_history spec (new @ vs) \<and> (vs \<noteq> [] \<longrightarrow> wf_Status (hd (new @ vs)) = wf_Status (hd vs))"
    using new(2,3)
  proof (induction new)
    case Nil
    with assms(2) show ?case by simp
  next
    case (Cons v new)
    then obtain cur rest where cr: "new @ vs = cur # rest" by (cases "new @ vs") auto
    have "wf_Spec (hd vs) = spec" using Cons.prems(1) assms(2)
      by (cases vs) (auto simp: safe_history_def version_ok_def)
    with Cons cr show ?case by (auto intro: safe_history_same)
  qed
  with new(1) show ?thesis by simp
qed

lemma keeps_safe:
  assumes "keeps ok vs s s'" "ok (sy_world s)" "safe_history spec (vs (sy_world s))"
  shows "ok (sy_world s') \<and> safe_history spec (vs (sy_world s'))
    \<and> set (vs (sy_world s)) \<subseteq> set (vs (sy_world s'))"
  using assms safe_history_drift by (auto simp: keeps_def drift_def)

text \<open>Updates of the object itself keep the status; those of the status keep the rest.\<close>

lemma object_update_safe:
  assumes "api_laws K ns name ok vs" "k_Update K aw s = ((e, aw'), s')" "ok (sy_world s)"
    "safe_history spec (vs (sy_world s))" "wf_Spec aw = spec"
  shows "ok (sy_world s') \<and> safe_history spec (vs (sy_world s'))
    \<and> (e = None \<longrightarrow> aw' \<in> set (vs (sy_world s')))"
proof -
  obtain w' where u: "cl_Update K aw (sy_world s) = ((e, aw'), w')" "sy_world s' = w'"
    using assms(2) by (auto simp: k_Update_def split: prod.splits)
  from assms(1) have g: "guarded ok vs (\<lambda>cur aw new. wf_Spec new = wf_Spec aw \<and> wf_Status new = wf_Status cur) (cl_Update K)"
    by (simp add: api_laws_def)
  from g assms(3) u have "ok w' \<and> (vs w' = vs (sy_world s) \<and> e \<noteq> None
    \<or> (\<exists>cur rest new. vs (sy_world s) = cur # rest \<and> vs w' = new # vs (sy_world s)
        \<and> wf_Spec new = wf_Spec aw \<and> wf_Status new = wf_Status cur \<and> (e = None \<longrightarrow> aw' = new)))"
    unfolding guarded_def by blast
  with assms(4,5) u(2) show ?thesis by (auto intro: safe_history_same)
qed

lemma status_update_safe:
  assumes "api_laws (rc_client R) ns name ok vs" "updates R ok vs s aw' s'" "ok (sy_world s)"
    "safe_history spec (vs (sy_world s))" "aw \<in> set (vs (sy_world s))" "wf_Meta aw' = wf_Meta aw"
    and status: "\<And>new. wf_Spec new = wf_Spec aw \<Longrightarrow> wf_Status new = wf_Status aw' \<Longrightarrow>
      evolves aw new \<and> version_ok spec new"
  shows "ok (sy_world s') \<and> safe_history spec (vs (sy_world s'))"
proof -
  from assms(2) obtain s1 e aw2 s2 where u: "keeps ok vs s s1"
    "k_UpdateStatus (rc_client R) aw' s1 = ((e, aw2), s2)" "keeps ok vs s2 s'" by (auto simp: updates_def)
  note s1 = keeps_safe [OF u(1) assms(3,4)]
  obtain w2 where w2: "cl_UpdateStatus (rc_client R) aw' (sy_world s1) = ((e, aw2), w2)" "sy_world s2 = w2"
    using u(2) by (auto simp: k_UpdateStatus_def split: prod.splits)
  from assms(1) have g: "guarded ok vs (\<lambda>cur aw new. wf_Spec new = wf_Spec cur \<and> wf_Status new = wf_Status aw)
      (cl_UpdateStatus (rc_client R))"
    and inj: "inj_on version_of (set (vs (sy_world s1)))" using s1 by (simp_all add: api_laws_def)
  from g s1 w2 have "ok w2 \<and> (vs w2 = vs (sy_world s1)
    \<or> (\<exists>cur rest new. vs (sy_world s1) = cur # rest \<and> version_of aw' = version_of cur
        \<and> vs w2 = new # vs (sy_world s1) \<and> wf_Spec new = wf_Spec cur \<and> wf_Status new = wf_Status aw'))"
    unfolding guarded_def by blast
  moreover have "safe_history spec (new # cur # rest)"
    if c: "vs (sy_world s1) = cur # rest" "version_of aw' = version_of cur" "wf_Spec new = wf_Spec cur"
      "wf_Status new = wf_Status aw'" for cur rest new
  proof -
    have "version_of aw = version_of cur" using c(2) assms(6) by (simp add: version_of_def)
    moreover have "aw \<in> set (vs (sy_world s1))" "cur \<in> set (vs (sy_world s1))" using s1 assms(5) c(1) by auto
    ultimately have "aw = cur" using inj by (auto dest: inj_onD)
    with status [of new] c s1 show ?thesis by (auto intro: safe_history_add)
  qed
  ultimately have "ok (sy_world s2) \<and> safe_history spec (vs (sy_world s2))" using s1 w2(2) by auto
  with keeps_safe [OF u(3)] show ?thesis by blast
qed

section \<open>Calls and reachable worlds\<close>

lemma statuses_cong: "wf_Status v = wf_Status u \<Longrightarrow> statuses v = statuses u"
  by (simp add: statuses_def)

lemma ensure_finalizer_safe:
  assumes "api_laws (rc_client R) ns name ok vs" "ensure_finalizer R aw s = (r, s')" "ok (sy_world s)"
    "safe_history spec (vs (sy_world s))" "aw \<in> set (vs (sy_world s))"
  shows "ok (sy_world s') \<and> safe_history spec (vs (sy_world s')) \<and> (\<forall>aw1. r = Inr aw1 \<longrightarrow> aw1 \<in> set (vs (sy_world s')))"
proof (cases "cl_ContainsFinalizer (rc_client R) aw workflowFinalizer")
  case True
  with assms show ?thesis by (auto simp: ensure_finalizer_def)
next
  case False
  let ?aw = "cl_AddFinalizer (rc_client R) aw workflowFinalizer"
  obtain e aw' s1 where u: "k_Update (rc_client R) ?aw s = ((e, aw'), s1)" by (metis surj_pair)
  have "wf_Spec ?aw = spec" using assms(1,4,5) by (simp add: api_laws_def safe_history_def version_ok_def)
  from object_update_safe [OF assms(1) u assms(3,4) this] False u assms(2) show ?thesis
    by (auto simp: ensure_finalizer_def split: option.splits)
qed

lemma reconcile_delete_safe:
  assumes "api_laws (rc_client R) ns name ok vs" "reconcile_delete R aw s = (out, s')" "ok (sy_world s)"
    "safe_history spec (vs (sy_world s))" "aw \<in> set (vs (sy_world s))"
  shows "ok (sy_world s') \<and> safe_history spec (vs (sy_world s'))"
proof (cases "cl_ContainsFinalizer (rc_client R) aw workflowFinalizer")
  case False
  with assms show ?thesis by (auto simp: reconcile_delete_def)
next
  case True
  let ?aw = "cl_RemoveFinalizer (rc_client R) aw workflowFinalizer"
  obtain e aw' s1 where u: "k_Update (rc_client R) ?aw s = ((e, aw'), s1)" by (metis surj_pair)
  have "wf_Spec ?aw = spec" using assms(1,4,5) by (simp add: api_laws_def safe_history_def version_ok_def)
  from object_update_safe [OF assms(1) u assms(3,4) this] True u assms(2) show ?thesis
    by (auto simp: reconcile_delete_def split: option.splits)
qed

lemma reconcile_init_safe:
  assumes "api_laws (rc_client R) ns name ok vs" "reconcile_init R aw s = (out, s')" "ok (sy_world s)"
    "safe_history spec (vs (sy_world s))" "aw \<in> set (vs (sy_world s))" "st_TaskStatuses (wf_Status aw) = None"
  shows "ok (sy_world s') \<and> safe_history spec (vs (sy_world s'))"
proof -
  from final_updates(1) [OF api_calm [OF assms(1)] assms(2)] obtain aw' where u: "status_writes (effects s s') = [aw']"
    "updates R ok vs s aw' s'" by blast
  from reconcile_init_spec [OF assms(2)] u(1) have w: "wrote aw (init_statuses fmempty (sp_Tasks (wf_Spec aw)))
      WorkflowPhasePending aw'" by (auto dest: one_write_eq)
  have "wf_Spec aw = spec" using assms(4,5) by (simp add: safe_history_def version_ok_def)
  with w show ?thesis
    by (intro status_update_safe [OF assms(1) u(2) assms(3,4,5)])
      (auto simp: wrote_def evolves_def version_ok_def assms(6) dag_ok_init)
qed

context task_optimizer
begin

lemma reconcile_active_safe:
  assumes "api_laws (rc_client R) ns name ok vs" "calm_services R ok vs" "fair_ranges R" "rc_Optimizer R = Plan"
    "distinct (task_names spec)" "reconcile_active R aw s = (out, s')" "ok (sy_world s)"
    "safe_history spec (vs (sy_world s))" "aw \<in> set (vs (sy_world s))"
    "st_TaskStatuses (wf_Status aw) = Some m" "\<not> is_terminal (st_Phase (wf_Status aw))"
  shows "ok (sy_world s') \<and> safe_history spec (vs (sy_world s'))"
proof -
  have aw: "wf_Spec aw = spec" "dag_ok spec m"
    using assms(8,9,10) by (auto simp: safe_history_def version_ok_def)
  from active_writes_once [OF api_calm [OF assms(1)] assms(2,3,10,6)] consider "keeps ok vs s s'"
    | aw' where "aw' \<in> set (status_writes (effects s s'))" "updates R ok vs s aw' s'"
    unfolding writes_once_def by blast
  then show ?thesis
  proof cases
    case 1
    from keeps_safe [OF 1 assms(7,8)] show ?thesis by blast
  next
    case (2 aw')
    have run: "active_run R aw m (fst (list_pods R aw s)) out (effects s s')"
      using active_run_intro [OF assms(10,3,6)] by simp
    from run assms(4) 2(1) obtain pods started p where w: "fst (list_pods R aw s) = Inr pods"
      "status_writes (effects s s') = [aw']"
      "wrote aw (start_all (rc_lib R) (om_Name (wf_Meta aw)) started (synced pods m)) p aw'" by (rule active_write)
    have "dag_ok spec (statuses aw')"
      using active_dag_ok [OF run assms(4) 2(1)] assms(5) aw by simp
    with w(3) active_phase_step [OF run assms(4) 2(1)] aw(1) assms(10,11) show ?thesis
      by (intro status_update_safe [OF assms(1) 2(2) assms(7,8,9)])
        (auto simp: wrote_def evolves_def version_ok_def statuses_cong [of _ aw'])
  qed
qed

lemma reconcile_safe:
  assumes "api_laws (rc_client R) ns name ok vs" "calm_services R ok vs" "fair_ranges R" "rc_Optimizer R = Plan"
    "distinct (task_names spec)" "Reconcile R ns name s = (out, s')" "ok (sy_world s)"
    "safe_history spec (vs (sy_world s))"
  shows "ok (sy_world s') \<and> safe_history spec (vs (sy_world s'))"
proof -
  obtain r s1 where g: "k_GetWorkflow (rc_client R) ns name s = (r, s1)" by fastforce
  note s1 = keeps_safe [OF calm_calls(1) [OF api_calm [OF assms(1)] g] assms(7,8)]
  show ?thesis
  proof (cases r)
    case (Inl e)
    with g s1 assms(6) show ?thesis by (auto simp: Reconcile_def split: if_splits)
  next
    case (Inr aw)
    with g assms(1,7) have aw: "aw \<in> set (vs (sy_world s1))"
      by (auto simp: k_GetWorkflow_def api_laws_def split: prod.splits)
    show ?thesis
    proof (cases "om_DeletionTimestamp (wf_Meta aw) = None")
      case False
      with assms(6) g Inr have "reconcile_delete R aw s1 = (out, s')" by (auto simp: Reconcile_def)
      from reconcile_delete_safe [OF assms(1) this] s1 aw show ?thesis by blast
    next
      case True
      obtain f s2 where f: "ensure_finalizer R aw s1 = (f, s2)" by fastforce
      note s2 = ensure_finalizer_safe [OF assms(1) f conjunct1 [OF s1] conjunct1 [OF conjunct2 [OF s1]] aw]
      show ?thesis
      proof (cases f)
        case (Inl e)
        with True g Inr f s2 assms(6) show ?thesis by (auto simp: Reconcile_def)
      next
        case (Inr aw1)
        with s2 have aw1: "aw1 \<in> set (vs (sy_world s2))" by blast
        have "loads R ns name s aw1 s2" using g \<open>r = Inr aw\<close> True f Inr by (auto simp: loads_def)
        from Reconcile_loaded [OF this] assms(6) consider
            "reconcile_init R aw1 s2 = (out, s')" "st_TaskStatuses (wf_Status aw1) = None"
          | "s' = s2"
          | m where "reconcile_active R aw1 s2 = (out, s')" "st_TaskStatuses (wf_Status aw1) = Some m"
              "\<not> is_terminal (st_Phase (wf_Status aw1))"
          by (auto split: if_splits)
        then show ?thesis
        proof cases
          case 1
          with reconcile_init_safe [OF assms(1) _ _ _ aw1] s2 show ?thesis by blast
        next
          case 2
          with s2 show ?thesis by simp
        next
          case (3 m)
          with reconcile_active_safe [OF assms(1-5) 3(1) _ _ aw1] s2 show ?thesis by blast
        qed
      qed
    qed
  qed
qed

end

text \<open>The worlds the controller can get into, calls and the actions of others in any order.\<close>

inductive reachable :: "('w, 'q) reconciler \<Rightarrow> string \<Rightarrow> string \<Rightarrow> ('w \<Rightarrow> bool)
    \<Rightarrow> ('w \<Rightarrow> 'q AdaptiveWorkflow list) \<Rightarrow> 'w \<Rightarrow> 'w \<Rightarrow> bool" for R ns name ok vs w0 where
  start: "reachable R ns name ok vs w0 w0"
| call: "\<lbrakk> reachable R ns name ok vs w0 w; Reconcile R ns name \<lparr> sy_world = w, sy_trace = [] \<rparr> = (out, s') \<rbrakk>
   \<Longrightarrow> reachable R ns name ok vs w0 (sy_world s')"
| others: "\<lbrakk> reachable R ns name ok vs w0 w; ok w'; drift (vs w) (vs w') \<rbrakk> \<Longrightarrow> reachable R ns name ok vs w0 w'"

context task_optimizer
begin

lemma reachable_safe:
  assumes "reachable R ns name ok vs w0 w"
    "api_laws (rc_client R) ns name ok vs" "calm_services R ok vs" "fair_ranges R" "rc_Optimizer R = Plan"
    "distinct (task_names spec)" "ok w0" "safe_history spec (vs w0)"
  shows "ok w \<and> safe_history spec (vs w)"
  using assms(1)
proof induction
  case start
  with assms(7,8) show ?case by simp
next
  case (call w out s')
  with reconcile_safe [OF assms(2-6) call(2)] show ?case by simp
next
  case (others w w')
  with safe_history_drift show ?case by blast
qed

end

section \<open>The in-memory cluster obeys the laws\<close>

definition mem_ok :: "'q cluster \<Rightarrow> bool" where
  "mem_ok w \<longleftrightarrow> map version_of (cu_versions w) = rev (map dec_nat [0..<length (cu_versions w)])"

lemma dec_nat_inj: "dec_nat m = dec_nat n \<Longrightarrow> m = n"
  by (metis undec_dec_nat)

lemma mem_ok_inj: "mem_ok w \<Longrightarrow> inj_on version_of (set (cu_versions w))"
proof -
  assume "mem_ok w"
  moreover have "distinct (map dec_nat [0..<n])" for n
    by (simp add: distinct_map inj_on_def) (blast dest: dec_nat_inj)
  ultimately have "distinct (map version_of (cu_versions w))" by (simp add: mem_ok_def)
  then show ?thesis by (simp add: distinct_map)
qed

lemma mem_commit_guarded:
  fixes merge :: "'q AdaptiveWorkflow \<Rightarrow> 'q AdaptiveWorkflow \<Rightarrow> 'q AdaptiveWorkflow"
  assumes "\<And>cur aw v. P cur aw (with_version v (merge cur aw))"
  shows "guarded mem_ok cu_versions P (mem_commit merge)"
proof -
  have v: "version_of (with_version v aw) = dec_nat (length (cu_versions v))" for v :: "'q cluster" and aw
    by (simp add: version_of_def with_version_def)
  show ?thesis
    unfolding guarded_def
    by (auto simp: mem_commit_def Let_def mem_ok_def v assms split: list.splits if_splits)
qed

lemma mem_calm: "(\<And>w. cu_versions (f w) = cu_versions w) \<Longrightarrow> calm mem_ok cu_versions f"
  by (simp add: calm_def mem_ok_def)

lemma mem_laws: "api_laws mem_client ns name mem_ok cu_versions"
proof -
  have w: "wf_Spec (with_version v aw) = wf_Spec aw" "wf_Status (with_version v aw) = wf_Status aw"
    for v :: "'q cluster" and aw by (simp_all add: with_version_def)
  have sel: "cl_GetWorkflow mem_client = mem_Get" "cl_CreatePod mem_client = mem_Create"
    "cl_Update mem_client = mem_commit (\<lambda>cur aw. aw \<lparr> wf_Status := wf_Status cur \<rparr>)"
    "cl_UpdateStatus mem_client = mem_commit (\<lambda>cur aw. cur \<lparr> wf_Status := wf_Status aw \<rparr>)"
    by (simp_all add: mem_client_def)
  have "aw \<in> set (cu_versions w')" if "mem_Get ns name w = (Inr aw, w')" for aw :: "'q AdaptiveWorkflow" and w w'
    using that by (auto simp: mem_Get_def split: list.splits if_splits)
  moreover have "calm mem_ok cu_versions (\<lambda>w :: 'q cluster. snd (mem_Create p w))" for p
    by (rule mem_calm) (simp add: mem_Create_def)
  ultimately show ?thesis
    unfolding api_laws_def calm_client_def sel
    by (auto simp: mem_ok_inj w intro!: mem_commit_guarded mem_calm)
      (auto simp: mem_client_def mem_Get_def mem_Create_def version_of_def)
qed

lemma ex_services: "calm_services ex_R mem_ok cu_versions"
  unfolding calm_services_def
  by (auto simp: BaselineEngine_def GreedyOptimizer_def NoOpStateDB_def NoOpStateDB_RecordExecution_def
      intro!: mem_calm)

section \<open>Properties\<close>

text \<open>The example cluster with task \<open>a\<close> succeeded and its dependent \<open>c\<close> running.\<close>

definition ex_later :: "rat TaskStatuses" where
  "ex_later = fmupd ''c'' (ex_status TaskPhaseRunning) (fmupd ''a'' (ex_status TaskPhaseSucceeded) ex_statuses)"

definition ex_world :: "rat cluster" where
  "ex_world = \<lparr> cu_versions = [ex_wf WorkflowPhaseRunning (Some ex_later)], cu_pods = [], cu_clock = 0 \<rparr>"

lemma ex_world_ok: "mem_ok ex_world"
  by code_simp

lemma ex_world_safe: "safe_history ex_spec (cu_versions ex_world)"
  by (simp add: safe_history_def version_ok_def ex_world_def dag_ok_def ex_later_def ex_spec_def ex_task_def
      ex_status_def ex_statuses_def)

lemma ex_R_client: "api_laws (rc_client ex_R) ns name mem_ok cu_versions"
  by (simp add: mem_laws)




definition ex_world2 :: "rat cluster" where
  "ex_world2 = sy_world (snd (Reconcile ex_R ''ns'' ''wf'' \<lparr> sy_world = ex_world, sy_trace = [] \<rparr>))"

lemma ex_world2_versions: "length (cu_versions ex_world2) = 2"
  by code_simp


end
