(* ===== verification/Cpp_Optimizer.thy ===== *)
theory Cpp_Optimizer
  imports Grpc
begin

text \<open>
  The optimizer service in C++: the structures and the scheduler of
  \<^verbatim>\<open>optimizer-service/src/greedy_optimizer.h\<close> and \<^verbatim>\<open>greedy_optimizer.cpp\<close>, the gRPC handler and
  the start-up of \<^verbatim>\<open>main.cpp\<close>. It answers the same requests as the Go server.

  Conventions. Where the language gives a computation no meaning, a signed sum that overflows
  or a conversion of a double that does not fit into the integer type, the result is \<open>None\<close>. The
  iteration order of the hash maps is an argument, as for Go's maps. Log output is left out.
\<close>

section \<open>Structures\<close>

record cpp_ResourceHint =
  ch_cpu_millicores :: int64
  ch_memory_mib :: int64

record cpp_DAGTask =
  ct_name :: string
  ct_image :: string
  ct_command :: "string list"
  ct_dependencies :: "string list"
  ct_base_resources :: cpp_ResourceHint
  ct_has_base_resources :: bool

record cpp_TaskStatus =
  cs_phase :: string
  cs_pod_name :: string
  cs_allocated_cpu_millicores :: int64
  cs_allocated_memory_mib :: int64

record cpp_TaskPrediction =
  cp_cpu_millicores :: int64
  cp_memory_mib :: int64
  cp_estimated_duration_s :: float64
  cp_confidence :: float64

record cpp_ResourceLimit =
  cl_cpu_millicores :: int64
  cl_memory_mib :: int64

record cpp_TaskAllocation =
  ca_task_name :: string
  ca_cpu_request_millicores :: int64
  ca_memory_request_mib :: int64
  ca_cpu_limit_millicores :: int64
  ca_memory_limit_mib :: int64

record cpp_PlanRequest =
  cq_workflow_name :: string
  cq_optimization_goal :: string
  cq_tasks :: "cpp_DAGTask list"
  cq_task_statuses :: "(string, cpp_TaskStatus) fmap"
  cq_predictions :: "(string, cpp_TaskPrediction) fmap"
  cq_max_resources :: cpp_ResourceLimit
  cq_has_max_resources :: bool

record cpp_PlanResponse =
  cr_tasks_to_start :: "cpp_TaskAllocation list"

section \<open>Arithmetic\<close>

definition cpp_add :: "int64 \<Rightarrow> int64 \<Rightarrow> int64 option" where
  "cpp_add a b = (if int64_range (sint a + sint b) then Some (a + b) else None)"

text \<open>\<^verbatim>\<open>static_cast<int64_t>\<close> of a double, given the double rounded towards zero.\<close>

definition cpp_cast_int64 :: "int \<Rightarrow> int64 option" where
  "cpp_cast_int64 v = (if int64_range v then Some (word_of_int v) else None)"

definition cpp_times_1_5 :: "int64 \<Rightarrow> int64 option" where
  "cpp_times_1_5 x = cpp_cast_int64 (f64_round_int (3 * f64_round_int (sint x)) sdiv 2)"

text \<open>The constant \<^verbatim>\<open>kLimitMultiplier\<close> is 2.0; doubling a double is exact.\<close>

definition cpp_times_kLimitMultiplier :: "int64 \<Rightarrow> int64 option" where
  "cpp_times_kLimitMultiplier x = cpp_cast_int64 (2 * f64_round_int (sint x))"

definition kDefaultCpuMillicores :: int64 where
  "kDefaultCpuMillicores = 100"

definition kDefaultMemoryMib :: int64 where
  "kDefaultMemoryMib = 128"

section \<open>The scheduler\<close>

definition cpp_ResolveResources :: "cpp_DAGTask \<Rightarrow> (string, cpp_TaskPrediction) fmap \<Rightarrow> cpp_TaskAllocation option" where
  "cpp_ResolveResources task predictions =
     (case fmlookup predictions (ct_name task) of
        Some pred \<Rightarrow> do {
          cpu \<leftarrow> cpp_times_1_5 (cp_cpu_millicores pred);
          mem \<leftarrow> cpp_times_1_5 (cp_memory_mib pred);
          Some \<lparr> ca_task_name = '''', ca_cpu_request_millicores = cp_cpu_millicores pred,
                 ca_memory_request_mib = cp_memory_mib pred, ca_cpu_limit_millicores = cpu, ca_memory_limit_mib = mem \<rparr> }
      | None \<Rightarrow>
          let base = ct_base_resources task in
          if ct_has_base_resources task \<and> (sint (ch_cpu_millicores base) > 0 \<or> sint (ch_memory_mib base) > 0)
          then do {
            cpu \<leftarrow> cpp_times_kLimitMultiplier (ch_cpu_millicores base);
            mem \<leftarrow> cpp_times_kLimitMultiplier (ch_memory_mib base);
            Some \<lparr> ca_task_name = '''', ca_cpu_request_millicores = ch_cpu_millicores base,
                   ca_memory_request_mib = ch_memory_mib base, ca_cpu_limit_millicores = cpu, ca_memory_limit_mib = mem \<rparr> }
          else do {
            cpu \<leftarrow> cpp_times_kLimitMultiplier kDefaultCpuMillicores;
            mem \<leftarrow> cpp_times_kLimitMultiplier kDefaultMemoryMib;
            Some \<lparr> ca_task_name = '''', ca_cpu_request_millicores = kDefaultCpuMillicores,
                   ca_memory_request_mib = kDefaultMemoryMib, ca_cpu_limit_millicores = cpu, ca_memory_limit_mib = mem \<rparr> })"

fun cpp_usage_loop :: "(string \<times> cpp_TaskStatus) list \<Rightarrow> int64 \<Rightarrow> int64 \<Rightarrow> (int64 \<times> int64) option" where
  "cpp_usage_loop [] current_cpu current_mem = Some (current_cpu, current_mem)"
| "cpp_usage_loop ((name, status) # rest) current_cpu current_mem =
     (if cs_phase status = ''Running''
      then do {
        cpu \<leftarrow> cpp_add current_cpu (cs_allocated_cpu_millicores status);
        mem \<leftarrow> cpp_add current_mem (cs_allocated_memory_mib status);
        cpp_usage_loop rest cpu mem }
      else cpp_usage_loop rest current_cpu current_mem)"

fun cpp_ready_loop :: "(string, cpp_TaskStatus) fmap \<Rightarrow> string list \<Rightarrow> bool" where
  "cpp_ready_loop statuses [] = True"
| "cpp_ready_loop statuses (dep # deps) = (case fmlookup statuses dep of
     None \<Rightarrow> False
   | Some status \<Rightarrow> if cs_phase status \<noteq> ''Succeeded'' then False else cpp_ready_loop statuses deps)"

fun cpp_plan_loop :: "int64 \<Rightarrow> int64 \<Rightarrow> cpp_PlanRequest \<Rightarrow> cpp_DAGTask list \<Rightarrow> int64 \<Rightarrow> int64
    \<Rightarrow> cpp_TaskAllocation list \<Rightarrow> cpp_TaskAllocation list option" where
  "cpp_plan_loop max_cpu max_mem request [] current_cpu current_mem tasks_to_start = Some tasks_to_start"
| "cpp_plan_loop max_cpu max_mem request (task # tasks) current_cpu current_mem tasks_to_start =
     (if (case fmlookup (cq_task_statuses request) (ct_name task) of
            Some status \<Rightarrow> cs_phase status \<noteq> ''Pending'' | None \<Rightarrow> False)
      then cpp_plan_loop max_cpu max_mem request tasks current_cpu current_mem tasks_to_start
      else if \<not> cpp_ready_loop (cq_task_statuses request) (ct_dependencies task)
      then cpp_plan_loop max_cpu max_mem request tasks current_cpu current_mem tasks_to_start
      else do {
        alloc0 \<leftarrow> cpp_ResolveResources task (cq_predictions request);
        let alloc = alloc0\<lparr> ca_task_name := ct_name task \<rparr>;
        new_cpu \<leftarrow> cpp_add current_cpu (ca_cpu_request_millicores alloc);
        new_mem \<leftarrow> cpp_add current_mem (ca_memory_request_mib alloc);
        (if sint max_cpu > 0 \<and> sint new_cpu > sint max_cpu
         then cpp_plan_loop max_cpu max_mem request tasks current_cpu current_mem tasks_to_start
         else if sint max_mem > 0 \<and> sint new_mem > sint max_mem
         then cpp_plan_loop max_cpu max_mem request tasks current_cpu current_mem tasks_to_start
         else cpp_plan_loop max_cpu max_mem request tasks new_cpu new_mem (tasks_to_start @ [alloc])) })"

definition cpp_GreedyOptimizer_Plan :: "(string, cpp_TaskStatus) map_order \<Rightarrow> cpp_PlanRequest \<Rightarrow> cpp_PlanResponse option" where
  "cpp_GreedyOptimizer_Plan ord request = do {
     (current_cpu, current_mem) \<leftarrow> cpp_usage_loop (go_range ord (cq_task_statuses request)) 0 0;
     let max_cpu = (if cq_has_max_resources request then cl_cpu_millicores (cq_max_resources request) else 0);
     let max_mem = (if cq_has_max_resources request then cl_memory_mib (cq_max_resources request) else 0);
     started \<leftarrow> cpp_plan_loop max_cpu max_mem request (cq_tasks request) current_cpu current_mem [];
     Some \<lparr> cr_tasks_to_start = started \<rparr> }"

section \<open>The service\<close>

definition cpp_task :: "pb_DAGTask \<Rightarrow> cpp_DAGTask" where
  "cpp_task t = \<lparr> ct_name = dt_Name t, ct_image = dt_Image t, ct_command = dt_Command t,
     ct_dependencies = dt_Dependencies t,
     ct_base_resources = (case dt_BaseResources t of
        Some h \<Rightarrow> \<lparr> ch_cpu_millicores = rh_CpuMillicores h, ch_memory_mib = rh_MemoryMib h \<rparr>
      | None \<Rightarrow> \<lparr> ch_cpu_millicores = 0, ch_memory_mib = 0 \<rparr>),
     ct_has_base_resources = (dt_BaseResources t \<noteq> None) \<rparr>"

definition cpp_status :: "pb_TaskStatus \<Rightarrow> cpp_TaskStatus" where
  "cpp_status s = \<lparr> cs_phase = ps_Phase s, cs_pod_name = ps_PodName s,
     cs_allocated_cpu_millicores = ps_AllocatedCpuMillicores s, cs_allocated_memory_mib = ps_AllocatedMemoryMib s \<rparr>"

definition cpp_prediction :: "pb_TaskPrediction \<Rightarrow> cpp_TaskPrediction" where
  "cpp_prediction p = \<lparr> cp_cpu_millicores = pp_CpuMillicores p, cp_memory_mib = pp_MemoryMib p,
     cp_estimated_duration_s = pp_EstimatedDurationS p, cp_confidence = pp_Confidence p \<rparr>"

definition cpp_limit :: "pb_ResourceLimit option \<Rightarrow> cpp_ResourceLimit" where
  "cpp_limit mx = (case mx of
     Some m \<Rightarrow> \<lparr> cl_cpu_millicores = rm_CpuMillicores m, cl_memory_mib = rm_MemoryMib m \<rparr>
   | None \<Rightarrow> \<lparr> cl_cpu_millicores = 0, cl_memory_mib = 0 \<rparr>)"

definition ProtoToPlanRequest :: "(string, pb_TaskStatus) map_order \<Rightarrow> (string, pb_TaskPrediction) map_order
    \<Rightarrow> pb_PlanRequest \<Rightarrow> cpp_PlanRequest" where
  "ProtoToPlanRequest ords ordp proto_req =
     \<lparr> cq_workflow_name = pq_WorkflowName proto_req, cq_optimization_goal = pq_OptimizationGoal proto_req,
       cq_tasks = map cpp_task (pq_Tasks proto_req),
       cq_task_statuses = copy_loop cpp_status (go_range ords (pq_TaskStatuses proto_req)) fmempty,
       cq_predictions = copy_loop cpp_prediction (go_range ordp (pq_Predictions proto_req)) fmempty,
       cq_max_resources = cpp_limit (pq_MaxResources proto_req),
       cq_has_max_resources = (pq_MaxResources proto_req \<noteq> None) \<rparr>"

definition cpp_allocation_message :: "cpp_TaskAllocation \<Rightarrow> pb_TaskAllocation" where
  "cpp_allocation_message alloc = \<lparr> pa_TaskName = ca_task_name alloc,
     pa_CpuRequestMillicores = ca_cpu_request_millicores alloc, pa_MemoryRequestMib = ca_memory_request_mib alloc,
     pa_CpuLimitMillicores = ca_cpu_limit_millicores alloc, pa_MemoryLimitMib = ca_memory_limit_mib alloc \<rparr>"

definition PlanResponseToProto :: "cpp_PlanResponse \<Rightarrow> pb_PlanResponse" where
  "PlanResponseToProto response = \<lparr> pr_TasksToStart = map cpp_allocation_message (cr_tasks_to_start response) \<rparr>"

text \<open>The handler; it always returns \<^verbatim>\<open>Status::OK\<close>.\<close>

definition OptimizerServiceImpl_Plan :: "(string, pb_TaskStatus) map_order \<Rightarrow> (string, pb_TaskPrediction) map_order
    \<Rightarrow> (string, cpp_TaskStatus) map_order \<Rightarrow> pb_PlanRequest \<Rightarrow> (go_error + pb_PlanResponse) option" where
  "OptimizerServiceImpl_Plan ords ordp ord request =
     map_option (\<lambda>response. Inr (PlanResponseToProto response))
       (cpp_GreedyOptimizer_Plan ord (ProtoToPlanRequest ords ordp request))"

text \<open>
  The start-up. The gRPC library is a parameter: \<open>BuildAndStart\<close> returns no server if the address
  cannot be used, \<open>Wait\<close> returns when the signal handler has shut the server down.
\<close>

definition cpp_server_address :: "(string \<rightharpoonup> string) \<Rightarrow> string" where
  "cpp_server_address env = ''0.0.0.0:'' @ (case env ''GRPC_PORT'' of Some port \<Rightarrow> port | None \<Rightarrow> ''50052'')"

definition cpp_main :: "(string \<Rightarrow> (pb_PlanRequest \<Rightarrow> (go_error + pb_PlanResponse) option) \<Rightarrow> 'w \<Rightarrow> 'srv option \<times> 'w)
    \<Rightarrow> ('srv \<Rightarrow> 'w \<Rightarrow> 'w) \<Rightarrow> (string, pb_TaskStatus) map_order \<Rightarrow> (string, pb_TaskPrediction) map_order
    \<Rightarrow> (string, cpp_TaskStatus) map_order \<Rightarrow> (string \<rightharpoonup> string) \<Rightarrow> 'w \<Rightarrow> nat \<times> 'w" where
  "cpp_main BuildAndStart Wait ords ordp ord env w =
     (case BuildAndStart (cpp_server_address env) (OptimizerServiceImpl_Plan ords ordp ord) w of
        (None, w1) \<Rightarrow> (1, w1)
      | (Some g_server, w1) \<Rightarrow> (0, Wait g_server w1))"

end
