(* ===== verification/Remote.thy ===== *)
theory Remote
  imports Grpc
begin

text \<open>
  The remote scheduler: the gRPC client talking to the optimizer server, which runs the greedy
  scheduler. Client and server convert quantities to whole millicores and mebibytes and back.
  The contract \<open>task_optimizer\<close> survives the conversions in any case; where the quantities
  are whole the remote scheduler plans as the local one, and where they are not it may not.
\<close>

section \<open>Map conversions\<close>

lemma copy_loop_lookup:
  "distinct (map fst xs) \<Longrightarrow> fmlookup (copy_loop f xs acc) n
    = (case map_of xs n of Some v \<Rightarrow> Some (f v) | None \<Rightarrow> fmlookup acc n)"
  by (induction xs arbitrary: acc) (force split: option.split dest: map_of_SomeD)+

lemma map_of_go_range: "map_order ord \<Longrightarrow> map_of (go_range ord m) n = fmlookup m n"
proof -
  assume o: "map_order ord"
  show ?thesis
  proof (cases "fmlookup m n")
    case None
    then have "n \<notin> fst ` set (go_range ord m)" by (auto simp: set_go_range [OF o])
    with None show ?thesis by (simp add: map_of_eq_None_iff)
  next
    case (Some v)
    then have "(n, v) \<in> set (go_range ord m)" by (simp add: set_go_range [OF o])
    with Some distinct_go_range [OF o] show ?thesis by (simp add: map_of_eq_Some_iff)
  qed
qed

lemma copy_loop_range:
  assumes "map_order ord"
  shows "copy_loop f (go_range ord m) fmempty = fmmap f m"
proof (rule fmap_ext)
  fix n
  show "fmlookup (copy_loop f (go_range ord m) fmempty) n = fmlookup (fmmap f m) n"
    by (simp add: copy_loop_lookup [OF distinct_go_range [OF assms]] map_of_go_range [OF assms] split: option.split)
qed

lemma convert_loop_Some:
  "convert_loop f xs acc = Some r \<Longrightarrow> r = copy_loop (\<lambda>v. the (f v)) xs acc \<and> (\<forall>(n, v) \<in> set xs. f v \<noteq> None)"
  by (induction xs arbitrary: acc) (fastforce split: option.splits)+

lemma convert_loop_total:
  "(\<And>n v. (n, v) \<in> set xs \<Longrightarrow> f v \<noteq> None) \<Longrightarrow> convert_loop f xs acc = Some (copy_loop (\<lambda>v. the (f v)) xs acc)"
  by (induction xs arbitrary: acc) (fastforce split: option.splits)+

lemma convert_loop_range:
  assumes "map_order ord" "convert_loop f (go_range ord m) fmempty = Some r"
  shows "r = fmmap (\<lambda>v. the (f v)) m" "\<And>n v. fmlookup m n = Some v \<Longrightarrow> f v \<noteq> None"
  using convert_loop_Some [OF assms(2)] by (auto simp: copy_loop_range [OF assms(1)] set_go_range [OF assms(1)])

section \<open>List conversions\<close>

lemma templates_loop_Some:
  "templates_loop L ts acc = Some r \<Longrightarrow> \<exists>us. r = acc @ us \<and> list_all2 (\<lambda>t u. template_of L t = Some u) ts us"
  by (induction ts arbitrary: acc) (fastforce split: option.splits)+

lemma allocations_loop_Some:
  "allocations_loop L ts acc = Some r \<Longrightarrow> \<exists>us. r = acc @ us \<and> list_all2 (\<lambda>t u. allocation_of L t = Some u) ts us"
  by (induction ts arbitrary: acc) (fastforce split: option.splits)+

lemma templates_loop_total:
  "(\<And>t. t \<in> set ts \<Longrightarrow> template_of L t \<noteq> None) \<Longrightarrow>
    templates_loop L ts acc = Some (acc @ map (\<lambda>t. the (template_of L t)) ts)"
  by (induction ts arbitrary: acc) (fastforce split: option.splits)+

lemma allocations_loop_total:
  "(\<And>t. t \<in> set ts \<Longrightarrow> allocation_of L t \<noteq> None) \<Longrightarrow>
    allocations_loop L ts acc = Some (acc @ map (\<lambda>t. the (allocation_of L t)) ts)"
  by (induction ts arbitrary: acc) (fastforce split: option.splits)+

lemma template_of_fields:
  "template_of L t = Some u \<Longrightarrow> tt_Name u = dt_Name t \<and> tt_Dependencies u = dt_Dependencies t"
  by (auto simp: template_of_def split: option.splits Option.bind_splits)

lemma allocation_of_name: "allocation_of L t = Some u \<Longrightarrow> ta_TaskName u = pa_TaskName t"
  by (auto simp: allocation_of_def split: Option.bind_splits)

lemma status_of_phase: "status_of L s = Some ts \<Longrightarrow> ts_Phase ts = ps_Phase s"
  by (auto simp: status_of_def split: Option.bind_splits)

section \<open>Transport\<close>

text \<open>
  The transport: an answer is one the server's handler gave to this request, and an answer the
  handler gives arrives. \<open>loopback\<close> is such a transport.
\<close>

definition served_by :: "('req \<Rightarrow> 'w \<Rightarrow> (go_error + 'resp) \<times> 'w) \<Rightarrow> ('req \<Rightarrow> (go_error + 'resp) option) \<Rightarrow> bool" where
  "served_by rpc handler \<longleftrightarrow> (\<forall>req w resp w'. rpc req w = (Inr resp, w') \<longrightarrow> handler req = Some (Inr resp))"

definition delivers :: "('req \<Rightarrow> 'w \<Rightarrow> (go_error + 'resp) \<times> 'w) \<Rightarrow> ('req \<Rightarrow> (go_error + 'resp) option) \<Rightarrow> bool" where
  "delivers rpc handler \<longleftrightarrow> (\<forall>req w resp. handler req = Some (Inr resp) \<longrightarrow> (\<exists>w'. rpc req w = (Inr resp, w')))"

definition loopback :: "('req \<Rightarrow> (go_error + 'resp) option) \<Rightarrow> 'req \<Rightarrow> 'w \<Rightarrow> (go_error + 'resp) \<times> 'w" where
  "loopback handler req w = (case handler req of
     Some r \<Rightarrow> (r, w) | None \<Rightarrow> (Inl (Err ''rpc error: code = Unavailable''), w))"

lemma loopback_laws: "served_by (loopback handler) handler" "delivers (loopback handler) handler"
  by (auto simp: served_by_def delivers_def loopback_def split: option.splits)

section \<open>The contract on the wire\<close>

text \<open>
  What a plan request says of the phases of tasks, and which tasks of it may start. The locale
  is the contract of a server of plans, whatever it is written in: it starts tasks of the
  request that may start, each at most once, in the order of the request. \<open>ord\<close> is the order in
  which the server visits the statuses. A client of such a server is a \<open>task_optimizer\<close>.
\<close>

definition wire_phase :: "pb_PlanRequest \<Rightarrow> string \<Rightarrow> string option" where
  "wire_phase req n = map_option ps_Phase (fmlookup (pq_TaskStatuses req) n)"

definition wire_startable :: "pb_PlanRequest \<Rightarrow> pb_DAGTask \<Rightarrow> bool" where
  "wire_startable req t \<longleftrightarrow> wire_phase req (dt_Name t) \<in> {None, Some TaskPhasePending}
     \<and> (\<forall>d \<in> set (dt_Dependencies t). wire_phase req d = Some TaskPhaseSucceeded)"

lemma wire_phase_request: "map_order ords \<Longrightarrow>
    wire_phase (plan_request L ords ordp spec sts preds) n = phase_of sts n"
  by (simp add: wire_phase_def plan_request_def copy_loop_range status_message_def phase_of_def
      option.map_comp comp_def split: option.split)

lemma wire_startable_request: "map_order ords \<Longrightarrow>
    wire_startable (plan_request L ords ordp spec sts preds) (dag_task L t) = startable sts t"
  by (simp add: wire_startable_def startable_def wire_phase_request dag_task_def)

lemma client_plan:
  assumes "OptimizerClient_Plan L ords ordp rpc spec sts preds w = (Some (Inr p), w')"
  obtains resp where "rpc (plan_request L ords ordp spec sts preds) w = (Inr resp, w')"
    "map ta_TaskName (pl_TasksToStart p) = map pa_TaskName (pr_TasksToStart resp)"
proof -
  from assms obtain resp where r: "rpc (plan_request L ords ordp spec sts preds) w = (Inr resp, w')"
    "list_all2 (\<lambda>t u. allocation_of L t = Some u) (pr_TasksToStart resp) (pl_TasksToStart p)"
    by (fastforce simp: OptimizerClient_Plan_def split: prod.splits sum.splits dest: allocations_loop_Some)
  from r(2) have "list_all2 (\<lambda>t u. ta_TaskName u = pa_TaskName t) (pr_TasksToStart resp) (pl_TasksToStart p)"
    by (rule list_all2_mono) (rule allocation_of_name)
  then have "map ta_TaskName (pl_TasksToStart p) = map pa_TaskName (pr_TasksToStart resp)"
    by (auto simp: list_all2_conv_all_nth intro: nth_equalityI)
  with r(1) show ?thesis by (rule that)
qed

locale plan_service =
  fixes handler :: "(string, pb_TaskStatus) map_order \<Rightarrow> pb_PlanRequest \<Rightarrow> (go_error + pb_PlanResponse) option"
  assumes starts_startable: "map_order ord \<Longrightarrow> handler ord req = Some (Inr resp) \<Longrightarrow>
      \<exists>ts. subseq ts (filter (wire_startable req) (pq_Tasks req))
        \<and> map pa_TaskName (pr_TasksToStart resp) = map dt_Name ts"
begin

lemma client_task_optimizer:
  assumes "map_order ord" "map_order ords" "served_by rpc (handler ord)"
  shows "task_optimizer (OptimizerClient_Plan L ords ordp rpc)"
proof
  fix spec sts preds w p w' a
  let ?req = "plan_request L ords ordp spec sts preds"
  assume "OptimizerClient_Plan L ords ordp rpc spec sts preds w = (Some (Inr p), w')"
  then obtain resp where r: "rpc ?req w = (Inr resp, w')"
    "map ta_TaskName (pl_TasksToStart p) = map pa_TaskName (pr_TasksToStart resp)" by (rule client_plan)
  from assms(3) r(1) have "handler ord ?req = Some (Inr resp)" unfolding served_by_def by blast
  from starts_startable [OF assms(1) this] r(2) obtain ts where
    ts: "subseq ts (filter (wire_startable ?req) (pq_Tasks ?req))"
      "map ta_TaskName (pl_TasksToStart p) = map dt_Name ts" by auto
  show "\<exists>t \<in> set (sp_Tasks spec). tt_Name t = ta_TaskName a \<and> startable sts t" if "a \<in> set (pl_TasksToStart p)"
  proof -
    from that have "ta_TaskName a \<in> set (map dt_Name ts)" unfolding ts(2) [symmetric] by simp
    then obtain u where "u \<in> set ts" "dt_Name u = ta_TaskName a" by auto
    with subseq_in_set [OF ts(1)] have "u \<in> set (pq_Tasks ?req)" "wire_startable ?req u" by auto
    then obtain t where "t \<in> set (sp_Tasks spec)" "u = dag_task L t" "startable sts t"
      by (auto simp: plan_request_def wire_startable_request [OF assms(2), unfolded plan_request_def])
    with \<open>dt_Name u = ta_TaskName a\<close> show ?thesis by (auto simp: dag_task_def)
  qed
  show "distinct (map ta_TaskName (pl_TasksToStart p))" if "distinct (task_names spec)"
  proof -
    from ts(1) have "subseq ts (pq_Tasks ?req)" by (meson subseq_filter_left subseq_order.order_trans)
    then have "subseq (map dt_Name ts) (map dt_Name (pq_Tasks ?req))" by (rule subseq_map)
    moreover have "map dt_Name (pq_Tasks ?req) = task_names spec"
      by (simp add: plan_request_def dag_task_def comp_def)
    ultimately show ?thesis using that ts(2) distinct_subseq by metis
  qed
qed

end

section \<open>The Go server keeps the contract\<close>

lemma protoToSpec_tasks:
  assumes "protoToSpec L req = Some spec'"
  shows "list_all2 (\<lambda>t u. tt_Name u = dt_Name t \<and> tt_Dependencies u = dt_Dependencies t) (pq_Tasks req) (sp_Tasks spec')"
proof -
  from assms obtain tasks where "templates_loop L (pq_Tasks req) [] = Some tasks" "sp_Tasks spec' = tasks"
    by (auto simp: protoToSpec_def split: Option.bind_splits)
  from templates_loop_Some [OF this(1)] this(2)
  have "list_all2 (\<lambda>t u. template_of L t = Some u) (pq_Tasks req) (sp_Tasks spec')" by auto
  then show ?thesis by (rule list_all2_mono) (rule template_of_fields)
qed

lemma protoToTaskStatuses_wire:
  assumes "map_order ord" "protoToTaskStatuses L ord (pq_TaskStatuses req) = Some sts'"
  shows "phase_of sts' n = wire_phase req n"
proof -
  note c = convert_loop_range [OF assms(1) assms(2) [unfolded protoToTaskStatuses_def]]
  show ?thesis
  proof (cases "fmlookup (pq_TaskStatuses req) n")
    case None
    then show ?thesis by (simp add: c(1) phase_of_def wire_phase_def)
  next
    case (Some s)
    then obtain ts' where "status_of L s = Some ts'" using c(2) [of n s] by blast
    with Some status_of_phase [OF this] show ?thesis by (simp add: c(1) phase_of_def wire_phase_def)
  qed
qed

lemma protoToTaskStatuses_phases:
  assumes "map_order ord" "map_order ords"
    "protoToTaskStatuses L ord (copy_loop (status_message L') (go_range ords sts) fmempty) = Some sts'"
  shows "phase_of sts' n = phase_of sts n"
  using protoToTaskStatuses_wire [OF assms(1), of L "plan_request L' ords ordp spec sts preds" sts' n for ordp spec preds]
    assms(3) wire_phase_request [OF assms(2), of L' _ _ sts _ n] by (simp add: plan_request_def)

lemma server_plan:
  assumes "optimizerServer_Plan L o1 o2 opt req = Some (Inr resp)"
  obtains spec sts preds plan where "protoToSpec L req = Some spec"
    "protoToTaskStatuses L o1 (pq_TaskStatuses req) = Some sts"
    "protoToPredictions L o2 (pq_Predictions req) = Some preds"
    "opt spec sts preds = Some (Inr plan)" "pr_TasksToStart resp = map (allocation_message L) (pl_TasksToStart plan)"
  using assms by (auto simp: optimizerServer_Plan_def split: Option.bind_splits sum.splits)

lemma filter_list_all2:
  "list_all2 P xs ys \<Longrightarrow> (\<And>x y. P x y \<Longrightarrow> p x = q y) \<Longrightarrow> list_all2 P (filter p xs) (filter q ys)"
  by (induction rule: list_all2_induct) auto

lemma subseq_list_all2: "subseq zs ys \<Longrightarrow> list_all2 P xs ys \<Longrightarrow> \<exists>ws. subseq ws xs \<and> list_all2 P ws zs"
proof (induction arbitrary: xs rule: list_emb.induct)
  case (list_emb_Nil ys)
  then show ?case by auto
next
  case (list_emb_Cons zs ys y)
  then obtain x xs' where "xs = x # xs'" "list_all2 P xs' ys" by (auto simp: list_all2_Cons2)
  with list_emb_Cons.IH [of xs'] show ?case by auto
next
  case (list_emb_Cons2 z y zs ys)
  then obtain x xs' where x: "xs = x # xs'" "list_all2 P xs' ys" "P x y" by (auto simp: list_all2_Cons2)
  from list_emb_Cons2.IH [OF x(2)] obtain ws where "subseq ws xs'" "list_all2 P ws zs" by blast
  with x list_emb_Cons2.hyps(1) show ?case by (intro exI [of _ "x # ws"]) auto
qed

lemma server_starts_startable:
  assumes "map_order o1" "optimizerServer_Plan L o1 o2 (GreedyOptimizer_Plan L o3) req = Some (Inr resp)"
  shows "\<exists>ts. subseq ts (filter (wire_startable req) (pq_Tasks req)) \<and> map pa_TaskName (pr_TasksToStart resp) = map dt_Name ts"
proof -
  let ?P = "\<lambda>t u. tt_Name u = dt_Name t \<and> tt_Dependencies u = dt_Dependencies t"
  from assms(2) obtain spec sts preds plan where s: "protoToSpec L req = Some spec"
    "protoToTaskStatuses L o1 (pq_TaskStatuses req) = Some sts" "GreedyOptimizer_Plan L o3 spec sts preds = Some (Inr plan)"
    "pr_TasksToStart resp = map (allocation_message L) (pl_TasksToStart plan)" by (rule server_plan)
  from s(3) obtain us where us: "subseq us (filter (startable sts) (sp_Tasks spec))"
    "map ta_TaskName (pl_TasksToStart plan) = map tt_Name us" by (rule greedy_shape)
  have "list_all2 ?P (filter (wire_startable req) (pq_Tasks req)) (filter (startable sts) (sp_Tasks spec))"
    using protoToSpec_tasks [OF s(1)]
    by (rule filter_list_all2) (simp add: startable_def wire_startable_def protoToTaskStatuses_wire [OF assms(1) s(2)])
  from subseq_list_all2 [OF us(1) this] obtain ts where
    ts: "subseq ts (filter (wire_startable req) (pq_Tasks req))" "list_all2 ?P ts us" by blast
  from ts(2) have "map dt_Name ts = map tt_Name us"
    by (auto simp: list_all2_conv_all_nth intro: nth_equalityI)
  with ts(1) us(2) s(4) show ?thesis by (intro exI [of _ ts]) (simp add: allocation_message_def comp_def)
qed

interpretation go_service: plan_service "\<lambda>o1. optimizerServer_Plan L o1 o2 (GreedyOptimizer_Plan L o3)" for L o2 o3
  by unfold_locales (rule server_starts_startable)

end
