(* ===== verification/Remote_Exact.thy ===== *)
theory Remote_Exact
  imports Remote
begin

text \<open>
  Quantities on the wire. A quantity travels as a whole number of millicores or mebibytes.
  \<open>whole_units\<close> says that nothing is lost; then the remote scheduler plans exactly as the local
  one. Without it the errors are bounded, but a limit below one mebibyte disappears, and limits
  a task does not have come back as zero.
\<close>

section \<open>Whole units\<close>

definition whole :: "('q \<Rightarrow> rat) \<Rightarrow> 'q ResourceList \<Rightarrow> int \<Rightarrow> int \<Rightarrow> bool" where
  "whole amt rl c m \<longleftrightarrow> 0 \<le> c \<and> c \<le> 2 ^ 51 \<and> 0 \<le> m \<and> m \<le> 2 ^ 40
     \<and> amount_of amt rl ResourceCPU = of_int c / 1000 \<and> amount_of amt rl ResourceMemory = of_int m * 2 ^ 20"

definition whole_units :: "('q \<Rightarrow> rat) \<Rightarrow> 'q ResourceList \<Rightarrow> bool" where
  "whole_units amt rl \<longleftrightarrow> (\<exists>c m. whole amt rl c m)"

definition same_amounts :: "('q \<Rightarrow> rat) \<Rightarrow> 'q ResourceList \<Rightarrow> 'q ResourceList \<Rightarrow> bool" where
  "same_amounts amt rl rl' \<longleftrightarrow> (\<forall>r \<in> {ResourceCPU, ResourceMemory}. amount_of amt rl r = amount_of amt rl' r)"

lemma amount_of_fmempty [simp]: "amount_of amt fmempty r = 0"
  by (simp add: amount_of_def)

lemma whole_fmempty: "whole amt fmempty 0 0"
  by (simp add: whole_def)

lemma whole_same: "whole amt rl c m \<Longrightarrow> whole amt rl' c m \<Longrightarrow> same_amounts amt rl rl'"
  by (auto simp: whole_def same_amounts_def)

lemma same_amounts_whole: "same_amounts amt rl rl' \<Longrightarrow> whole amt rl c m \<Longrightarrow> whole amt rl' c m"
  by (auto simp: whole_def same_amounts_def)

lemma cpu_millicores_value:
  assumes "quantity_values L amt" "0 \<le> amount_of amt rl ResourceCPU" "amount_of amt rl ResourceCPU < 2 ^ 52"
  shows "sint (cpu_millicores L rl) = \<lceil>1000 * amount_of amt rl ResourceCPU\<rceil>"
proof (cases "fmlookup rl ResourceCPU")
  case None
  then show ?thesis by (simp add: cpu_millicores_def amount_of_def)
next
  case (Some q)
  with assms have q: "0 \<le> amt q" "amt q < 2 ^ 52" by (simp_all add: amount_of_def)
  have "\<lceil>1000 * amt q\<rceil> \<le> 1000 * 2 ^ 52" using q by (simp add: ceiling_le_iff)
  with assms(1) q Some show ?thesis by (simp add: quantity_values_def cpu_millicores_def amount_of_def)
qed

lemma memory_mib_value:
  assumes "quantity_values L amt" "0 \<le> amount_of amt rl ResourceMemory" "amount_of amt rl ResourceMemory < 2 ^ 61"
  shows "sint (memory_mib L rl) = \<lceil>amount_of amt rl ResourceMemory\<rceil> div 2 ^ 20"
proof (cases "fmlookup rl ResourceMemory")
  case None
  then show ?thesis by (simp add: memory_mib_def amount_of_def)
next
  case (Some q)
  with assms have q: "0 \<le> amt q" "amt q < 2 ^ 61" by (simp_all add: amount_of_def)
  have "\<lceil>amt q\<rceil> \<le> 2 ^ 61" using q by (simp add: ceiling_le_iff)
  with assms(1) q have v: "sint (q_Value L q) = \<lceil>amt q\<rceil>" by (simp add: quantity_values_def)
  have "0 \<le> \<lceil>amt q\<rceil>" using q by linarith
  with Some v show ?thesis
    by (simp add: memory_mib_def amount_of_def sint_go_div64 sdiv_nonneg_pos)
qed

lemma whole_sent:
  assumes "quantity_values L amt" "whole amt rl c m"
  shows "sint (cpu_millicores L rl) = c" "sint (memory_mib L rl) = m"
proof -
  from assms(2) have b: "0 \<le> c" "c \<le> 2 ^ 51" "0 \<le> m" "m \<le> 2 ^ 40"
    "amount_of amt rl ResourceCPU = of_int c / 1000" "amount_of amt rl ResourceMemory = of_int m * 2 ^ 20"
    by (simp_all add: whole_def)
  have "(of_int c :: rat) \<le> of_int (2 ^ 51)" using b(2) by (simp only: of_int_le_iff)
  then have c: "0 \<le> (of_int c :: rat) / 1000" "(of_int c :: rat) / 1000 < 2 ^ 52" using b(1) by simp_all
  have "(of_int m :: rat) \<le> of_int (2 ^ 40)" using b(4) by (simp only: of_int_le_iff)
  then have m: "0 \<le> (of_int m :: rat) * 2 ^ 20" "(of_int m :: rat) * 2 ^ 20 < 2 ^ 61" using b(3) by simp_all
  have "\<lceil>(of_int m :: rat) * 2 ^ 20\<rceil> = m * 2 ^ 20"
    by (metis ceiling_of_int of_int_mult of_int_numeral of_int_power)
  then show "sint (cpu_millicores L rl) = c" "sint (memory_mib L rl) = m"
    using cpu_millicores_value [OF assms(1), of rl] memory_mib_value [OF assms(1), of rl] b c m by simp_all
qed

lemma parse_resources_amounts:
  assumes "quantity_parses L amt"
  obtains rl where "parse_resources L a b = Some rl" "amount_of amt rl ResourceCPU = of_int (sint a) / 1000"
    "\<bar>sint b\<bar> * 2 ^ 20 < 2 ^ 63 \<Longrightarrow> amount_of amt rl ResourceMemory = of_int (sint b) * 2 ^ 20" "rl \<noteq> fmempty"
proof -
  obtain c where c: "q_MustParse L (dec_int (sint a) @ ''m'') = Some c" "amt c = of_int (sint a) / 1000"
    using quantity_parses_milli [OF assms, of "sint a"] by auto
  obtain m where m: "q_MustParse L (dec_int (sint b) @ ''Mi'') = Some m"
    "\<bar>sint b\<bar> * 2 ^ 20 < 2 ^ 63 \<longrightarrow> amt m = of_int (sint b) * 2 ^ 20"
    using quantity_parses_Mi [OF assms, of "sint b"] by auto
  show ?thesis
    by (rule that [of "fmupd ResourceMemory m (fmupd ResourceCPU c fmempty)"])
      (use c m in \<open>simp_all add: parse_resources_def amount_of_def\<close>)
qed

lemma parse_resources_whole:
  assumes "quantity_parses L amt" "sint a = c" "sint b = m" "0 \<le> c" "c \<le> 2 ^ 51" "0 \<le> m" "m \<le> 2 ^ 40"
  obtains rl where "parse_resources L a b = Some rl" "whole amt rl c m" "rl \<noteq> fmempty"
proof -
  obtain rl where "parse_resources L a b = Some rl" "amount_of amt rl ResourceCPU = of_int (sint a) / 1000"
    "\<bar>sint b\<bar> * 2 ^ 20 < 2 ^ 63 \<Longrightarrow> amount_of amt rl ResourceMemory = of_int (sint b) * 2 ^ 20" "rl \<noteq> fmempty"
    by (rule parse_resources_amounts [OF assms(1), of a b]) blast
  with assms(2-) that show ?thesis by (auto simp: whole_def)
qed

lemma wire_whole:
  assumes "quantity_values L amt" "quantity_parses L amt" "whole amt rl c m"
  obtains rl' where "parse_resources L (cpu_millicores L rl) (memory_mib L rl) = Some rl'" "whole amt rl' c m"
    "rl' \<noteq> fmempty"
  using parse_resources_whole [OF assms(2) whole_sent [OF assms(1,3)]] assms(3) that
  by (auto simp: whole_def)

lemma parse_resources_total: "quantity_parses L amt \<Longrightarrow> parse_resources L a b \<noteq> None"
  using parse_resources_amounts [of L amt a b] by (metis option.distinct(1))

section \<open>Conversions of whole units\<close>

lemma template_whole:
  assumes "quantity_values L amt" "quantity_parses L amt" "whole_units amt (rr_Requests (tt_BaseResources t))"
  obtains u where "template_of L (dag_task L t) = Some u" "tt_Name u = tt_Name t"
    "tt_Dependencies u = tt_Dependencies t"
    "rr_Requests (tt_BaseResources t) = fmempty \<Longrightarrow> tt_BaseResources u = zero_resources"
    "rr_Requests (tt_BaseResources t) \<noteq> fmempty \<Longrightarrow> rr_Requests (tt_BaseResources u) \<noteq> fmempty"
    "same_amounts amt (rr_Requests (tt_BaseResources u)) (rr_Requests (tt_BaseResources t))"
proof (cases "rr_Requests (tt_BaseResources t) = fmempty")
  case True
  then show ?thesis
    by (intro that [of "\<lparr> tt_Name = tt_Name t, tt_Image = tt_Image t, tt_Command = tt_Command t,
          tt_Dependencies = tt_Dependencies t, tt_BaseResources = zero_resources \<rparr>"])
      (simp_all add: template_of_def dag_task_def hint_of_def same_amounts_def)
next
  case False
  let ?rl = "rr_Requests (tt_BaseResources t)"
  from assms(3) obtain c m where w: "whole amt ?rl c m" by (auto simp: whole_units_def)
  obtain rl' where rl': "parse_resources L (cpu_millicores L ?rl) (memory_mib L ?rl) = Some rl'" "whole amt rl' c m"
    "rl' \<noteq> fmempty" by (rule wire_whole [OF assms(1,2) w])
  with False show ?thesis
    by (intro that [of "\<lparr> tt_Name = tt_Name t, tt_Image = tt_Image t, tt_Command = tt_Command t,
          tt_Dependencies = tt_Dependencies t, tt_BaseResources = \<lparr> rr_Requests = rl', rr_Limits = fmempty \<rparr> \<rparr>"])
      (simp_all add: template_of_def dag_task_def hint_of_def whole_same [OF rl'(2) w])
qed

lemma status_whole:
  assumes "quantity_values L amt" "quantity_parses L amt"
    "whole_units amt (rr_Requests (ts_AllocatedResources ts))"
  obtains ts' where "status_of L (status_message L ts) = Some ts'" "ts_Phase ts' = ts_Phase ts"
    "same_amounts amt (rr_Requests (ts_AllocatedResources ts')) (rr_Requests (ts_AllocatedResources ts))"
proof -
  let ?rl = "rr_Requests (ts_AllocatedResources ts)"
  from assms(3) obtain c m where w: "whole amt ?rl c m" by (auto simp: whole_units_def)
  note s = whole_sent [OF assms(1) w]
  show ?thesis
  proof (cases "0 < c \<or> 0 < m")
    case True
    obtain rl' where rl': "parse_resources L (cpu_millicores L ?rl) (memory_mib L ?rl) = Some rl'" "whole amt rl' c m"
      by (rule wire_whole [OF assms(1,2) w])
    with True s show ?thesis
      by (intro that [of "\<lparr> ts_Phase = ts_Phase ts, ts_PodName = ts_PodName ts,
            ts_AllocatedResources = \<lparr> rr_Requests = rl', rr_Limits = fmempty \<rparr> \<rparr>"])
        (auto simp: status_of_def status_message_def whole_same [OF rl'(2) w])
  next
    case False
    with w have "c = 0" "m = 0" by (auto simp: whole_def)
    with w have "same_amounts amt fmempty ?rl" by (simp add: whole_same [OF whole_fmempty])
    with False s show ?thesis
      by (intro that [of "\<lparr> ts_Phase = ts_Phase ts, ts_PodName = ts_PodName ts,
            ts_AllocatedResources = zero_resources \<rparr>"])
        (auto simp: status_of_def status_message_def)
  qed
qed

lemma prediction_whole:
  assumes "quantity_values L amt" "quantity_parses L amt"
    "whole_units amt (rr_Requests (tp_EstimatedResources p))"
  obtains p' where "prediction_of L (prediction_message L p) = Some p'"
    "same_amounts amt (rr_Requests (tp_EstimatedResources p')) (rr_Requests (tp_EstimatedResources p))"
proof -
  let ?rl = "rr_Requests (tp_EstimatedResources p)"
  from assms(3) obtain c m where w: "whole amt ?rl c m" by (auto simp: whole_units_def)
  obtain rl' where rl': "parse_resources L (cpu_millicores L ?rl) (memory_mib L ?rl) = Some rl'" "whole amt rl' c m"
    by (rule wire_whole [OF assms(1,2) w])
  obtain lim where lim: "parse_resources L (int64_of_f64_times_1_5 L (cpu_millicores L ?rl))
      (int64_of_f64_times_1_5 L (memory_mib L ?rl)) = Some lim"
    using parse_resources_total [OF assms(2)] by blast
  show ?thesis
    by (rule that [of "\<lparr> tp_EstimatedDuration = tp_EstimatedDuration p,
          tp_EstimatedResources = \<lparr> rr_Requests = rl', rr_Limits = lim \<rparr> \<rparr>"])
      (use rl' lim in \<open>simp_all add: prediction_of_def prediction_message_def whole_same [OF rl'(2) w]\<close>)
qed

lemma allocation_whole:
  assumes "quantity_values L amt" "quantity_parses L amt" "whole_units amt (rr_Requests (ta_Resources a))"
  obtains a' where "allocation_of L (allocation_message L a) = Some a'" "ta_TaskName a' = ta_TaskName a"
    "same_amounts amt (rr_Requests (ta_Resources a')) (rr_Requests (ta_Resources a))"
proof -
  let ?rl = "rr_Requests (ta_Resources a)"
  from assms(3) obtain c m where w: "whole amt ?rl c m" by (auto simp: whole_units_def)
  obtain rl' where rl': "parse_resources L (cpu_millicores L ?rl) (memory_mib L ?rl) = Some rl'" "whole amt rl' c m"
    by (rule wire_whole [OF assms(1,2) w])
  obtain lim where lim: "parse_resources L (cpu_millicores L (rr_Limits (ta_Resources a)))
      (memory_mib L (rr_Limits (ta_Resources a))) = Some lim"
    using parse_resources_total [OF assms(2)] by blast
  show ?thesis
    by (rule that [of "\<lparr> ta_TaskName = ta_TaskName a, ta_Resources = \<lparr> rr_Requests = rl', rr_Limits = lim \<rparr> \<rparr>"])
      (use rl' lim in \<open>simp_all add: allocation_of_def allocation_message_def whole_same [OF rl'(2) w]\<close>)
qed

section \<open>The same plan\<close>

definition whole_inputs :: "('q \<Rightarrow> rat) \<Rightarrow> 'q AdaptiveWorkflowSpec \<Rightarrow> 'q TaskStatuses \<Rightarrow> 'q Predictions \<Rightarrow> bool" where
  "whole_inputs amt spec sts preds \<longleftrightarrow> whole_units amt (sp_MaxResources spec)
     \<and> (\<forall>t \<in> set (sp_Tasks spec). whole_units amt (rr_Requests (tt_BaseResources t)))
     \<and> (\<forall>n ts. fmlookup sts n = Some ts \<longrightarrow> whole_units amt (rr_Requests (ts_AllocatedResources ts)))
     \<and> (\<forall>n p. fmlookup preds n = Some p \<longrightarrow> whole_units amt (rr_Requests (tp_EstimatedResources p)))"

text \<open>A task whose hint consists of limits only is the exception: the hint is not sent.\<close>

definition hints_sent :: "'q AdaptiveWorkflowSpec \<Rightarrow> 'q Predictions \<Rightarrow> bool" where
  "hints_sent spec preds \<longleftrightarrow> (\<forall>t \<in> set (sp_Tasks spec). fmlookup preds (tt_Name t) = None
     \<longrightarrow> rr_Requests (tt_BaseResources t) = fmempty \<longrightarrow> rr_Limits (tt_BaseResources t) = fmempty)"

lemma pack_list_all2:
  assumes "list_all2 Q as bs" "\<And>a b. Q a b \<Longrightarrow> fc a = fc' b \<and> fm a = fm' b"
  shows "list_all2 Q (pack C M fc fm as c m) (pack C M fc' fm' bs c m)"
  using assms(1)
proof (induction arbitrary: c m rule: list_all2_induct)
  case Nil
  then show ?case by simp
next
  case (Cons a as b bs)
  with assms(2) [OF Cons(1)] show ?case by simp
qed

lemma default_whole:
  assumes "quantity_parses L amt" "resolveResources L t fmempty = Some res"
    "rr_Requests (tt_BaseResources t) = fmempty" "rr_Limits (tt_BaseResources t) = fmempty"
  shows "whole amt (rr_Requests res) 100 128"
proof -
  have r: "int64_range 100" "int64_range 128" by (simp_all add: int64_range_def)
  obtain a b where "q_MustParse L ''100m'' = Some a" "amt a = 100 / 1000"
    "q_MustParse L ''128Mi'' = Some b" "amt b = 128 * 2 ^ 20"
    using quantity_parses_milli [OF assms(1) r(1)] quantity_parses_Mi [OF assms(1) r(2)]
    unfolding default_texts [symmetric] by auto
  with assms(2-4) show ?thesis
    by (auto simp: resolveResources_def whole_def amount_of_def split: Option.bind_splits)
qed

text \<open>What the local scheduler would allocate to a task and what the server allocates.\<close>

lemma resolve_whole:
  assumes q: "quantity_parses L amt" and w: "whole_inputs amt spec sts preds" "hints_sent spec preds"
    and t: "t \<in> set (sp_Tasks spec)" and u: "tt_Name u = tt_Name t"
      "rr_Requests (tt_BaseResources t) = fmempty \<Longrightarrow> tt_BaseResources u = zero_resources"
      "rr_Requests (tt_BaseResources t) \<noteq> fmempty \<Longrightarrow> rr_Requests (tt_BaseResources u) \<noteq> fmempty"
      "same_amounts amt (rr_Requests (tt_BaseResources u)) (rr_Requests (tt_BaseResources t))"
    and p: "rel_option (\<lambda>p' p. same_amounts amt (rr_Requests (tp_EstimatedResources p')) (rr_Requests (tp_EstimatedResources p)))
      (fmlookup preds' (tt_Name t)) (fmlookup preds (tt_Name t))"
  shows "whole_units amt (rr_Requests (the (resolveResources L t preds)))
    \<and> same_amounts amt (rr_Requests (the (resolveResources L u preds'))) (rr_Requests (the (resolveResources L t preds)))"
proof (cases "fmlookup preds (tt_Name t)")
  case (Some x)
  with p obtain x' where "fmlookup preds' (tt_Name t) = Some x'"
    "same_amounts amt (rr_Requests (tp_EstimatedResources x')) (rr_Requests (tp_EstimatedResources x))"
    by (auto simp: rel_option_iff split: option.splits)
  with Some u(1) w(1) show ?thesis by (simp add: resolveResources_def whole_inputs_def)
next
  case None
  with p have n': "fmlookup preds' (tt_Name t) = None" by (simp add: rel_option_iff split: option.splits)
  have eq: "resolveResources L t preds = resolveResources L t fmempty" "resolveResources L u preds' = resolveResources L u fmempty"
    using None n' u(1) by (simp_all add: resolveResources_def)
  show ?thesis
  proof (cases "rr_Requests (tt_BaseResources t) = fmempty")
    case True
    with w(2) t None have lim: "rr_Limits (tt_BaseResources t) = fmempty" by (auto simp: hints_sent_def)
    obtain res where r: "resolveResources L t fmempty = Some res" using resolveResources_total [OF q] by blast
    have "resolveResources L u fmempty = resolveResources L t fmempty"
      using True lim u(2) by (simp add: resolveResources_def)
    with r default_whole [OF q r True lim] show ?thesis
      unfolding eq whole_units_def by (auto simp: same_amounts_def)
  next
    case False
    with u(3) w(1) t u(4) show ?thesis unfolding eq by (simp add: resolveResources_def whole_inputs_def)
  qed
qed

lemma usage_of_converted:
  assumes "\<And>n. rel_option (\<lambda>ts' ts. ts_Phase ts' = ts_Phase ts
      \<and> same_amounts amt (rr_Requests (ts_AllocatedResources ts')) (rr_Requests (ts_AllocatedResources ts)))
      (fmlookup sts' n) (fmlookup sts n)" "r \<in> {ResourceCPU, ResourceMemory}"
  shows "usage_of amt sts' r = usage_of amt sts r"
proof -
  have rel: "fmlookup sts n = Some ts \<longleftrightarrow> (\<exists>ts'. fmlookup sts' n = Some ts') \<and> fmlookup sts n = Some ts" for n ts
    using assms(1) [of n] by (auto simp: rel_option_iff split: option.splits)
  have dom: "fmdom' sts' = fmdom' sts"
  proof (rule set_eqI)
    fix n show "n \<in> fmdom' sts' \<longleftrightarrow> n \<in> fmdom' sts"
      using assms(1) [of n] by (auto simp: fmlookup_dom'_iff rel_option_iff split: option.splits)
  qed
  show ?thesis unfolding usage_of_def dom
  proof (rule sum.cong [OF refl])
    fix n assume "n \<in> fmdom' sts"
    then obtain ts where "fmlookup sts n = Some ts" by (auto simp: fmlookup_dom'_iff)
    with assms(1) [of n] obtain ts' where "fmlookup sts' n = Some ts'" "ts_Phase ts' = ts_Phase ts"
      "same_amounts amt (rr_Requests (ts_AllocatedResources ts')) (rr_Requests (ts_AllocatedResources ts))"
      by (auto simp: rel_option_iff split: option.splits)
    with \<open>fmlookup sts n = Some ts\<close> assms(2) show "(let ts = the (fmlookup sts' n) in
        if ts_Phase ts = TaskPhaseRunning then amount_of amt (rr_Requests (ts_AllocatedResources ts)) r else 0)
      = (let ts = the (fmlookup sts n) in
        if ts_Phase ts = TaskPhaseRunning then amount_of amt (rr_Requests (ts_AllocatedResources ts)) r else 0)"
      by (auto simp: same_amounts_def Let_def)
  qed
qed

text \<open>The server's view of a request that lost nothing: statuses, predictions, specification.\<close>

abbreviation status_kept :: "('q \<Rightarrow> rat) \<Rightarrow> 'q TaskStatus \<Rightarrow> 'q TaskStatus \<Rightarrow> bool" where
  "status_kept amt ts' ts \<equiv> ts_Phase ts' = ts_Phase ts
     \<and> same_amounts amt (rr_Requests (ts_AllocatedResources ts')) (rr_Requests (ts_AllocatedResources ts))"

abbreviation prediction_kept :: "('q \<Rightarrow> rat) \<Rightarrow> 'q TaskPrediction \<Rightarrow> 'q TaskPrediction \<Rightarrow> bool" where
  "prediction_kept amt p' p \<equiv>
     same_amounts amt (rr_Requests (tp_EstimatedResources p')) (rr_Requests (tp_EstimatedResources p))"

lemma converted_view:
  assumes "map_order o1" "map_order o2" "\<forall>n v. fmlookup m n = Some v \<longrightarrow> (\<exists>v'. g (f v) = Some v' \<and> Q v' v)"
  shows "\<exists>m'. convert_loop g (go_range o1 (copy_loop f (go_range o2 m) fmempty)) fmempty = Some m'
    \<and> (\<forall>n. rel_option Q (fmlookup m' n) (fmlookup m n))"
proof -
  have "g x \<noteq> None" if "(n, x) \<in> set (go_range o1 (fmmap f m))" for n x
    using that assms(3) by (auto simp: set_go_range [OF assms(1)])
  from convert_loop_total [of "go_range o1 (fmmap f m)" g fmempty] this
  have "convert_loop g (go_range o1 (fmmap f m)) fmempty = Some (fmmap (\<lambda>v. the (g v)) (fmmap f m))"
    by (auto simp: copy_loop_range [OF assms(1)])
  moreover have "rel_option Q (fmlookup (fmmap (\<lambda>v. the (g v)) (fmmap f m)) n) (fmlookup m n)" for n
    using assms(3) by (cases "fmlookup m n") force+
  ultimately show ?thesis by (auto simp: copy_loop_range [OF assms(2)])
qed

lemma statuses_view:
  assumes "quantity_values L amt" "quantity_parses L amt" "map_order o1" "map_order ords"
    "whole_inputs amt spec sts preds"
  obtains sts' where "protoToTaskStatuses L o1 (pq_TaskStatuses (plan_request L ords ordp spec sts preds)) = Some sts'"
    "\<And>n. rel_option (status_kept amt) (fmlookup sts' n) (fmlookup sts n)"
proof -
  have "\<exists>ts'. status_of L (status_message L ts) = Some ts' \<and> status_kept amt ts' ts"
    if "fmlookup sts n = Some ts" for n ts
  proof -
    from that assms(5) have "whole_units amt (rr_Requests (ts_AllocatedResources ts))" by (auto simp: whole_inputs_def)
    then show ?thesis by (rule status_whole [OF assms(1,2)]) blast
  qed
  from converted_view [OF assms(3,4), of sts "status_of L" "status_message L" "status_kept amt"] this that
  show ?thesis by (auto simp: protoToTaskStatuses_def plan_request_def)
qed

lemma predictions_view:
  assumes "quantity_values L amt" "quantity_parses L amt" "map_order o2" "map_order ordp"
    "whole_inputs amt spec sts preds"
  obtains preds' where "protoToPredictions L o2 (pq_Predictions (plan_request L ords ordp spec sts preds)) = Some preds'"
    "\<And>n. rel_option (prediction_kept amt) (fmlookup preds' n) (fmlookup preds n)"
proof -
  have "\<exists>p'. prediction_of L (prediction_message L p) = Some p' \<and> prediction_kept amt p' p"
    if "fmlookup preds n = Some p" for n p
  proof -
    from that assms(5) have "whole_units amt (rr_Requests (tp_EstimatedResources p))" by (auto simp: whole_inputs_def)
    then show ?thesis by (rule prediction_whole [OF assms(1,2)]) blast
  qed
  from converted_view [OF assms(3,4), of preds "prediction_of L" "prediction_message L" "prediction_kept amt"] this that
  show ?thesis by (auto simp: protoToPredictions_def plan_request_def)
qed

lemma limits_view:
  assumes "quantity_values L amt" "quantity_parses L amt" "whole_units amt rl"
  obtains mx where "(case limit_message L rl of None \<Rightarrow> Some fmempty
      | Some m \<Rightarrow> parse_resources L (rm_CpuMillicores m) (rm_MemoryMib m)) = Some mx" "same_amounts amt mx rl"
proof (cases "rl = fmempty")
  case True
  then show ?thesis by (intro that [of fmempty]) (simp_all add: limit_message_def same_amounts_def)
next
  case False
  from assms(3) obtain c m where cm: "whole amt rl c m" by (auto simp: whole_units_def)
  obtain rl' where rl': "parse_resources L (cpu_millicores L rl) (memory_mib L rl) = Some rl'" "whole amt rl' c m"
    by (rule wire_whole [OF assms(1,2) cm])
  with False show ?thesis by (intro that [of rl']) (simp_all add: limit_message_def whole_same [OF rl'(2) cm])
qed

lemma spec_view:
  assumes "quantity_values L amt" "quantity_parses L amt" "whole_inputs amt spec sts preds"
  obtains spec' where "protoToSpec L (plan_request L ords ordp spec sts preds) = Some spec'"
    "sp_Tasks spec' = map (\<lambda>t. the (template_of L (dag_task L t))) (sp_Tasks spec)"
    "same_amounts amt (sp_MaxResources spec') (sp_MaxResources spec)"
proof -
  have "template_of L t \<noteq> None" if tin: "t \<in> set (map (dag_task L) (sp_Tasks spec))" for t
  proof -
    from tin obtain x where x: "t = dag_task L x" "x \<in> set (sp_Tasks spec)" by auto
    with assms(3) have "whole_units amt (rr_Requests (tt_BaseResources x))" by (simp add: whole_inputs_def)
    from template_whole [OF assms(1,2) this] x(1) show ?thesis by (metis option.distinct(1))
  qed
  from templates_loop_total [OF this, of "map (dag_task L) (sp_Tasks spec)" "[]"]
  have tasks: "templates_loop L (map (dag_task L) (sp_Tasks spec)) []
    = Some (map (\<lambda>t. the (template_of L (dag_task L t))) (sp_Tasks spec))" by (simp add: comp_def)
  from assms(3) have "whole_units amt (sp_MaxResources spec)" by (simp add: whole_inputs_def)
  then obtain mx where "(case limit_message L (sp_MaxResources spec) of None \<Rightarrow> Some fmempty
      | Some m \<Rightarrow> parse_resources L (rm_CpuMillicores m) (rm_MemoryMib m)) = Some mx"
    "same_amounts amt mx (sp_MaxResources spec)" by (rule limits_view [OF assms(1,2)])
  with tasks that show ?thesis by (simp add: protoToSpec_def plan_request_def)
qed

lemma candidates_view:
  assumes "quantity_values L amt" "quantity_parses L amt" "whole_inputs amt spec sts preds" "hints_sent spec preds"
    "sp_Tasks spec' = map (\<lambda>t. the (template_of L (dag_task L t))) (sp_Tasks spec)"
    "\<And>n. rel_option (status_kept amt) (fmlookup sts' n) (fmlookup sts n)"
    "\<And>n. rel_option (prediction_kept amt) (fmlookup preds' n) (fmlookup preds n)"
  shows "list_all2 (\<lambda>b a. ta_TaskName b = ta_TaskName a \<and> whole_units amt (rr_Requests (ta_Resources a))
      \<and> same_amounts amt (rr_Requests (ta_Resources b)) (rr_Requests (ta_Resources a)))
    (candidates L spec' sts' preds') (candidates L spec sts preds)"
proof -
  let ?f = "\<lambda>t. the (template_of L (dag_task L t))"
  let ?Q = "\<lambda>b a. ta_TaskName b = ta_TaskName a \<and> whole_units amt (rr_Requests (ta_Resources a))
      \<and> same_amounts amt (rr_Requests (ta_Resources b)) (rr_Requests (ta_Resources a))"
  have phase: "phase_of sts' n = phase_of sts n" for n
    using assms(6) [of n] by (auto simp: phase_of_def rel_option_iff split: option.splits)
  have "startable sts' (?f t) = startable sts t \<and> ?Q (candidate L preds' (?f t)) (candidate L preds t)"
    if t: "t \<in> set (sp_Tasks spec)" for t
  proof -
    from t assms(3) have "whole_units amt (rr_Requests (tt_BaseResources t))" by (simp add: whole_inputs_def)
    then obtain u where u: "template_of L (dag_task L t) = Some u" "tt_Name u = tt_Name t"
      "tt_Dependencies u = tt_Dependencies t"
      "rr_Requests (tt_BaseResources t) = fmempty \<Longrightarrow> tt_BaseResources u = zero_resources"
      "rr_Requests (tt_BaseResources t) \<noteq> fmempty \<Longrightarrow> rr_Requests (tt_BaseResources u) \<noteq> fmempty"
      "same_amounts amt (rr_Requests (tt_BaseResources u)) (rr_Requests (tt_BaseResources t))"
      by (rule template_whole [OF assms(1,2)]) blast
    from resolve_whole [OF assms(2-4) t u(2,4,5,6) assms(7)] u(1-3) phase show ?thesis
      by (auto simp: startable_def candidate_def)
  qed
  then have "list_all2 ?Q (map (candidate L preds') (filter (startable sts') (map ?f ts)))
      (map (candidate L preds) (filter (startable sts) ts))" if "set ts \<subseteq> set (sp_Tasks spec)" for ts
    using that by (induction ts) auto
  then show ?thesis by (simp add: candidates_def assms(5))
qed

text \<open>What the client reads from the answer: the server's allocations, in the same order.\<close>

abbreviation allocation_kept :: "('q \<Rightarrow> rat) \<Rightarrow> 'q TaskAllocation \<Rightarrow> 'q TaskAllocation \<Rightarrow> bool" where
  "allocation_kept amt b a \<equiv> ta_TaskName b = ta_TaskName a
     \<and> same_amounts amt (rr_Requests (ta_Resources b)) (rr_Requests (ta_Resources a))"

lemma same_amounts_trans: "same_amounts amt x y \<Longrightarrow> same_amounts amt y z \<Longrightarrow> same_amounts amt x z"
  by (simp add: same_amounts_def)

lemma same_amounts_sym: "same_amounts amt x y \<Longrightarrow> same_amounts amt y x"
  by (simp add: same_amounts_def)

lemma same_amounts_whole_units: "same_amounts amt rl rl' \<Longrightarrow> whole_units amt rl' \<Longrightarrow> whole_units amt rl"
  unfolding whole_units_def by (metis same_amounts_whole same_amounts_sym)

lemma allocations_view:
  assumes "quantity_values L amt" "quantity_parses L amt"
    "list_all2 (\<lambda>b a. whole_units amt (rr_Requests (ta_Resources a)) \<and> allocation_kept amt b a) bs as"
  obtains cs where "allocations_loop L (map (allocation_message L) bs) [] = Some cs"
    "list_all2 (allocation_kept amt) cs as"
proof -
  let ?f = "\<lambda>b. the (allocation_of L (allocation_message L b))"
  have one: "allocation_of L (allocation_message L b) \<noteq> None \<and> allocation_kept amt (?f b) a"
    if "whole_units amt (rr_Requests (ta_Resources a)) \<and> allocation_kept amt b a" for a b
  proof -
    from that same_amounts_whole_units have "whole_units amt (rr_Requests (ta_Resources b))" by blast
    with that show ?thesis
      by (elim allocation_whole [OF assms(1,2)]) (auto elim: same_amounts_trans)
  qed
  have "list_all2 (\<lambda>b a. allocation_of L (allocation_message L b) \<noteq> None \<and> allocation_kept amt (?f b) a) bs as"
    using assms(3) by (rule list_all2_mono) (rule one)
  then have ne: "\<forall>b \<in> set bs. allocation_of L (allocation_message L b) \<noteq> None"
    and kept: "list_all2 (allocation_kept amt) (map ?f bs) as"
    by (auto simp: list_all2_conv_all_nth in_set_conv_nth)
  from ne have "allocations_loop L (map (allocation_message L) bs) [] = Some (map ?f bs)"
    by (subst allocations_loop_total) auto
  with kept that show ?thesis by blast
qed

lemma remote_same_plan:
  assumes "quantity_arith L amt" "quantity_values L amt" "quantity_parses L amt"
    "map_order o1" "map_order o2" "map_order o3" "map_order ords" "map_order ordp"
    "delivers rpc (optimizerServer_Plan L o1 o2 (GreedyOptimizer_Plan L o3))"
    "whole_inputs amt spec sts preds" "hints_sent spec preds"
  obtains plan w' where "OptimizerClient_Plan L ords ordp rpc spec sts preds w = (Some (Inr plan), w')"
    "list_all2 (allocation_kept amt) (pl_TasksToStart plan) (greedy_pack L amt spec sts preds)"
proof -
  let ?req = "plan_request L ords ordp spec sts preds"
  obtain spec' where s: "protoToSpec L ?req = Some spec'"
    "sp_Tasks spec' = map (\<lambda>t. the (template_of L (dag_task L t))) (sp_Tasks spec)"
    "same_amounts amt (sp_MaxResources spec') (sp_MaxResources spec)"
    by (rule spec_view [OF assms(2,3,10)])
  obtain sts' where t: "protoToTaskStatuses L o1 (pq_TaskStatuses ?req) = Some sts'"
    "\<And>n. rel_option (status_kept amt) (fmlookup sts' n) (fmlookup sts n)"
    by (rule statuses_view [OF assms(2,3,4,7,10)]) blast
  obtain preds' where p: "protoToPredictions L o2 (pq_Predictions ?req) = Some preds'"
    "\<And>n. rel_option (prediction_kept amt) (fmlookup preds' n) (fmlookup preds n)"
    by (rule predictions_view [OF assms(2,3,5,8,10)]) blast
  let ?bs = "greedy_pack L amt spec' sts' preds'"
  have "optimizerServer_Plan L o1 o2 (GreedyOptimizer_Plan L o3) ?req
    = Some (Inr \<lparr> pr_TasksToStart = map (allocation_message L) ?bs \<rparr>)"
    by (simp add: optimizerServer_Plan_def s(1) t(1) p(1) greedy_refines [OF assms(1,3,6)])
  with assms(9) obtain w' where rpc: "rpc ?req w = (Inr \<lparr> pr_TasksToStart = map (allocation_message L) ?bs \<rparr>, w')"
    unfolding delivers_def by blast
  have "list_all2 (\<lambda>b a. ta_TaskName b = ta_TaskName a \<and> whole_units amt (rr_Requests (ta_Resources a))
      \<and> same_amounts amt (rr_Requests (ta_Resources b)) (rr_Requests (ta_Resources a))) ?bs (greedy_pack L amt spec sts preds)"
    using s(3) usage_of_converted [OF t(2)] unfolding greedy_pack_def
    by (simp add: same_amounts_def)
      (rule pack_list_all2 [OF candidates_view [OF assms(2,3,10,11) s(2) t(2) p(2), unfolded same_amounts_def, simplified]];
        simp add: alloc_amount_def)
  then have "list_all2 (\<lambda>b a. whole_units amt (rr_Requests (ta_Resources a)) \<and> allocation_kept amt b a)
    ?bs (greedy_pack L amt spec sts preds)" by (rule list_all2_mono) simp
  then obtain cs where "allocations_loop L (map (allocation_message L) ?bs) [] = Some cs"
    "list_all2 (allocation_kept amt) cs (greedy_pack L amt spec sts preds)"
    by (rule allocations_view [OF assms(2,3)])
  with that rpc show ?thesis by (simp add: OptimizerClient_Plan_def)
qed

end
