(* ===== verification/Cpp_Exact.thy ===== *)
theory Cpp_Exact
  imports Cpp_Optimizer Remote_Exact
begin

text \<open>
  The C++ service against the contract of a plan server and against the Go scheduler. Whatever
  it answers keeps the contract. Where quantities are whole, of moderate size, and no hint asks
  for nothing at all, no sum overflows and the client of the service gets the plan the manager's
  own scheduler would have made.
\<close>

section \<open>The contract\<close>

definition cpp_startable :: "cpp_PlanRequest \<Rightarrow> cpp_DAGTask \<Rightarrow> bool" where
  "cpp_startable req t \<longleftrightarrow>
     (case fmlookup (cq_task_statuses req) (ct_name t) of Some s \<Rightarrow> cs_phase s = ''Pending'' | None \<Rightarrow> True)
     \<and> cpp_ready_loop (cq_task_statuses req) (ct_dependencies t)"

lemma cpp_ready_loop_iff:
  "cpp_ready_loop sts ds \<longleftrightarrow> (\<forall>d \<in> set ds. map_option cs_phase (fmlookup sts d) = Some ''Succeeded'')"
  by (induction ds) (auto split: option.splits)

lemma cpp_not_startable:
  "\<not> cpp_startable req t \<Longrightarrow> cpp_plan_loop mc mm req (t # ts) c m acc = cpp_plan_loop mc mm req ts c m acc"
  by (auto simp: cpp_startable_def split: option.splits)

lemma cpp_started:
  "cpp_startable req t \<Longrightarrow> cpp_plan_loop mc mm req (t # ts) c m acc =
    do {
      alloc0 \<leftarrow> cpp_ResolveResources t (cq_predictions req);
      let alloc = alloc0\<lparr> ca_task_name := ct_name t \<rparr>;
      new_cpu \<leftarrow> cpp_add c (ca_cpu_request_millicores alloc);
      new_mem \<leftarrow> cpp_add m (ca_memory_request_mib alloc);
      (if sint mc > 0 \<and> sint new_cpu > sint mc \<or> sint mm > 0 \<and> sint new_mem > sint mm
       then cpp_plan_loop mc mm req ts c m acc
       else cpp_plan_loop mc mm req ts new_cpu new_mem (acc @ [alloc])) }"
  by (auto simp: cpp_startable_def split: option.splits intro!: arg_cong2 [of _ _ _ _ Option.bind] ext)

lemma cpp_plan_loop_names:
  "cpp_plan_loop mc mm req tasks c m acc = Some r \<Longrightarrow>
    \<exists>ts as. r = acc @ as \<and> subseq ts (filter (cpp_startable req) tasks) \<and> map ca_task_name as = map ct_name ts"
proof (induction tasks arbitrary: c m acc)
  case Nil
  then show ?case by (intro exI [of _ "[]"]) simp
next
  case (Cons t tasks)
  show ?case
  proof (cases "cpp_startable req t")
    case False
    with Cons show ?thesis by (simp add: cpp_not_startable del: cpp_plan_loop.simps)
  next
    case True
    with Cons.prems consider c' m' where "cpp_plan_loop mc mm req tasks c' m' acc = Some r"
      | c' m' a where "cpp_plan_loop mc mm req tasks c' m' (acc @ [a]) = Some r" "ca_task_name a = ct_name t"
      by (fastforce simp: cpp_started Let_def simp del: cpp_plan_loop.simps split: Option.bind_splits if_splits)
    then show ?thesis
    proof cases
      case 1
      from Cons.IH [OF this] True show ?thesis by auto
    next
      case 2
      from Cons.IH [OF 2(1)] obtain ts as where "r = acc @ a # as" "subseq ts (filter (cpp_startable req) tasks)"
        "map ca_task_name as = map ct_name ts" by auto
      with True 2(2) show ?thesis by (intro exI [of _ "t # ts"] exI [of _ "a # as"]) simp
    qed
  qed
qed

lemma cpp_startable_wire:
  assumes "map_order ords"
  shows "cpp_startable (ProtoToPlanRequest ords ordp req) (cpp_task t) = wire_startable req t"
proof -
  let ?s = "\<lambda>n. fmlookup (cq_task_statuses (ProtoToPlanRequest ords ordp req)) n"
  have phase: "map_option cs_phase (?s n) = wire_phase req n" for n
    by (simp add: ProtoToPlanRequest_def copy_loop_range [OF assms] cpp_status_def wire_phase_def option.map_comp comp_def)
  have "(case ?s n of Some s \<Rightarrow> cs_phase s = ''Pending'' | None \<Rightarrow> True)
      = (wire_phase req n \<in> {None, Some TaskPhasePending})" for n
    using phase [of n] by (cases "?s n") (auto simp: TaskPhasePending_def)
  with phase show ?thesis
    by (simp add: cpp_startable_def wire_startable_def cpp_ready_loop_iff cpp_task_def TaskPhaseSucceeded_def)
qed

lemma cpp_starts_startable:
  assumes "map_order ords" "OptimizerServiceImpl_Plan ords ordp ord req = Some (Inr resp)"
  shows "\<exists>ts. subseq ts (filter (wire_startable req) (pq_Tasks req)) \<and> map pa_TaskName (pr_TasksToStart resp) = map dt_Name ts"
proof -
  let ?r = "ProtoToPlanRequest ords ordp req"
  from assms(2) obtain mc mm c m as where
    "cpp_plan_loop mc mm ?r (cq_tasks ?r) c m [] = Some as" "pr_TasksToStart resp = map cpp_allocation_message as"
    by (auto simp: OptimizerServiceImpl_Plan_def cpp_GreedyOptimizer_Plan_def PlanResponseToProto_def Let_def
        split: Option.bind_splits)
  from cpp_plan_loop_names [OF this(1)] this(2) obtain us where
    us: "subseq us (filter (cpp_startable ?r) (cq_tasks ?r))" "map pa_TaskName (pr_TasksToStart resp) = map ct_name us"
    by (auto simp: cpp_allocation_message_def comp_def)
  have "list_all2 (\<lambda>t u. u = cpp_task t) (pq_Tasks req) (cq_tasks ?r)"
    by (simp add: ProtoToPlanRequest_def list_all2_map2 list.rel_refl)
  then have "list_all2 (\<lambda>t u. u = cpp_task t) (filter (wire_startable req) (pq_Tasks req)) (filter (cpp_startable ?r) (cq_tasks ?r))"
    by (rule filter_list_all2) (simp add: cpp_startable_wire [OF assms(1)])
  from subseq_list_all2 [OF us(1) this] obtain ts where
    ts: "subseq ts (filter (wire_startable req) (pq_Tasks req))" "list_all2 (\<lambda>t u. u = cpp_task t) ts us" by blast
  from ts(2) have "us = map cpp_task ts" by (auto simp: list_all2_conv_all_nth intro: nth_equalityI)
  with ts(1) us(2) show ?thesis by (intro exI [of _ ts]) (simp add: cpp_task_def comp_def)
qed

interpretation cpp_service: plan_service "\<lambda>ords. OptimizerServiceImpl_Plan ords ordp ord" for ordp ord
  by unfold_locales (rule cpp_starts_startable)

section \<open>No overflow\<close>

lemma cpp_add_in_range:
  assumes "int64_range (sint a + sint b)"
  shows "cpp_add a b = Some (a + b)" "sint (a + b) = sint a + sint b"
  using assms by (simp_all add: cpp_add_def int64_range_def sint_word_ariths(1) signed_take_bit_int_eq_self)

lemma cpp_times_1_5_exact:
  assumes "\<bar>sint x\<bar> \<le> 2 ^ 51"
  shows "\<exists>v. cpp_times_1_5 x = Some v \<and> sint v = (3 * sint x) sdiv 2"
proof -
  have b: "\<bar>sint x\<bar> < 2 ^ 53" "\<bar>3 * sint x\<bar> < 2 ^ 53" using assms by auto
  have "\<bar>(3 * sint x) sdiv 2\<bar> \<le> \<bar>3 * sint x\<bar>"
    using sdiv_int_range [of "3 * sint x" 2] by auto
  with b(2) have "int64_range ((3 * sint x) sdiv 2)" by (auto simp: int64_range_def)
  with b show ?thesis by (simp add: cpp_times_1_5_def cpp_cast_int64_def f64_round_exact sint_word_of_int64)
qed

lemma cpp_times_kLimitMultiplier_exact:
  assumes "\<bar>sint x\<bar> \<le> 2 ^ 51"
  shows "\<exists>v. cpp_times_kLimitMultiplier x = Some v \<and> sint v = 2 * sint x"
proof -
  from assms have "int64_range (2 * sint x)" "\<bar>sint x\<bar> < 2 ^ 53" by (auto simp: int64_range_def)
  with sint_word_of_int64 [OF this(1)] show ?thesis
    by (auto simp: cpp_times_kLimitMultiplier_def cpp_cast_int64_def f64_round_exact)
qed

text \<open>The amounts of an allocation of the service, in the units of the Go scheduler.\<close>

definition cpp_cpu :: "cpp_TaskAllocation \<Rightarrow> rat" where
  "cpp_cpu a = of_int (sint (ca_cpu_request_millicores a)) / 1000"

definition cpp_mem :: "cpp_TaskAllocation \<Rightarrow> rat" where
  "cpp_mem a = of_int (sint (ca_memory_request_mib a)) * 2 ^ 20"

definition moderate64 :: "int64 \<Rightarrow> bool" where
  "moderate64 x \<longleftrightarrow> 0 \<le> sint x \<and> sint x \<le> 2 ^ 51"

definition cpp_candidate :: "(string, cpp_TaskPrediction) fmap \<Rightarrow> cpp_DAGTask \<Rightarrow> cpp_TaskAllocation" where
  "cpp_candidate preds t = (the (cpp_ResolveResources t preds))\<lparr> ca_task_name := ct_name t \<rparr>"

lemma fits_milli: "fits (of_int b / 1000) (of_int a / 1000 + of_int d / 1000) \<longleftrightarrow> b = 0 \<or> a + d \<le> b"
proof -
  have "of_int a / 1000 + of_int d / 1000 = (of_int (a + d) / 1000 :: rat)" by (simp add: add_divide_distrib)
  then show ?thesis unfolding fits_def by (simp only: divide_le_cancel of_int_le_iff) simp
qed

lemma fits_Mi: "fits (of_int b * 2 ^ 20) (of_int a * 2 ^ 20 + of_int d * 2 ^ 20) \<longleftrightarrow> b = 0 \<or> a + d \<le> b"
proof -
  have "of_int a * 2 ^ 20 + of_int d * 2 ^ 20 = (of_int (a + d) * 2 ^ 20 :: rat)" by (simp add: distrib_right)
  then show ?thesis unfolding fits_def by (simp only: mult_le_cancel_right of_int_le_iff) simp
qed

lemma moderate_sum:
  assumes "0 \<le> sint c" "sint c + int (Suc n) * 2 ^ 51 < 2 ^ 63" "moderate64 x"
  shows "cpp_add c x = Some (c + x)" "sint (c + x) = sint c + sint x" "0 \<le> sint (c + x)"
    "sint (c + x) + int n * 2 ^ 51 < 2 ^ 63" "sint c + int n * 2 ^ 51 < 2 ^ 63"
proof -
  from assms have "int64_range (sint c + sint x)" by (auto simp: moderate64_def int64_range_def algebra_simps)
  note s = cpp_add_in_range [OF this]
  from s assms show "cpp_add c x = Some (c + x)" "sint (c + x) = sint c + sint x" "0 \<le> sint (c + x)"
    "sint (c + x) + int n * 2 ^ 51 < 2 ^ 63" "sint c + int n * 2 ^ 51 < 2 ^ 63"
    by (auto simp: moderate64_def algebra_simps)
qed

definition cpp_over :: "int64 \<Rightarrow> int64 \<Rightarrow> int64 \<Rightarrow> int64 \<Rightarrow> bool" where
  "cpp_over mc mm x y \<longleftrightarrow> sint mc > 0 \<and> sint x > sint mc \<or> sint mm > 0 \<and> sint y > sint mm"

text \<open>One round of the loop on a startable task, and what its test means.\<close>

lemma cpp_plan_step:
  assumes "cpp_startable req t" "cpp_ResolveResources t (cq_predictions req) = Some a0"
    and "cpp_add c (ca_cpu_request_millicores (cpp_candidate (cq_predictions req) t)) = Some x"
    and "cpp_add m (ca_memory_request_mib (cpp_candidate (cq_predictions req) t)) = Some y"
  shows "cpp_plan_loop mc mm req (t # tasks) c m acc = (if cpp_over mc mm x y then cpp_plan_loop mc mm req tasks c m acc
    else cpp_plan_loop mc mm req tasks x y (acc @ [cpp_candidate (cq_predictions req) t]))"
proof -
  have a: "cpp_candidate (cq_predictions req) t = a0\<lparr> ca_task_name := ct_name t \<rparr>" by (simp add: cpp_candidate_def assms(2))
  show ?thesis
    using assms(3,4) by (simp add: cpp_started [OF assms(1)] assms(2) a Let_def cpp_over_def del: cpp_plan_loop.simps)
qed

lemma cpp_fits:
  assumes "0 \<le> sint mc" "0 \<le> sint mm" "sint x = sint c + sint (ca_cpu_request_millicores a)" "sint y = sint m + sint (ca_memory_request_mib a)"
  shows "(\<not> cpp_over mc mm x y) = (fits (of_int (sint mc) / 1000) (of_int (sint c) / 1000 + cpp_cpu a)
    \<and> fits (of_int (sint mm) * 2 ^ 20) (of_int (sint m) * 2 ^ 20 + cpp_mem a))"
  using assms(1,2) unfolding cpp_over_def cpp_cpu_def cpp_mem_def fits_milli fits_Mi assms(3,4) by auto

lemma cpp_plan_loop_pack:
  assumes "0 \<le> sint mc" "0 \<le> sint mm"
    and "\<forall>t \<in> set tasks. cpp_startable req t \<longrightarrow> cpp_ResolveResources t (cq_predictions req) \<noteq> None
      \<and> moderate64 (ca_cpu_request_millicores (cpp_candidate (cq_predictions req) t))
      \<and> moderate64 (ca_memory_request_mib (cpp_candidate (cq_predictions req) t))"
    and "0 \<le> sint c" "sint c + int (length tasks) * 2 ^ 51 < 2 ^ 63"
    and "0 \<le> sint m" "sint m + int (length tasks) * 2 ^ 51 < 2 ^ 63"
  shows "cpp_plan_loop mc mm req tasks c m acc = Some (acc @ pack (of_int (sint mc) / 1000) (of_int (sint mm) * 2 ^ 20)
      cpp_cpu cpp_mem (map (cpp_candidate (cq_predictions req)) (filter (cpp_startable req) tasks))
      (of_int (sint c) / 1000) (of_int (sint m) * 2 ^ 20))"
  using assms(3-)
proof (induction tasks arbitrary: c m acc)
  case Nil
  then show ?case by simp
next
  case (Cons t tasks)
  let ?a = "cpp_candidate (cq_predictions req) t"
  let ?x = "ca_cpu_request_millicores ?a" and ?y = "ca_memory_request_mib ?a"
  have len: "sint c + int (Suc (length tasks)) * 2 ^ 51 < 2 ^ 63" "sint m + int (Suc (length tasks)) * 2 ^ 51 < 2 ^ 63"
    using Cons.prems(3,5) by simp_all
  then have len': "sint c + int (length tasks) * 2 ^ 51 < 2 ^ 63" "sint m + int (length tasks) * 2 ^ 51 < 2 ^ 63"
    by (simp_all add: algebra_simps)
  show ?case
  proof (cases "cpp_startable req t")
    case False
    with Cons.IH [OF _ Cons.prems(2) len'(1) Cons.prems(4) len'(2)] Cons.prems(1) show ?thesis
      by (simp add: cpp_not_startable del: cpp_plan_loop.simps)
  next
    case True
    with Cons.prems(1) obtain a0 where a0: "cpp_ResolveResources t (cq_predictions req) = Some a0" by auto
    from True Cons.prems(1) have "moderate64 ?x" "moderate64 ?y" by auto
    note x = moderate_sum [OF Cons.prems(2) len(1) this(1)] and y = moderate_sum [OF Cons.prems(4) len(2) this(2)]
    note step = cpp_plan_step [OF True a0 x(1) y(1)] and fit = cpp_fits [OF assms(1,2) x(2) y(2)]
    have sums: "of_int (sint (c + ?x)) / 1000 = of_int (sint c) / 1000 + cpp_cpu ?a"
      "of_int (sint (m + ?y)) * 2 ^ 20 = of_int (sint m) * 2 ^ 20 + cpp_mem ?a"
      by (simp_all add: x(2) y(2) cpp_cpu_def cpp_mem_def add_divide_distrib distrib_right)
    note IH0 = Cons.IH [OF _ Cons.prems(2) len'(1) Cons.prems(4) len'(2)]
      and IH1 = Cons.IH [OF _ x(3,4) y(3,4), unfolded sums]
    show ?thesis
    proof (cases "cpp_over mc mm (c + ?x) (m + ?y)")
      case over: True
      with True fit step IH0 Cons.prems(1) show ?thesis by (auto simp del: cpp_plan_loop.simps)
    next
      case under: False
      with True fit step IH1 Cons.prems(1) show ?thesis by (auto simp del: cpp_plan_loop.simps)
    qed
  qed
qed

fun running_cpu :: "string \<times> cpp_TaskStatus \<Rightarrow> int" where
  "running_cpu (n, s) = (if cs_phase s = ''Running'' then sint (cs_allocated_cpu_millicores s) else 0)"

fun running_mem :: "string \<times> cpp_TaskStatus \<Rightarrow> int" where
  "running_mem (n, s) = (if cs_phase s = ''Running'' then sint (cs_allocated_memory_mib s) else 0)"

lemma cpp_usage_loop_sum:
  assumes "\<forall>(n, s) \<in> set xs. moderate64 (cs_allocated_cpu_millicores s) \<and> moderate64 (cs_allocated_memory_mib s)"
    and "0 \<le> sint c" "sint c + int (length xs) * 2 ^ 51 < 2 ^ 63"
    and "0 \<le> sint m" "sint m + int (length xs) * 2 ^ 51 < 2 ^ 63"
  shows "\<exists>c' m'. cpp_usage_loop xs c m = Some (c', m') \<and> sint c' = sint c + sum_list (map running_cpu xs)
    \<and> sint m' = sint m + sum_list (map running_mem xs)
    \<and> 0 \<le> sint c' \<and> sint c' \<le> sint c + int (length xs) * 2 ^ 51
    \<and> 0 \<le> sint m' \<and> sint m' \<le> sint m + int (length xs) * 2 ^ 51"
  using assms
proof (induction xs arbitrary: c m)
  case Nil
  then show ?case by simp
next
  case (Cons p xs)
  obtain n s where p: "p = (n, s)" by fastforce
  have len: "sint c + int (Suc (length xs)) * 2 ^ 51 < 2 ^ 63" "sint m + int (Suc (length xs)) * 2 ^ 51 < 2 ^ 63"
    using Cons.prems(3,5) by simp_all
  then have len': "sint c + int (length xs) * 2 ^ 51 < 2 ^ 63" "sint m + int (length xs) * 2 ^ 51 < 2 ^ 63"
    by (simp_all add: algebra_simps)
  from Cons.prems(1) p have s: "moderate64 (cs_allocated_cpu_millicores s)" "moderate64 (cs_allocated_memory_mib s)" by auto
  note x = moderate_sum [OF Cons.prems(2) len(1) s(1)] and y = moderate_sum [OF Cons.prems(4) len(2) s(2)]
  have rest: "\<forall>(n, s) \<in> set xs. moderate64 (cs_allocated_cpu_millicores s) \<and> moderate64 (cs_allocated_memory_mib s)"
    using Cons.prems(1) by auto
  show ?case
  proof (cases "cs_phase s = ''Running''")
    case True
    from Cons.IH [OF rest x(3,4) y(3,4)] True s x(1,2) y(1,2) show ?thesis
      by (auto simp: p moderate64_def algebra_simps)
  next
    case False
    from Cons.IH [OF rest Cons.prems(2) len'(1) Cons.prems(4) len'(2)] False show ?thesis
      by (fastforce simp: p algebra_simps)
  qed
qed

section \<open>The requests of the Go client\<close>

text \<open>
  A hint whose requests are all zero is the exception on this side: the Go scheduler takes it as
  it is, the C++ one falls back to the defaults.
\<close>

definition hints_ask :: "('q \<Rightarrow> rat) \<Rightarrow> 'q AdaptiveWorkflowSpec \<Rightarrow> 'q Predictions \<Rightarrow> bool" where
  "hints_ask amt spec preds \<longleftrightarrow> (\<forall>t \<in> set (sp_Tasks spec). fmlookup preds (tt_Name t) = None
     \<longrightarrow> rr_Requests (tt_BaseResources t) \<noteq> fmempty
     \<longrightarrow> 0 < amount_of amt (rr_Requests (tt_BaseResources t)) ResourceCPU
       \<or> 0 < amount_of amt (rr_Requests (tt_BaseResources t)) ResourceMemory)"

lemma cpp_request_views:
  assumes "map_order o1" "map_order o2" "map_order ords" "map_order ordp"
    and "r = ProtoToPlanRequest o1 o2 (plan_request L ords ordp spec sts preds)"
  shows "cq_tasks r = map (\<lambda>t. cpp_task (dag_task L t)) (sp_Tasks spec)"
    and "fmlookup (cq_task_statuses r) n = map_option (\<lambda>ts. cpp_status (status_message L ts)) (fmlookup sts n)"
    and "fmlookup (cq_predictions r) n = map_option (\<lambda>p. cpp_prediction (prediction_message L p)) (fmlookup preds n)"
    and "cq_max_resources r = cpp_limit (limit_message L (sp_MaxResources spec))"
    and "cq_has_max_resources r \<longleftrightarrow> sp_MaxResources spec \<noteq> fmempty"
  using assms
  by (simp_all add: ProtoToPlanRequest_def plan_request_def copy_loop_range option.map_comp comp_def limit_message_def)

abbreviation local_requests :: "'q golib \<Rightarrow> 'q Predictions \<Rightarrow> 'q TaskTemplate \<Rightarrow> 'q ResourceList" where
  "local_requests L preds t \<equiv> rr_Requests (the (resolveResources L t preds))"

lemma cpp_resolve_whole:
  assumes q: "quantity_values L amt" "quantity_parses L amt"
    and w: "whole_inputs amt spec sts preds" "hints_sent spec preds" "hints_ask amt spec preds" and t: "t \<in> set (sp_Tasks spec)"
    and p: "fmlookup preds' (tt_Name t) = map_option (\<lambda>p. cpp_prediction (prediction_message L p)) (fmlookup preds (tt_Name t))"
  shows "\<exists>b. cpp_ResolveResources (cpp_task (dag_task L t)) preds' = Some b
    \<and> whole amt (local_requests L preds t) (sint (ca_cpu_request_millicores b)) (sint (ca_memory_request_mib b))
    \<and> sint (ca_cpu_limit_millicores b) \<in> {sint (ca_cpu_request_millicores b)..2 * sint (ca_cpu_request_millicores b)}
    \<and> sint (ca_memory_limit_mib b) \<in> {sint (ca_memory_request_mib b)..2 * sint (ca_memory_request_mib b)}"
proof (cases "fmlookup preds (tt_Name t)")
  case (Some x)
  let ?rl = "rr_Requests (tp_EstimatedResources x)"
  from w(1) Some have "whole_units amt ?rl" by (auto simp: whole_inputs_def)
  then obtain c m where cm: "whole amt ?rl c m" by (auto simp: whole_units_def)
  note s = whole_sent [OF q(1) cm]
  from cm have "0 \<le> c" "c \<le> 2 ^ 51" "0 \<le> m" "m \<le> 2 ^ 51" by (auto simp: whole_def)
  with s cpp_times_1_5_exact [of "cpu_millicores L ?rl"] cpp_times_1_5_exact [of "memory_mib L ?rl"]
  obtain u v where "cpp_times_1_5 (cpu_millicores L ?rl) = Some u" "sint u = (3 * c) sdiv 2"
    "cpp_times_1_5 (memory_mib L ?rl) = Some v" "sint v = (3 * m) sdiv 2" by auto
  with Some p s cm \<open>0 \<le> c\<close> \<open>0 \<le> m\<close> show ?thesis
    by (simp add: cpp_ResolveResources_def resolveResources_def cpp_task_def dag_task_def cpp_prediction_def
        prediction_message_def sdiv_nonneg_pos) presburger
next
  case None
  note none = None
  let ?rl = "rr_Requests (tt_BaseResources t)"
  have local: "resolveResources L t preds = resolveResources L t fmempty" by (simp add: resolveResources_def None)
  show ?thesis
  proof (cases "?rl = fmempty")
    case True
    with w(2) t None have lim: "rr_Limits (tt_BaseResources t) = fmempty" by (auto simp: hints_sent_def)
    obtain res where r: "resolveResources L t fmempty = Some res" using resolveResources_total [OF q(2)] by blast
    have "cpp_times_kLimitMultiplier kDefaultCpuMillicores = Some 200" "cpp_times_kLimitMultiplier kDefaultMemoryMib = Some 256"
      by (simp_all add: cpp_times_kLimitMultiplier_def kDefaultCpuMillicores_def kDefaultMemoryMib_def f64_round_exact
          cpp_cast_int64_def int64_range_def)
    with None p True r default_whole [OF q(2) r True lim] local show ?thesis
      by (simp add: cpp_ResolveResources_def cpp_task_def dag_task_def hint_of_def kDefaultCpuMillicores_def kDefaultMemoryMib_def)
  next
    case False
    from w(1) t have "whole_units amt ?rl" by (simp add: whole_inputs_def)
    then obtain c m where cm: "whole amt ?rl c m" by (auto simp: whole_units_def)
    note s = whole_sent [OF q(1) cm]
    from cm have b: "0 \<le> c" "c \<le> 2 ^ 51" "0 \<le> m" "m \<le> 2 ^ 51" by (auto simp: whole_def)
    from w(3) t None False have "0 < amount_of amt ?rl ResourceCPU \<or> 0 < amount_of amt ?rl ResourceMemory"
      by (simp add: hints_ask_def)
    with cm have asks: "0 < c \<or> 0 < m" by (auto simp: whole_def zero_less_mult_iff zero_less_divide_iff)
    from s b cpp_times_kLimitMultiplier_exact [of "cpu_millicores L ?rl"] cpp_times_kLimitMultiplier_exact [of "memory_mib L ?rl"]
    obtain u v where "cpp_times_kLimitMultiplier (cpu_millicores L ?rl) = Some u" "sint u = 2 * c"
      "cpp_times_kLimitMultiplier (memory_mib L ?rl) = Some v" "sint v = 2 * m" by auto
    with None p False s cm asks b show ?thesis unfolding local
      by (simp add: cpp_ResolveResources_def resolveResources_def cpp_task_def dag_task_def hint_of_def)
  qed
qed

lemma sum_statuses:
  assumes "map_order ord" "\<And>n. fmlookup m n = map_option g (fmlookup sts n)"
    and "\<And>n ts. fmlookup sts n = Some ts \<Longrightarrow> of_int (f (n, g ts)) * k = (if ts_Phase ts = TaskPhaseRunning
      then amount_of amt (rr_Requests (ts_AllocatedResources ts)) r else 0)"
  shows "of_int (sum_list (map f (go_range ord m))) * k = usage_of amt sts r"
proof -
  have dom: "fmdom' m = fmdom' sts"
    by (rule set_eqI) (simp add: fmlookup_dom'_iff assms(2))
  have "sum_list (map f (go_range ord m)) = (\<Sum>n \<in> fmdom' sts. f (n, the (fmlookup m n)))"
    using sum_go_range [OF assms(1), of "\<lambda>k v. f (k, v)" m] by (simp add: dom)
  then have "of_int (sum_list (map f (go_range ord m))) * k = (\<Sum>n \<in> fmdom' sts. of_int (f (n, the (fmlookup m n))) * k)"
    by (simp add: sum_distrib_right)
  also have "\<dots> = usage_of amt sts r"
    unfolding usage_of_def
  proof (rule sum.cong [OF refl])
    fix n assume "n \<in> fmdom' sts"
    then obtain ts where "fmlookup sts n = Some ts" by (auto simp: fmlookup_dom'_iff)
    with assms(3) [OF this] show "of_int (f (n, the (fmlookup m n))) * k = (let ts = the (fmlookup sts n) in
        if ts_Phase ts = TaskPhaseRunning then amount_of amt (rr_Requests (ts_AllocatedResources ts)) r else 0)"
      by (simp only: assms(2) Let_def option.map option.sel)
  qed
  finally show ?thesis .
qed

lemma length_statuses:
  assumes "map_order ord" "\<And>n. fmlookup m n = map_option g (fmlookup sts n)"
  shows "length (go_range ord m) = go_len sts"
proof -
  have "fmdom' m = fmdom' sts" by (rule set_eqI) (simp add: fmlookup_dom'_iff assms(2))
  then have "length (ord m) = card (fmdom' sts)" using assms(1) by (metis map_order_def distinct_card)
  then show ?thesis by (simp add: go_range_def go_len_def fcard.rep_eq fmdom'_alt_def)
qed

lemma whole_moderate: "whole amt rl (sint x) (sint y) \<Longrightarrow> moderate64 x \<and> moderate64 y"
  by (auto simp: whole_def moderate64_def)

lemma whole_sent_moderate:
  assumes "quantity_values L amt" "whole_units amt rl"
  shows "whole amt rl (sint (cpu_millicores L rl)) (sint (memory_mib L rl))"
  using assms(2) whole_sent [OF assms(1)] by (auto simp: whole_units_def)

section \<open>The same plan\<close>

text \<open>What the service allocates and what the manager's own scheduler would allocate.\<close>

definition cpp_kept :: "('q \<Rightarrow> rat) \<Rightarrow> cpp_TaskAllocation \<Rightarrow> 'q TaskAllocation \<Rightarrow> bool" where
  "cpp_kept amt b a \<longleftrightarrow> ca_task_name b = ta_TaskName a
     \<and> whole amt (rr_Requests (ta_Resources a)) (sint (ca_cpu_request_millicores b)) (sint (ca_memory_request_mib b))
     \<and> sint (ca_cpu_limit_millicores b) \<in> {sint (ca_cpu_request_millicores b)..2 * sint (ca_cpu_request_millicores b)}
     \<and> sint (ca_memory_limit_mib b) \<in> {sint (ca_memory_request_mib b)..2 * sint (ca_memory_request_mib b)}"

lemma cpp_kept_amounts: "cpp_kept amt b a \<Longrightarrow>
    cpp_cpu b = alloc_amount amt ResourceCPU a \<and> cpp_mem b = alloc_amount amt ResourceMemory a"
  by (simp add: cpp_kept_def whole_def cpp_cpu_def cpp_mem_def alloc_amount_def)

lemma cpp_candidates:
  assumes "quantity_values L amt" "quantity_parses L amt" "map_order o1" "map_order o2" "map_order ords" "map_order ordp"
    and "whole_inputs amt spec sts preds" "hints_sent spec preds" "hints_ask amt spec preds"
    and r: "r = ProtoToPlanRequest o1 o2 (plan_request L ords ordp spec sts preds)"
  shows "list_all2 (cpp_kept amt) (map (cpp_candidate (cq_predictions r)) (filter (cpp_startable r) (cq_tasks r)))
      (candidates L spec sts preds)"
    and "t \<in> set (cq_tasks r) \<Longrightarrow> cpp_ResolveResources t (cq_predictions r) \<noteq> None
      \<and> moderate64 (ca_cpu_request_millicores (cpp_candidate (cq_predictions r) t))
      \<and> moderate64 (ca_memory_request_mib (cpp_candidate (cq_predictions r) t))"
proof -
  note v = cpp_request_views [OF assms(3-6) r]
  let ?f = "\<lambda>t. cpp_task (dag_task L t)"
  have one: "cpp_ResolveResources (?f t) (cq_predictions r) \<noteq> None
      \<and> cpp_kept amt (cpp_candidate (cq_predictions r) (?f t)) (candidate L preds t)"
    if "t \<in> set (sp_Tasks spec)" for t
  proof -
    from cpp_resolve_whole [OF assms(1,2,7,8,9) that v(3) [of "tt_Name t"]]
    obtain b where "cpp_ResolveResources (?f t) (cq_predictions r) = Some b"
      "whole amt (local_requests L preds t) (sint (ca_cpu_request_millicores b)) (sint (ca_memory_request_mib b))"
      "sint (ca_cpu_limit_millicores b) \<in> {sint (ca_cpu_request_millicores b)..2 * sint (ca_cpu_request_millicores b)}"
      "sint (ca_memory_limit_mib b) \<in> {sint (ca_memory_request_mib b)..2 * sint (ca_memory_request_mib b)}" by blast
    then show ?thesis by (simp add: cpp_kept_def cpp_candidate_def candidate_def cpp_task_def dag_task_def)
  qed
  have start: "cpp_startable r (?f t) = startable sts t" for t
    unfolding r cpp_startable_wire [OF assms(3)] by (rule wire_startable_request [OF assms(5)])
  have "list_all2 (cpp_kept amt) (map (cpp_candidate (cq_predictions r)) (filter (cpp_startable r) (map ?f ts)))
      (map (candidate L preds) (filter (startable sts) ts))" if "set ts \<subseteq> set (sp_Tasks spec)" for ts
    using that one by (induction ts) (auto simp: start)
  then show "list_all2 (cpp_kept amt) (map (cpp_candidate (cq_predictions r)) (filter (cpp_startable r) (cq_tasks r)))
      (candidates L spec sts preds)" by (simp add: v(1) candidates_def)
  show "t \<in> set (cq_tasks r) \<Longrightarrow> cpp_ResolveResources t (cq_predictions r) \<noteq> None
      \<and> moderate64 (ca_cpu_request_millicores (cpp_candidate (cq_predictions r) t))
      \<and> moderate64 (ca_memory_request_mib (cpp_candidate (cq_predictions r) t))"
    using one v(1) whole_moderate unfolding cpp_kept_def by (metis (no_types, lifting) image_iff list.set_map)
qed

lemma cpp_usage:
  assumes "quantity_values L amt" "map_order o1" "map_order o2" "map_order o3" "map_order ords" "map_order ordp"
    and "whole_inputs amt spec sts preds" "int (go_len sts) < 4096"
    and r: "r = ProtoToPlanRequest o1 o2 (plan_request L ords ordp spec sts preds)"
  obtains c m where "cpp_usage_loop (go_range o3 (cq_task_statuses r)) 0 0 = Some (c, m)"
    "0 \<le> sint c" "sint c \<le> int (go_len sts) * 2 ^ 51" "0 \<le> sint m" "sint m \<le> int (go_len sts) * 2 ^ 51"
    "of_int (sint c) / 1000 = usage_of amt sts ResourceCPU" "of_int (sint m) * 2 ^ 20 = usage_of amt sts ResourceMemory"
proof -
  note v = cpp_request_views [OF assms(2,3,5,6) r]
  let ?xs = "go_range o3 (cq_task_statuses r)"
  have w: "whole amt (rr_Requests (ts_AllocatedResources ts)) (sint (cpu_millicores L (rr_Requests (ts_AllocatedResources ts))))
      (sint (memory_mib L (rr_Requests (ts_AllocatedResources ts))))" if "fmlookup sts n = Some ts" for n ts
    using that assms(7) by (intro whole_sent_moderate [OF assms(1)]) (auto simp: whole_inputs_def)
  have mod: "\<forall>(n, s) \<in> set ?xs. moderate64 (cs_allocated_cpu_millicores s) \<and> moderate64 (cs_allocated_memory_mib s)"
    using whole_moderate [OF w] by (auto simp: set_go_range [OF assms(4)] v(2) cpp_status_def status_message_def)
  have len: "length ?xs = go_len sts" by (rule length_statuses [OF assms(4) v(2)])
  have bound: "sint (0 :: int64) + int (length ?xs) * 2 ^ 51 < 2 ^ 63" using assms(8) by (simp add: len)
  from cpp_usage_loop_sum [OF mod _ bound _ bound] len obtain c m where
    u: "cpp_usage_loop ?xs 0 0 = Some (c, m)" "sint c = sum_list (map running_cpu ?xs)" "sint m = sum_list (map running_mem ?xs)"
      "0 \<le> sint c" "sint c \<le> int (go_len sts) * 2 ^ 51" "0 \<le> sint m" "sint m \<le> int (go_len sts) * 2 ^ 51" by auto
  have "of_int (sum_list (map running_cpu ?xs)) * (1 / 1000) = usage_of amt sts ResourceCPU"
    by (rule sum_statuses [OF assms(4) v(2)])
      (use w in \<open>auto simp: cpp_status_def status_message_def whole_def TaskPhaseRunning_def\<close>)
  moreover have "of_int (sum_list (map running_mem ?xs)) * 2 ^ 20 = usage_of amt sts ResourceMemory"
    by (rule sum_statuses [OF assms(4) v(2)])
      (use w in \<open>auto simp: cpp_status_def status_message_def whole_def TaskPhaseRunning_def\<close>)
  ultimately have "of_int (sint c) / 1000 = usage_of amt sts ResourceCPU" "of_int (sint m) * 2 ^ 20 = usage_of amt sts ResourceMemory"
    unfolding u(2,3) by simp_all
  with u(1,4-7) show ?thesis by (rule that)
qed

lemma cpp_limits:
  assumes "quantity_values L amt" "map_order o1" "map_order o2" "map_order ords" "map_order ordp"
    and "whole_inputs amt spec sts preds"
    and r: "r = ProtoToPlanRequest o1 o2 (plan_request L ords ordp spec sts preds)"
  shows "whole amt (sp_MaxResources spec)
    (sint (if cq_has_max_resources r then cl_cpu_millicores (cq_max_resources r) else 0))
    (sint (if cq_has_max_resources r then cl_memory_mib (cq_max_resources r) else 0))"
proof (cases "sp_MaxResources spec = fmempty")
  case True
  then show ?thesis by (simp add: cpp_request_views [OF assms(2-5) r] whole_fmempty)
next
  case False
  have "whole_units amt (sp_MaxResources spec)" using assms(6) by (simp add: whole_inputs_def)
  from whole_sent_moderate [OF assms(1) this] False show ?thesis
    by (simp add: cpp_request_views [OF assms(2-5) r] cpp_limit_def limit_message_def)
qed

lemma cpp_plan_whole:
  assumes "quantity_values L amt" "quantity_parses L amt" "map_order o1" "map_order o2" "map_order o3" "map_order ords" "map_order ordp"
    and "whole_inputs amt spec sts preds" "hints_sent spec preds" "hints_ask amt spec preds"
    and "go_len sts + length (sp_Tasks spec) < 4096"
  obtains as where "OptimizerServiceImpl_Plan o1 o2 o3 (plan_request L ords ordp spec sts preds)
      = Some (Inr \<lparr> pr_TasksToStart = map cpp_allocation_message as \<rparr>)"
    "list_all2 (cpp_kept amt) as (greedy_pack L amt spec sts preds)"
proof -
  define r where r: "r = ProtoToPlanRequest o1 o2 (plan_request L ords ordp spec sts preds)"
  let ?mc = "if cq_has_max_resources r then cl_cpu_millicores (cq_max_resources r) else 0"
  let ?mm = "if cq_has_max_resources r then cl_memory_mib (cq_max_resources r) else 0"
  note cand = cpp_candidates [OF assms(1-4,6,7,8-10) r]
  have lim: "whole amt (sp_MaxResources spec) (sint ?mc) (sint ?mm)" by (rule cpp_limits [OF assms(1,3,4,6,7,8) r])
  obtain c m where u: "cpp_usage_loop (go_range o3 (cq_task_statuses r)) 0 0 = Some (c, m)"
    "0 \<le> sint c" "sint c \<le> int (go_len sts) * 2 ^ 51" "0 \<le> sint m" "sint m \<le> int (go_len sts) * 2 ^ 51"
    "of_int (sint c) / 1000 = usage_of amt sts ResourceCPU" "of_int (sint m) * 2 ^ 20 = usage_of amt sts ResourceMemory"
    by (rule cpp_usage [OF assms(1,3,4,5,6,7,8) _ r]) (use assms(11) in simp)
  have len: "length (cq_tasks r) = length (sp_Tasks spec)" by (simp add: r ProtoToPlanRequest_def plan_request_def)
  have n: "int (go_len sts) + int (length (sp_Tasks spec)) < 4096" using assms(11) by linarith
  have "sint c + int (length (cq_tasks r)) * 2 ^ 51 < 2 ^ 63" "sint m + int (length (cq_tasks r)) * 2 ^ 51 < 2 ^ 63"
    using u(3,5) n by (simp_all add: len)
  with cpp_plan_loop_pack [of ?mc ?mm "cq_tasks r" r c m "[]"] lim cand(2) u(2,4)
  have "cpp_plan_loop ?mc ?mm r (cq_tasks r) c m [] = Some (pack (of_int (sint ?mc) / 1000) (of_int (sint ?mm) * 2 ^ 20)
      cpp_cpu cpp_mem (map (cpp_candidate (cq_predictions r)) (filter (cpp_startable r) (cq_tasks r)))
      (of_int (sint c) / 1000) (of_int (sint m) * 2 ^ 20))" (is "_ = Some ?as")
    by (auto simp: whole_def)
  with u(1) have "OptimizerServiceImpl_Plan o1 o2 o3 (plan_request L ords ordp spec sts preds)
      = Some (Inr \<lparr> pr_TasksToStart = map cpp_allocation_message ?as \<rparr>)"
    by (simp add: OptimizerServiceImpl_Plan_def cpp_GreedyOptimizer_Plan_def PlanResponseToProto_def Let_def flip: r)
  moreover have "of_int (sint ?mc) / 1000 = amount_of amt (sp_MaxResources spec) ResourceCPU"
    "of_int (sint ?mm) * 2 ^ 20 = amount_of amt (sp_MaxResources spec) ResourceMemory"
    using lim unfolding whole_def by simp_all
  then have "list_all2 (cpp_kept amt) ?as (greedy_pack L amt spec sts preds)"
    unfolding greedy_pack_def u(6,7) using pack_list_all2 [OF cand(1) cpp_kept_amounts] by simp
  ultimately show ?thesis by (rule that)
qed

end
