(* ===== verification/Remote_Properties.thy ===== *)
theory Remote_Properties
  imports Remote_Exact
begin

text \<open>
  Properties of the gRPC clients and of the optimizer server: where quantities are whole the
  remote scheduler plans as the local one; in general the conversions lose less than a millicore
  and a mebibyte per value; nothing panics; and two consequences of sending quantities as whole
  numbers that are zero when absent, a memory limit that disappears and limits that become zero.
\<close>

section \<open>The conversions do not panic\<close>

lemma parse_resources_obtain:
  assumes "quantity_parses L amt" obtains rl where "parse_resources L a b = Some rl"
  using parse_resources_total [OF assms] by blast

lemma status_of_total: "quantity_parses L amt \<Longrightarrow> \<exists>ts. status_of L s = Some ts"
  by (rule parse_resources_obtain [of L amt "ps_AllocatedCpuMillicores s" "ps_AllocatedMemoryMib s"])
    (simp_all add: status_of_def)

lemma template_of_total: "quantity_parses L amt \<Longrightarrow> \<exists>u. template_of L t = Some u"
proof -
  assume q: "quantity_parses L amt"
  show ?thesis
  proof (cases "dt_BaseResources t")
    case (Some h)
    then show ?thesis
      by (rule_tac parse_resources_obtain [OF q, of "rh_CpuMillicores h" "rh_MemoryMib h"]) (simp add: template_of_def)
  qed (simp add: template_of_def)
qed

lemma prediction_of_total:
  assumes "quantity_parses L amt" shows "\<exists>p'. prediction_of L p = Some p'"
proof -
  obtain rl rl' where "parse_resources L (pp_CpuMillicores p) (pp_MemoryMib p) = Some rl"
    "parse_resources L (int64_of_f64_times_1_5 L (pp_CpuMillicores p)) (int64_of_f64_times_1_5 L (pp_MemoryMib p)) = Some rl'"
    by (metis parse_resources_obtain [OF assms])
  then show ?thesis by (simp add: prediction_of_def)
qed

lemma allocation_of_total:
  assumes "quantity_parses L amt" shows "\<exists>a. allocation_of L ta = Some a"
proof -
  obtain rl rl' where "parse_resources L (pa_CpuRequestMillicores ta) (pa_MemoryRequestMib ta) = Some rl"
    "parse_resources L (pa_CpuLimitMillicores ta) (pa_MemoryLimitMib ta) = Some rl'"
    by (metis parse_resources_obtain [OF assms])
  then show ?thesis by (simp add: allocation_of_def)
qed

lemma protoToSpec_total:
  assumes "quantity_parses L amt"
  obtains mx where "protoToSpec L req = Some \<lparr> sp_Tasks = map (\<lambda>t. the (template_of L t)) (pq_Tasks req),
      sp_MaxResources = mx, sp_OptimizationGoal = pq_OptimizationGoal req \<rparr>"
    "(case pq_MaxResources req of None \<Rightarrow> Some fmempty
      | Some m \<Rightarrow> parse_resources L (rm_CpuMillicores m) (rm_MemoryMib m)) = Some mx"
proof -
  have "templates_loop L (pq_Tasks req) [] = Some (map (\<lambda>t. the (template_of L t)) (pq_Tasks req))"
    using template_of_total [OF assms] by (subst templates_loop_total) (auto simp: not_None_eq)
  moreover obtain mx where "(case pq_MaxResources req of None \<Rightarrow> Some fmempty
      | Some m \<Rightarrow> parse_resources L (rm_CpuMillicores m) (rm_MemoryMib m)) = Some mx"
    by (cases "pq_MaxResources req") (auto intro: parse_resources_obtain [OF assms])
  ultimately show ?thesis using that by (simp add: protoToSpec_def)
qed

lemma convert_loop_always: "\<forall>v. \<exists>u. f v = Some u \<Longrightarrow> \<exists>m'. convert_loop f xs acc = Some m'"
  by (subst convert_loop_total) (auto simp: not_None_eq)

section \<open>Equivalence with the local scheduler\<close>

lemma ex_whole: "whole_units (\<lambda>q. q) (fmupd ResourceCPU (1 :: rat) fmempty)"
  unfolding whole_units_def whole_def by (intro exI [of _ 1000] exI [of _ 0]) (simp add: amount_of_def)

lemma ex_whole_inputs: "whole_inputs (\<lambda>q. q) ex_spec ex_statuses fmempty"
  by (auto simp: whole_inputs_def ex_defs ex_whole split: if_splits)

lemma ex_hints_sent: "hints_sent ex_spec fmempty"
  by (auto simp: hints_sent_def ex_defs)

text \<open>
  C12. Where every quantity is a whole number of millicores and mebibytes, and every hint has
  requests, the remote scheduler returns, and its plan has the same tasks in the same order with
  the same CPU and memory requests as the plan of the scheduler in the manager's own process.
\<close>

theorem remote_plans_as_local:
  assumes "quantity_arith L amt" "quantity_values L amt" "quantity_parses L amt"
    and "map_order o1" "map_order o2" "map_order o3" "map_order ords" "map_order ordp" "map_order ord"
    and "delivers rpc (optimizerServer_Plan L o1 o2 (GreedyOptimizer_Plan L o3))"
    and "whole_inputs amt spec sts preds" "hints_sent spec preds"
  shows "\<exists>plan w' local. OptimizerClient_Plan L ords ordp rpc spec sts preds w = (Some (Inr plan), w')
    \<and> GreedyOptimizer_Plan L ord spec sts preds = Some (Inr local)
    \<and> list_all2 (\<lambda>a b. ta_TaskName a = ta_TaskName b \<and> alloc_amount amt ResourceCPU a = alloc_amount amt ResourceCPU b
        \<and> alloc_amount amt ResourceMemory a = alloc_amount amt ResourceMemory b)
      (pl_TasksToStart plan) (pl_TasksToStart local)"
proof -
  obtain plan w' where p: "OptimizerClient_Plan L ords ordp rpc spec sts preds w = (Some (Inr plan), w')"
    "list_all2 (allocation_kept amt) (pl_TasksToStart plan) (greedy_pack L amt spec sts preds)"
    by (rule remote_same_plan [OF assms(1-8,10-12)])
  from p(2) have "list_all2 (\<lambda>a b. ta_TaskName a = ta_TaskName b \<and> alloc_amount amt ResourceCPU a = alloc_amount amt ResourceCPU b
      \<and> alloc_amount amt ResourceMemory a = alloc_amount amt ResourceMemory b) (pl_TasksToStart plan) (greedy_pack L amt spec sts preds)"
    by (rule list_all2_mono) (simp add: same_amounts_def alloc_amount_def)
  with p(1) greedy_refines [OF assms(1,3,9)] show ?thesis by (intro exI conjI) (assumption | simp)+
qed

theorem remote_plans_as_local_witness:
  "\<exists>plan w'. OptimizerClient_Plan rat_lib sorted_order sorted_order
      (loopback (optimizerServer_Plan rat_lib sorted_order sorted_order (GreedyOptimizer_Plan rat_lib sorted_order)))
      ex_spec ex_statuses fmempty () = (Some (Inr plan), w')
    \<and> map ta_TaskName (pl_TasksToStart plan) = [''a'']"
proof -
  from remote_plans_as_local [OF rat_lib_arith rat_lib_values rat_lib_parses map_order_sorted map_order_sorted
      map_order_sorted map_order_sorted map_order_sorted map_order_sorted loopback_laws(2) ex_whole_inputs ex_hints_sent, of "()"]
  obtain plan w' local where p: "OptimizerClient_Plan rat_lib sorted_order sorted_order
      (loopback (optimizerServer_Plan rat_lib sorted_order sorted_order (GreedyOptimizer_Plan rat_lib sorted_order)))
      ex_spec ex_statuses fmempty () = (Some (Inr plan), w')"
    "GreedyOptimizer_Plan rat_lib sorted_order ex_spec ex_statuses fmempty = Some (Inr local)"
    "list_all2 (\<lambda>a b. ta_TaskName a = ta_TaskName b \<and> alloc_amount (\<lambda>q. q) ResourceCPU a = alloc_amount (\<lambda>q. q) ResourceCPU b
      \<and> alloc_amount (\<lambda>q. q) ResourceMemory a = alloc_amount (\<lambda>q. q) ResourceMemory b) (pl_TasksToStart plan) (pl_TasksToStart local)"
    by blast
  from p(2) have "pl_TasksToStart local = [candidate rat_lib fmempty (ex_task ''a'' [] 1)]"
    by (auto simp: ex_greedy ex_greedy_pack)
  with p(3) have "map ta_TaskName (pl_TasksToStart plan) = [''a'']"
    by (auto simp: list_all2_Cons2 candidate_def ex_task_def)
  with p(1) show ?thesis by (intro exI conjI)
qed

section \<open>Bounds and round trips on the wire\<close>

text \<open>What a value is after it was sent as a whole number and parsed again.\<close>

definition close_amounts :: "('q \<Rightarrow> rat) \<Rightarrow> 'q ResourceList \<Rightarrow> 'q ResourceList \<Rightarrow> bool" where
  "close_amounts amt rl' rl \<longleftrightarrow>
     amount_of amt rl ResourceCPU \<le> amount_of amt rl' ResourceCPU
     \<and> amount_of amt rl' ResourceCPU < amount_of amt rl ResourceCPU + 1 / 1000
     \<and> amount_of amt rl ResourceMemory - 2 ^ 20 < amount_of amt rl' ResourceMemory
     \<and> amount_of amt rl' ResourceMemory < amount_of amt rl ResourceMemory + 1"

definition moderate :: "('q \<Rightarrow> rat) \<Rightarrow> 'q ResourceList \<Rightarrow> bool" where
  "moderate amt rl \<longleftrightarrow> 0 \<le> amount_of amt rl ResourceCPU \<and> amount_of amt rl ResourceCPU < 2 ^ 52
     \<and> 0 \<le> amount_of amt rl ResourceMemory \<and> amount_of amt rl ResourceMemory < 2 ^ 61"

lemma mib_below: "k - 2 ^ 20 < k div 2 ^ 20 * 2 ^ 20" "k div 2 ^ 20 * 2 ^ 20 \<le> (k :: int)"
  using div_mult_mod_eq [of k "2 ^ 20"] pos_mod_bound [of "2 ^ 20" k] pos_mod_sign [of "2 ^ 20" k]
  by simp_all

lemma mib_small: "0 \<le> k \<Longrightarrow> k \<le> 2 ^ 61 \<Longrightarrow> \<bar>k div 2 ^ 20\<bar> * 2 ^ 20 < (2 ^ 63 :: int)"
  using mib_below [of k] by (simp add: abs_of_nonneg pos_imp_zdiv_nonneg_iff)

lemma wire_close:
  assumes "quantity_values L amt" "quantity_parses L amt" "moderate amt rl"
  obtains rl' where "parse_resources L (cpu_millicores L rl) (memory_mib L rl) = Some rl'" "close_amounts amt rl' rl"
proof -
  let ?c = "amount_of amt rl ResourceCPU" and ?m = "amount_of amt rl ResourceMemory"
  have c: "sint (cpu_millicores L rl) = \<lceil>1000 * ?c\<rceil>" and m: "sint (memory_mib L rl) = \<lceil>?m\<rceil> div 2 ^ 20"
    using assms(1,3) by (simp_all add: moderate_def cpu_millicores_value memory_mib_value)
  have "0 \<le> \<lceil>?m\<rceil>" "\<lceil>?m\<rceil> \<le> 2 ^ 61" using assms(3) by (simp_all add: moderate_def ceiling_le_iff)
  then have small: "\<bar>sint (memory_mib L rl)\<bar> * 2 ^ 20 < 2 ^ 63" unfolding m by (rule mib_small)
  obtain rl' where rl': "parse_resources L (cpu_millicores L rl) (memory_mib L rl) = Some rl'"
    "amount_of amt rl' ResourceCPU = of_int \<lceil>1000 * ?c\<rceil> / 1000"
    "amount_of amt rl' ResourceMemory = of_int (\<lceil>?m\<rceil> div 2 ^ 20) * 2 ^ 20"
    by (rule parse_resources_amounts [OF assms(2), of "cpu_millicores L rl" "memory_mib L rl"]) (use c m small in simp)
  note mib_below [of "\<lceil>?m\<rceil>"]
  then have "(of_int (\<lceil>?m\<rceil> - 2 ^ 20) :: rat) < of_int (\<lceil>?m\<rceil> div 2 ^ 20 * 2 ^ 20)"
    "(of_int (\<lceil>?m\<rceil> div 2 ^ 20 * 2 ^ 20) :: rat) \<le> of_int \<lceil>?m\<rceil>" by (simp_all only: of_int_less_iff of_int_le_iff)
  moreover have "?m \<le> of_int \<lceil>?m\<rceil>" "of_int \<lceil>?m\<rceil> < ?m + 1" "1000 * ?c \<le> of_int \<lceil>1000 * ?c\<rceil>"
    "of_int \<lceil>1000 * ?c\<rceil> < 1000 * ?c + 1" by linarith+
  ultimately have "close_amounts amt rl' rl" unfolding close_amounts_def rl'(2,3)
    by (intro conjI; simp only: of_int_diff of_int_mult of_int_power of_int_numeral; linarith)
  with rl'(1) that show ?thesis by blast
qed


definition ex_alloc_half :: "rat TaskAllocation" where
  "ex_alloc_half = \<lparr> ta_TaskName = ''a'', ta_Resources = \<lparr>
     rr_Requests = fmupd ResourceMemory 1000000 (fmupd ResourceCPU (1 / 3) fmempty), rr_Limits = fmempty \<rparr> \<rparr>"


text \<open>
  C30. The status map survives the way to the server: the server sees the same tasks, each with
  its phase and pod name, in whatever orders client and server visit the map, and where the
  allocated requests are whole it sees the same amounts.
\<close>

theorem statuses_roundtrip:
  assumes "quantity_values L amt" "quantity_parses L amt" "map_order ord" "map_order ords"
  shows "\<exists>sts'. protoToTaskStatuses L ord (pq_TaskStatuses (plan_request L ords ordp spec sts preds)) = Some sts'
    \<and> (\<forall>n. rel_option (\<lambda>ts' ts. ts_Phase ts' = ts_Phase ts \<and> ts_PodName ts' = ts_PodName ts
        \<and> (whole_units amt (rr_Requests (ts_AllocatedResources ts)) \<longrightarrow>
            same_amounts amt (rr_Requests (ts_AllocatedResources ts')) (rr_Requests (ts_AllocatedResources ts))))
      (fmlookup sts' n) (fmlookup sts n))"
proof -
  have "\<exists>ts'. status_of L (status_message L ts) = Some ts' \<and> ts_Phase ts' = ts_Phase ts \<and> ts_PodName ts' = ts_PodName ts
      \<and> (whole_units amt (rr_Requests (ts_AllocatedResources ts)) \<longrightarrow>
          same_amounts amt (rr_Requests (ts_AllocatedResources ts')) (rr_Requests (ts_AllocatedResources ts)))" for ts
  proof -
    obtain ts' where ts': "status_of L (status_message L ts) = Some ts'"
      using status_of_total [OF assms(2)] by blast
    then have "ts_Phase ts' = ts_Phase ts \<and> ts_PodName ts' = ts_PodName ts"
      by (auto simp: status_of_def status_message_def split: Option.bind_splits)
    moreover have "same_amounts amt (rr_Requests (ts_AllocatedResources ts')) (rr_Requests (ts_AllocatedResources ts))"
      if "whole_units amt (rr_Requests (ts_AllocatedResources ts))"
      using status_whole [OF assms(1,2) that] ts' by (metis option.inject)
    ultimately show ?thesis using ts' by blast
  qed
  then show ?thesis unfolding protoToTaskStatuses_def plan_request_def
    by (simp add: converted_view [OF assms(3,4)])
qed

theorem statuses_roundtrip_witness:
  "\<exists>sts' ts'. protoToTaskStatuses rat_lib sorted_order
      (pq_TaskStatuses (plan_request rat_lib sorted_order sorted_order ex_spec ex_statuses fmempty)) = Some sts'
    \<and> fmlookup sts' ''b'' = Some ts' \<and> ts_Phase ts' = TaskPhasePending
    \<and> amount_of (\<lambda>q. q) (rr_Requests (ts_AllocatedResources ts')) ResourceCPU = 1"
proof -
  from statuses_roundtrip [OF rat_lib_values rat_lib_parses map_order_sorted map_order_sorted,
      of sorted_order ex_spec ex_statuses fmempty]
  obtain sts' where s: "protoToTaskStatuses rat_lib sorted_order
      (pq_TaskStatuses (plan_request rat_lib sorted_order sorted_order ex_spec ex_statuses fmempty)) = Some sts'"
    "rel_option (\<lambda>ts' ts. ts_Phase ts' = ts_Phase ts \<and> ts_PodName ts' = ts_PodName ts
        \<and> (whole_units (\<lambda>q. q) (rr_Requests (ts_AllocatedResources ts)) \<longrightarrow>
            same_amounts (\<lambda>q. q) (rr_Requests (ts_AllocatedResources ts')) (rr_Requests (ts_AllocatedResources ts))))
      (fmlookup sts' ''b'') (fmlookup ex_statuses ''b'')" by blast
  have "fmlookup ex_statuses ''b'' = Some (ex_status TaskPhasePending)" by (simp add: ex_statuses_def)
  with s(2) ex_whole show ?thesis
    by (intro exI [of _ sts'] exI [of _ "the (fmlookup sts' ''b'')"] conjI s(1))
      (auto simp: rel_option_iff ex_status_def same_amounts_def amount_of_def split: option.splits)
qed

section \<open>Errors\<close>

text \<open>
  C28. Neither side panics. The server answers every request, however odd its numbers, with a
  plan; the clients return on every answer, and return an error exactly if the call failed.
\<close>

theorem remote_answers:
  assumes "quantity_arith L amt" "quantity_parses L amt" "map_order o3"
  shows "(\<exists>resp. optimizerServer_Plan L o1 o2 (GreedyOptimizer_Plan L o3) req = Some (Inr resp))
    \<and> (\<exists>r w'. OptimizerClient_Plan L ords ordp rpc spec sts preds w = (Some r, w')
        \<and> isl r = isl (fst (rpc (plan_request L ords ordp spec sts preds) w)))
    \<and> (\<exists>r w'. InferenceClient_Predict L ord rpc' spec w = (Some r, w')
        \<and> isl r = isl (fst (rpc' (predict_request L spec) w)))"
proof (intro conjI)
  obtain spec' where s: "protoToSpec L req = Some spec'"
    by (rule protoToSpec_total [OF assms(2)])
  obtain sts' preds' where "protoToTaskStatuses L o1 (pq_TaskStatuses req) = Some sts'"
    "protoToPredictions L o2 (pq_Predictions req) = Some preds'"
    unfolding protoToTaskStatuses_def protoToPredictions_def
    using convert_loop_always status_of_total [OF assms(2)] prediction_of_total [OF assms(2)] by metis
  with s greedy_refines [OF assms]
  show "\<exists>resp. optimizerServer_Plan L o1 o2 (GreedyOptimizer_Plan L o3) req = Some (Inr resp)"
    by (simp add: optimizerServer_Plan_def)
next
  have "\<exists>as. allocations_loop L tas [] = Some as" for tas
    using allocation_of_total [OF assms(2)] by (subst allocations_loop_total) (auto simp: not_None_eq)
  then show "\<exists>r w'. OptimizerClient_Plan L ords ordp rpc spec sts preds w = (Some r, w')
      \<and> isl r = isl (fst (rpc (plan_request L ords ordp spec sts preds) w))"
    unfolding OptimizerClient_Plan_def by (fastforce split: prod.splits sum.splits)
next
  have "\<exists>m. convert_loop (prediction_of L) xs fmempty = Some m" for xs
    using convert_loop_always prediction_of_total [OF assms(2)] by metis
  then show "\<exists>r w'. InferenceClient_Predict L ord rpc' spec w = (Some r, w')
      \<and> isl r = isl (fst (rpc' (predict_request L spec) w))"
    unfolding InferenceClient_Predict_def by (fastforce split: prod.splits sum.splits)
qed

definition ex_bad_request :: pb_PlanRequest where
  "ex_bad_request = \<lparr> pq_WorkflowName = '''', pq_OptimizationGoal = '''', pq_Tasks = [], pq_TaskStatuses = fmempty,
     pq_Predictions = fmempty, pq_MaxResources = Some \<lparr> rm_CpuMillicores = -1, rm_MemoryMib = -(2 ^ 63) \<rparr>,
     pq_CurrentUsage = None \<rparr>"

theorem remote_answers_witness:
  "\<exists>resp. optimizerServer_Plan rat_lib sorted_order sorted_order (GreedyOptimizer_Plan rat_lib sorted_order) ex_bad_request
    = Some (Inr resp)"
  by (rule remote_answers [OF rat_lib_arith rat_lib_parses map_order_sorted, THEN conjunct1])

section \<open>Predictions\<close>

lemma parse_resources_small:
  assumes "quantity_parses L amt" "\<bar>sint b\<bar> \<le> 2 ^ 42"
  obtains rl where "parse_resources L a b = Some rl" "amount_of amt rl ResourceCPU = of_int (sint a) / 1000"
    "amount_of amt rl ResourceMemory = of_int (sint b) * 2 ^ 20"
  by (rule parse_resources_amounts [OF assms(1), of a b]) (use assms(2) in auto)


definition ex_prediction :: pb_TaskPrediction where
  "ex_prediction = \<lparr> pp_CpuMillicores = 125, pp_MemoryMib = 64, pp_EstimatedDurationS = Finite 60, pp_Confidence = Finite 0 \<rparr>"

definition ex_predict_service :: "pb_PredictRequest \<Rightarrow> unit \<Rightarrow> (go_error + pb_PredictResponse) \<times> unit" where
  "ex_predict_service req w = (Inr \<lparr> pdr_Predictions = fmupd ''a'' ex_prediction fmempty \<rparr>, w)"


section \<open>What whole numbers cannot say\<close>

text \<open>A task keeps name and dependencies on the server, so the same tasks may start there.\<close>

lemma server_startable:
  assumes "quantity_parses L amt" "\<And>n. phase_of sts' n = phase_of sts n"
  shows "map tt_Name (filter (startable sts') (map (\<lambda>t. the (template_of L (dag_task L t))) ts))
    = map tt_Name (filter (startable sts) ts)"
proof -
  have "tt_Name (the (template_of L (dag_task L t))) = tt_Name t
      \<and> tt_Dependencies (the (template_of L (dag_task L t))) = tt_Dependencies t" for t
  proof -
    from template_of_total [OF assms(1), of "dag_task L t"] obtain u where "template_of L (dag_task L t) = Some u" ..
    with template_of_fields [OF this] show ?thesis by (simp add: dag_task_def)
  qed
  then have "startable sts' (the (template_of L (dag_task L t))) = startable sts t
      \<and> tt_Name (the (template_of L (dag_task L t))) = tt_Name t" for t
    by (simp add: startable_def assms(2))
  then show ?thesis by (induction ts) auto
qed

lemma small_limit_sent:
  assumes "quantity_values L amt" "quantity_parses L amt"
    and "amount_of amt rl ResourceCPU = 0" "0 < amount_of amt rl ResourceMemory" "amount_of amt rl ResourceMemory \<le> 2 ^ 20 - 1"
  obtains m mx where "limit_message L rl = Some m" "parse_resources L (rm_CpuMillicores m) (rm_MemoryMib m) = Some mx"
    "amount_of amt mx ResourceCPU = 0" "amount_of amt mx ResourceMemory = 0"
proof -
  from assms(4) have ne: "rl \<noteq> fmempty" by auto
  have "\<lceil>amount_of amt rl ResourceMemory\<rceil> \<le> 2 ^ 20 - 1" "0 \<le> \<lceil>amount_of amt rl ResourceMemory\<rceil>"
    using assms(4,5) by (simp_all add: ceiling_le_iff)
  then have "sint (memory_mib L rl) = 0" "sint (cpu_millicores L rl) = 0"
    using assms by (simp_all add: memory_mib_value cpu_millicores_value)
  with parse_resources_small [OF assms(2), of "memory_mib L rl" "cpu_millicores L rl"] ne that show ?thesis
    by (fastforce simp: limit_message_def)
qed

lemma client_total:
  assumes "quantity_parses L amt" "rpc (plan_request L ords ordp spec sts preds) w = (Inr \<lparr> pr_TasksToStart = map (allocation_message L) bs \<rparr>, w')"
  obtains plan where "OptimizerClient_Plan L ords ordp rpc spec sts preds w = (Some (Inr plan), w')"
    "map ta_TaskName (pl_TasksToStart plan) = map ta_TaskName bs"
proof -
  let ?f = "\<lambda>b. the (allocation_of L (allocation_message L b))"
  have "allocations_loop L (map (allocation_message L) bs) [] = Some (map ?f bs)"
    using allocation_of_total [OF assms(1)] by (subst allocations_loop_total) (auto simp: not_None_eq)
  moreover have "ta_TaskName (?f b) = ta_TaskName b" for b
  proof -
    from allocation_of_total [OF assms(1), of "allocation_message L b"]
    obtain a where "allocation_of L (allocation_message L b) = Some a" ..
    with allocation_of_name [OF this] show ?thesis by (simp add: allocation_message_def)
  qed
  ultimately show ?thesis using assms(2) by (intro that [of "\<lparr> pl_TasksToStart = map ?f bs \<rparr>"]) (simp_all add: OptimizerClient_Plan_def)
qed

text \<open>
  A memory limit below one mebibyte, the only limit of a workflow, is zero on the wire, and
  zero means no limit: the remote scheduler starts every task that may start, whatever memory it
  asks for, while the local scheduler keeps within the limit.
\<close>

theorem small_memory_limit_lost:
  assumes "quantity_arith L amt" "quantity_values L amt" "quantity_parses L amt"
    and "map_order o1" "map_order o3" "map_order ords"
    and "delivers rpc (optimizerServer_Plan L o1 o2 (GreedyOptimizer_Plan L o3))"
    and "amount_of amt (sp_MaxResources spec) ResourceCPU = 0" "0 < amount_of amt (sp_MaxResources spec) ResourceMemory"
    and "amount_of amt (sp_MaxResources spec) ResourceMemory \<le> 2 ^ 20 - 1"
  shows "\<exists>plan w'. OptimizerClient_Plan L ords ordp rpc spec sts preds w = (Some (Inr plan), w')
    \<and> map ta_TaskName (pl_TasksToStart plan) = map tt_Name (filter (startable sts) (sp_Tasks spec))"
proof -
  let ?req = "plan_request L ords ordp spec sts preds"
  obtain m mx where mx: "pq_MaxResources ?req = Some m" "parse_resources L (rm_CpuMillicores m) (rm_MemoryMib m) = Some mx"
    "amount_of amt mx ResourceCPU = 0" "amount_of amt mx ResourceMemory = 0"
    by (rule small_limit_sent [OF assms(2,3,8,9,10)]) (simp add: plan_request_def)
  obtain spec' where s: "protoToSpec L ?req = Some spec'" "sp_MaxResources spec' = mx"
    "sp_Tasks spec' = map (\<lambda>t. the (template_of L (dag_task L t))) (sp_Tasks spec)"
    by (rule protoToSpec_total [OF assms(3), of ?req]) (use mx(1,2) in \<open>simp add: plan_request_def comp_def\<close>)
  obtain sts' preds' where t: "protoToTaskStatuses L o1 (pq_TaskStatuses ?req) = Some sts'"
    "protoToPredictions L o2 (pq_Predictions ?req) = Some preds'"
    unfolding protoToTaskStatuses_def protoToPredictions_def
    using convert_loop_always status_of_total [OF assms(3)] prediction_of_total [OF assms(3)] by metis
  have phases: "phase_of sts' n = phase_of sts n" for n
    using protoToTaskStatuses_phases [OF assms(4,6)] t(1) by (simp add: plan_request_def)
  let ?bs = "candidates L spec' sts' preds'"
  have "greedy_pack L amt spec' sts' preds' = ?bs" by (simp add: greedy_pack_def s(2) mx(3,4) pack_unlimited)
  then have "optimizerServer_Plan L o1 o2 (GreedyOptimizer_Plan L o3) ?req
      = Some (Inr \<lparr> pr_TasksToStart = map (allocation_message L) ?bs \<rparr>)"
    by (simp add: optimizerServer_Plan_def s(1) t greedy_refines [OF assms(1,3,5)])
  with assms(7) obtain w' where "rpc ?req w = (Inr \<lparr> pr_TasksToStart = map (allocation_message L) ?bs \<rparr>, w')"
    unfolding delivers_def by blast
  then obtain plan where "OptimizerClient_Plan L ords ordp rpc spec sts preds w = (Some (Inr plan), w')"
    "map ta_TaskName (pl_TasksToStart plan) = map ta_TaskName ?bs" by (rule client_total [OF assms(3)])
  moreover have "map ta_TaskName ?bs = map tt_Name (filter (startable sts) (sp_Tasks spec))"
    using server_startable [OF assms(3) phases, of "sp_Tasks spec"]
    by (simp add: candidates_def candidate_def comp_def s(3))
  ultimately show ?thesis by auto
qed

definition ex_small_spec :: "rat AdaptiveWorkflowSpec" where
  "ex_small_spec = ex_spec\<lparr> sp_MaxResources := fmupd ResourceMemory 1000000 fmempty \<rparr>"

theorem small_memory_limit_lost_witness:
  "\<exists>plan w'. OptimizerClient_Plan rat_lib sorted_order sorted_order
      (loopback (optimizerServer_Plan rat_lib sorted_order sorted_order (GreedyOptimizer_Plan rat_lib sorted_order)))
      ex_small_spec ex_statuses fmempty () = (Some (Inr plan), w')
    \<and> map ta_TaskName (pl_TasksToStart plan) = [''a'', ''b'']"
proof -
  have "amount_of (\<lambda>q. q) (sp_MaxResources ex_small_spec) ResourceCPU = 0"
    "0 < amount_of (\<lambda>q. q) (sp_MaxResources ex_small_spec) ResourceMemory"
    "amount_of (\<lambda>q. q) (sp_MaxResources ex_small_spec) ResourceMemory \<le> 2 ^ 20 - 1"
    by (simp_all add: ex_small_spec_def amount_of_def)
  note lost = small_memory_limit_lost [OF rat_lib_arith rat_lib_values rat_lib_parses map_order_sorted map_order_sorted
      map_order_sorted loopback_laws(2) this, of sorted_order sorted_order ex_statuses fmempty "()"]
  have "map tt_Name (filter (startable ex_statuses) (sp_Tasks ex_small_spec)) = [''a'', ''b'']"
    by (simp add: ex_small_spec_def ex_spec_def ex_startable) (simp add: ex_task_def)
  with lost show ?thesis by simp
qed

text \<open>
  Limits a task does not have come back as limits of zero: an allocation with a CPU request
  and no limits arrives with the CPU limit present and below the request, which no pod may have.
  The server allocates such resources to a task with a request as its hint and no prediction.
\<close>

theorem absent_limits_zeroed:
  assumes "quantity_values L amt" "quantity_parses L amt"
    and "moderate amt (rr_Requests (ta_Resources a))" "rr_Limits (ta_Resources a) = fmempty"
    and "0 < alloc_amount amt ResourceCPU a"
  shows "\<exists>a' q. allocation_of L (allocation_message L a) = Some a'
    \<and> fmlookup (rr_Limits (ta_Resources a')) ResourceCPU = Some q \<and> amt q = 0 \<and> amt q < alloc_amount amt ResourceCPU a'"
proof -
  obtain req where req: "parse_resources L (cpu_millicores L (rr_Requests (ta_Resources a)))
      (memory_mib L (rr_Requests (ta_Resources a))) = Some req" "close_amounts amt req (rr_Requests (ta_Resources a))"
    by (rule wire_close [OF assms(1,2,3)])
  obtain c where c: "q_MustParse L (dec_int (sint (0 :: int64)) @ ''m'') = Some c" "amt c = of_int (sint (0 :: int64)) / 1000"
    using quantity_parses_milli [OF assms(2), of "sint (0 :: int64)"] by (auto simp: int64_range_def)
  obtain m where m: "q_MustParse L (dec_int (sint (0 :: int64)) @ ''Mi'') = Some m"
    using quantity_parses_Mi [OF assms(2), of "sint (0 :: int64)"] by (auto simp: int64_range_def)
  have "parse_resources L (cpu_millicores L fmempty) (memory_mib L fmempty)
      = Some (fmupd ResourceMemory m (fmupd ResourceCPU c fmempty))"
    using c m by (simp add: parse_resources_def cpu_millicores_def memory_mib_def)
  with req c(2) assms(4,5) show ?thesis
    by (auto simp: allocation_of_def allocation_message_def alloc_amount_def close_amounts_def)
qed

theorem absent_limits_zeroed_witness:
  "\<exists>a' q. allocation_of rat_lib (allocation_message rat_lib ex_alloc_half) = Some a'
    \<and> fmlookup (rr_Limits (ta_Resources a')) ResourceCPU = Some q \<and> q = 0"
proof -
  have "moderate (\<lambda>q. q) (rr_Requests (ta_Resources ex_alloc_half))" "rr_Limits (ta_Resources ex_alloc_half) = fmempty"
    "0 < alloc_amount (\<lambda>q. q) ResourceCPU ex_alloc_half"
    by (simp_all add: moderate_def ex_alloc_half_def alloc_amount_def amount_of_def)
  from absent_limits_zeroed [OF rat_lib_values rat_lib_parses this] show ?thesis by auto
qed

end
