(* ===== verification/Cpp_Properties.thy ===== *)
theory Cpp_Properties
  imports Cpp_Exact Remote_Properties
begin

text \<open>
  Properties of the C++ optimizer service: a client of it gets the plan of the manager's own
  scheduler, with limits that allow the requests; and where the two schedulers differ.
\<close>

section \<open>Equivalence with the Go scheduler\<close>

lemma cpp_allocation_view:
  assumes "quantity_parses L amt" "cpp_kept amt b a"
  shows "\<exists>c. allocation_of L (cpp_allocation_message b) = Some c \<and> allocation_kept amt c a
    \<and> (\<forall>r \<in> {ResourceCPU, ResourceMemory}. amount_of amt (rr_Requests (ta_Resources c)) r \<le> amount_of amt (rr_Limits (ta_Resources c)) r)"
proof -
  let ?x = "ca_cpu_request_millicores b" and ?y = "ca_memory_request_mib b"
  let ?u = "ca_cpu_limit_millicores b" and ?v = "ca_memory_limit_mib b"
  from assms(2) have w: "whole amt (rr_Requests (ta_Resources a)) (sint ?x) (sint ?y)"
    "sint ?x \<le> sint ?u" "sint ?y \<le> sint ?v" "sint ?v \<le> 2 * sint ?y" by (auto simp: cpp_kept_def)
  then have y: "0 \<le> sint ?y" "sint ?y \<le> 2 ^ 40" by (auto simp: whole_def)
  obtain req where req: "parse_resources L ?x ?y = Some req" "amount_of amt req ResourceCPU = of_int (sint ?x) / 1000"
    "amount_of amt req ResourceMemory = of_int (sint ?y) * 2 ^ 20"
    by (rule parse_resources_amounts [OF assms(1), of ?x ?y]) (use y in auto)
  obtain lim where lim: "parse_resources L ?u ?v = Some lim" "amount_of amt lim ResourceCPU = of_int (sint ?u) / 1000"
    "amount_of amt lim ResourceMemory = of_int (sint ?v) * 2 ^ 20"
    by (rule parse_resources_amounts [OF assms(1), of ?u ?v]) (use y w(3,4) in auto)
  have "of_int (sint ?x) / 1000 \<le> (of_int (sint ?u) / 1000 :: rat)" "of_int (sint ?y) * 2 ^ 20 \<le> (of_int (sint ?v) * 2 ^ 20 :: rat)"
    using w(2,3) by (simp_all only: divide_right_mono mult_right_mono of_int_le_iff zero_le_numeral zero_le_power)
  with req lim w(1) assms(2) show ?thesis
    by (simp add: allocation_of_def cpp_allocation_message_def same_amounts_def whole_def cpp_kept_def)
qed

lemma cpp_allocations_view:
  assumes "quantity_parses L amt" "list_all2 (cpp_kept amt) bs as"
  obtains cs where "allocations_loop L (map cpp_allocation_message bs) [] = Some cs"
    "list_all2 (\<lambda>c a. allocation_kept amt c a \<and> (\<forall>r \<in> {ResourceCPU, ResourceMemory}.
        amount_of amt (rr_Requests (ta_Resources c)) r \<le> amount_of amt (rr_Limits (ta_Resources c)) r)) cs as"
proof -
  let ?Q = "\<lambda>c a. allocation_kept amt c a \<and> (\<forall>r \<in> {ResourceCPU, ResourceMemory}.
        amount_of amt (rr_Requests (ta_Resources c)) r \<le> amount_of amt (rr_Limits (ta_Resources c)) r)"
  let ?f = "\<lambda>b. the (allocation_of L (cpp_allocation_message b))"
  have one: "allocation_of L (cpp_allocation_message b) \<noteq> None \<and> ?Q (?f b) a" if "cpp_kept amt b a" for a b
    using cpp_allocation_view [OF assms(1) that] by fastforce
  have "list_all2 (\<lambda>b a. allocation_of L (cpp_allocation_message b) \<noteq> None \<and> ?Q (?f b) a) bs as"
    using assms(2) by (rule list_all2_mono) (rule one)
  then have ne: "\<forall>b \<in> set bs. allocation_of L (cpp_allocation_message b) \<noteq> None" and kept: "list_all2 ?Q (map ?f bs) as"
    by (auto simp: list_all2_conv_all_nth in_set_conv_nth)
  from ne have "allocations_loop L (map cpp_allocation_message bs) [] = Some (map ?f bs)"
    by (subst allocations_loop_total) auto
  with kept that show ?thesis by blast
qed

text \<open>
  C13. The C++ service schedules as the Go scheduler. Where every quantity is a whole number of
  millicores and mebibytes of moderate size, there are less than 4096 tasks and statuses, and every
  hint of a task without prediction asks for something, no signed sum overflows, and the client
  of the service gets the tasks the scheduler in the manager's own process would start, in the
  same order and with the same requests. The limits it gets are never below the requests.
\<close>

theorem cpp_plans_as_local:
  assumes "quantity_arith L amt" "quantity_values L amt" "quantity_parses L amt"
    and "map_order o1" "map_order o2" "map_order o3" "map_order ords" "map_order ordp" "map_order ord"
    and "delivers rpc (OptimizerServiceImpl_Plan o1 o2 o3)"
    and "whole_inputs amt spec sts preds" "hints_sent spec preds" "hints_ask amt spec preds"
    and "go_len sts + length (sp_Tasks spec) < 4096"
  shows "\<exists>plan w' local. OptimizerClient_Plan L ords ordp rpc spec sts preds w = (Some (Inr plan), w')
    \<and> GreedyOptimizer_Plan L ord spec sts preds = Some (Inr local)
    \<and> list_all2 (\<lambda>a b. ta_TaskName a = ta_TaskName b \<and> (\<forall>r \<in> {ResourceCPU, ResourceMemory}.
          alloc_amount amt r a = alloc_amount amt r b \<and> alloc_amount amt r a \<le> amount_of amt (rr_Limits (ta_Resources a)) r))
      (pl_TasksToStart plan) (pl_TasksToStart local)"
proof -
  obtain as where a: "OptimizerServiceImpl_Plan o1 o2 o3 (plan_request L ords ordp spec sts preds)
      = Some (Inr \<lparr> pr_TasksToStart = map cpp_allocation_message as \<rparr>)"
    "list_all2 (cpp_kept amt) as (greedy_pack L amt spec sts preds)"
    by (rule cpp_plan_whole [OF assms(2-8,11-14)])
  from assms(10) a(1) obtain w' where rpc: "rpc (plan_request L ords ordp spec sts preds) w
      = (Inr \<lparr> pr_TasksToStart = map cpp_allocation_message as \<rparr>, w')" unfolding delivers_def by blast
  obtain cs where cs: "allocations_loop L (map cpp_allocation_message as) [] = Some cs"
    "list_all2 (\<lambda>c a. allocation_kept amt c a \<and> (\<forall>r \<in> {ResourceCPU, ResourceMemory}.
        amount_of amt (rr_Requests (ta_Resources c)) r \<le> amount_of amt (rr_Limits (ta_Resources c)) r))
      cs (greedy_pack L amt spec sts preds)"
    by (rule cpp_allocations_view [OF assms(3) a(2)])
  from rpc cs(1) have "OptimizerClient_Plan L ords ordp rpc spec sts preds w = (Some (Inr \<lparr> pl_TasksToStart = cs \<rparr>), w')"
    by (simp add: OptimizerClient_Plan_def)
  moreover from cs(2) have "list_all2 (\<lambda>a b. ta_TaskName a = ta_TaskName b \<and> (\<forall>r \<in> {ResourceCPU, ResourceMemory}.
          alloc_amount amt r a = alloc_amount amt r b \<and> alloc_amount amt r a \<le> amount_of amt (rr_Limits (ta_Resources a)) r))
      cs (greedy_pack L amt spec sts preds)"
    by (rule list_all2_mono) (auto simp: same_amounts_def alloc_amount_def)
  ultimately show ?thesis using greedy_refines [OF assms(1,3,9)] by (intro exI conjI) (assumption | simp)+
qed

lemma ex_hints_ask: "hints_ask (\<lambda>q. q) ex_spec fmempty"
  by (auto simp: hints_ask_def ex_defs amount_of_def)

theorem cpp_plans_as_local_witness:
  "\<exists>plan w'. OptimizerClient_Plan rat_lib sorted_order sorted_order
      (loopback (OptimizerServiceImpl_Plan sorted_order sorted_order sorted_order)) ex_spec ex_statuses fmempty () = (Some (Inr plan), w')
    \<and> map ta_TaskName (pl_TasksToStart plan) = [''a'']"
proof -
  have "go_len ex_statuses + length (sp_Tasks ex_spec) < 4096" by (simp add: ex_defs go_len_def fcard_finsert_if fcard_fempty)
  from cpp_plans_as_local [OF rat_lib_arith rat_lib_values rat_lib_parses map_order_sorted map_order_sorted
      map_order_sorted map_order_sorted map_order_sorted map_order_sorted loopback_laws(2) ex_whole_inputs ex_hints_sent ex_hints_ask this, of "()"]
  obtain plan w' local where p: "OptimizerClient_Plan rat_lib sorted_order sorted_order
      (loopback (OptimizerServiceImpl_Plan sorted_order sorted_order sorted_order)) ex_spec ex_statuses fmempty () = (Some (Inr plan), w')"
    "GreedyOptimizer_Plan rat_lib sorted_order ex_spec ex_statuses fmempty = Some (Inr local)"
    "list_all2 (\<lambda>a b. ta_TaskName a = ta_TaskName b \<and> (\<forall>r \<in> {ResourceCPU, ResourceMemory}.
          alloc_amount (\<lambda>q. q) r a = alloc_amount (\<lambda>q. q) r b \<and> alloc_amount (\<lambda>q. q) r a \<le> amount_of (\<lambda>q. q) (rr_Limits (ta_Resources a)) r))
      (pl_TasksToStart plan) (pl_TasksToStart local)"
    by blast
  from p(2) have "pl_TasksToStart local = [candidate rat_lib fmempty (ex_task ''a'' [] 1)]"
    by (auto simp: ex_greedy ex_greedy_pack)
  with p(3) have "map ta_TaskName (pl_TasksToStart plan) = [''a'']"
    by (auto simp: list_all2_Cons2 candidate_def ex_task_def)
  with p(1) show ?thesis by (intro exI conjI)
qed

section \<open>Where the schedulers differ\<close>

text \<open>
  A hint that asks for nothing: the Go scheduler starts the task with no requests, the C++ one
  with the defaults, so with a limit of less than the defaults it does not start it at all.
\<close>

definition ex_zero_hint :: pb_PlanRequest where
  "ex_zero_hint = \<lparr> pq_WorkflowName = ''current'', pq_OptimizationGoal = ''Cost'',
     pq_Tasks = [\<lparr> dt_Name = ''a'', dt_Image = ''img'', dt_Command = [], dt_Dependencies = [],
       dt_BaseResources = Some \<lparr> rh_CpuMillicores = 0, rh_MemoryMib = 0 \<rparr> \<rparr>],
     pq_TaskStatuses = fmempty, pq_Predictions = fmempty,
     pq_MaxResources = Some \<lparr> rm_CpuMillicores = 50, rm_MemoryMib = 64 \<rparr>, pq_CurrentUsage = None \<rparr>"

text \<open>A negative limit: the Go scheduler starts nothing within it, the C++ one takes it as none.\<close>

definition ex_negative_limit :: pb_PlanRequest where
  "ex_negative_limit = ex_zero_hint\<lparr> pq_MaxResources := Some \<lparr> rm_CpuMillicores = -1, rm_MemoryMib = 0 \<rparr> \<rparr>"

lemma schedulers_differ:
  "map_option (map_sum id (map pa_TaskName \<circ> pr_TasksToStart))
     (OptimizerServiceImpl_Plan sorted_order sorted_order sorted_order ex_zero_hint) = Some (Inr [])"
  "map_option (map_sum id (map pa_TaskName \<circ> pr_TasksToStart))
     (OptimizerServiceImpl_Plan sorted_order sorted_order sorted_order ex_negative_limit) = Some (Inr [''a''])"
  "map_option (map_sum id (map pa_TaskName \<circ> pr_TasksToStart)) (optimizerServer_Plan rat_lib sorted_order sorted_order
     (GreedyOptimizer_Plan rat_lib sorted_order) ex_zero_hint) = Some (Inr [''a''])"
  "map_option (map_sum id (map pa_TaskName \<circ> pr_TasksToStart)) (optimizerServer_Plan rat_lib sorted_order sorted_order
     (GreedyOptimizer_Plan rat_lib sorted_order) ex_negative_limit) = Some (Inr [])"
  by code_simp+

end
