(* ===== verification/Manager_Properties.thy ===== *)
theory Manager_Properties
  imports Manager System Cpp_Properties
begin

text \<open>
  Properties of the manager's start-up: its flags can be written and read back, it fails only
  when a configured service cannot be dialled, and whichever optimizer it chooses, the workflows
  it drives stay safe.
\<close>

section \<open>Flags\<close>

text \<open>The arguments that set every flag of \<^verbatim>\<open>main\<close>.\<close>

definition flag_text :: "string \<Rightarrow> string \<Rightarrow> string" where
  "flag_text name v = ''--'' @ name @ ''='' @ v"

definition bool_text :: "bool \<Rightarrow> string" where
  "bool_text b = (if b then ''true'' else ''false'')"

definition render_flags :: "'o flags \<Rightarrow> string list" where
  "render_flags f =
     [flag_text ''metrics-bind-address'' (fl_metricsAddr f), flag_text ''health-probe-bind-address'' (fl_probeAddr f),
      flag_text ''leader-elect'' (bool_text (fl_enableLeaderElection f)),
      flag_text ''metrics-secure'' (bool_text (fl_secureMetrics f)),
      flag_text ''webhook-cert-path'' (fl_webhookCertPath f), flag_text ''webhook-cert-name'' (fl_webhookCertName f),
      flag_text ''webhook-cert-key'' (fl_webhookCertKey f), flag_text ''metrics-cert-path'' (fl_metricsCertPath f),
      flag_text ''metrics-cert-name'' (fl_metricsCertName f), flag_text ''metrics-cert-key'' (fl_metricsCertKey f),
      flag_text ''enable-http2'' (bool_text (fl_enableHTTP2 f))]"

lemma dropWhile_value: "list_all (\<lambda>c. c \<noteq> x) cs \<Longrightarrow> dropWhile (\<lambda>c. c \<noteq> x) (cs @ x # v) = x # v"
  "list_all (\<lambda>c. c \<noteq> x) cs \<Longrightarrow> takeWhile (\<lambda>c. c \<noteq> x) (cs @ x # v) = cs"
  by (induction cs) auto

lemma flag_argument_text:
  assumes "name = c # cs" "c \<notin> {CHR ''-'', CHR ''=''}" "list_all (\<lambda>x. x \<noteq> CHR ''='') cs"
  shows "flag_argument (flag_text name v) = FlagArg name (Some v)"
  using assms by (auto simp: flag_argument_def flag_text_def split_value_def dropWhile_value)

lemma parse_bool_text [simp]: "strconv_ParseBool (bool_text b) = Some b"
  by (simp add: strconv_ParseBool_def bool_text_def)

lemma flag_argument_main:
  assumes "name \<in> fst ` set (manager_flags :: (string \<times> 'o flag) list)"
  shows "flag_argument (flag_text name v) = FlagArg name (Some v)"
proof -
  have "list_all (\<lambda>n. hd n \<notin> {CHR ''-'', CHR ''=''} \<and> n \<noteq> [] \<and> list_all (\<lambda>x. x \<noteq> CHR ''='') (tl n))
    (map fst (manager_flags :: (string \<times> 'o flag) list))" by (simp add: manager_flags_def)
  with assms have "hd name \<notin> {CHR ''-'', CHR ''=''}" "name \<noteq> []" "list_all (\<lambda>x. x \<noteq> CHR ''='') (tl name)"
    by (auto simp: list_all_iff)
  then show ?thesis by (intro flag_argument_text [of name "hd name" "tl name"]) simp_all
qed

lemma flag_names: "fst ` set (manager_flags :: (string \<times> 'o flag) list) =
  {''metrics-bind-address'', ''health-probe-bind-address'', ''leader-elect'', ''metrics-secure'', ''webhook-cert-path'',
   ''webhook-cert-name'', ''webhook-cert-key'', ''metrics-cert-path'', ''metrics-cert-name'', ''metrics-cert-key'', ''enable-http2''}"
  by (auto simp: manager_flags_def)

text \<open>
  C37. Round trip of the manager's flags: the arguments that set every flag to its value in
  \<open>f\<close> parse, whatever the values (which may contain dashes and equals signs) and whatever
  further flags are registered, to exactly these values.
\<close>

theorem flags_roundtrip:
  "flag_Parse (all_flags others) (render_flags f) (default_flags (fl_others f)) = Inr f"
  by (simp add: render_flags_def flag_argument_main [unfolded flag_names] all_flags_def manager_flags_def
      set_flag_def is_switch_def default_flags_def)

section \<open>The chosen components\<close>

text \<open>What a variable of the environment says: nothing if it is unset or empty.\<close>

definition configured :: "(string \<rightharpoonup> string) \<Rightarrow> string \<Rightarrow> string \<Rightarrow> bool" where
  "configured env k v \<longleftrightarrow> env k = Some v \<and> v \<noteq> ''''"

lemma os_Getenv_configured: "os_Getenv env k = v \<Longrightarrow> v \<noteq> '''' \<Longrightarrow> configured env k v"
  by (auto simp: os_Getenv_def configured_def split: option.splits)

definition remote_optimizer :: "('w, 'q, 'mgr, 'conn) runtime_lib \<Rightarrow> 'conn \<Rightarrow> ('w, 'q) optimizer" where
  "remote_optimizer T conn =
     OptimizerClient_Plan (rt_lib T) (rt_range_statuses T) (rt_range_predictions T) (gr_Plan (rt_grpc T) conn)"

definition remote_engine :: "('w, 'q, 'mgr, 'conn) runtime_lib \<Rightarrow> 'conn \<Rightarrow> ('w, 'q) engine" where
  "remote_engine T conn = InferenceClient_Predict (rt_lib T) (rt_range_answer T) (gr_Predict (rt_grpc T) conn)"

lemma choose_inference_cases:
  assumes "choose_inference T env w = (r, w')"
  obtains (baseline) "\<nexists>a. configured env ''INFERENCE_GRPC_ADDR'' a" "r = Inr BaselineEngine" "w' = w"
    | (remote) a conn where "configured env ''INFERENCE_GRPC_ADDR'' a" "gr_NewClient (rt_grpc T) a w = (Inr conn, w')"
        "r = Inr (remote_engine T conn)"
    | (failed) a err where "configured env ''INFERENCE_GRPC_ADDR'' a" "gr_NewClient (rt_grpc T) a w = (Inl err, w')" "r = Inl 1"
proof (cases "os_Getenv env ''INFERENCE_GRPC_ADDR'' = ''''")
  case True
  with assms baseline show ?thesis
    by (auto simp: choose_inference_def os_Getenv_def configured_def split: option.splits)
next
  case False
  note c = os_Getenv_configured [OF refl False]
  obtain x v where "gr_NewClient (rt_grpc T) (os_Getenv env ''INFERENCE_GRPC_ADDR'') w = (x, v)" by fastforce
  with False assms remote [OF c] failed [OF c] show ?thesis
    by (cases x) (auto simp: choose_inference_def Let_def NewInferenceClient_def remote_engine_def)
qed

lemma choose_optimizer_cases:
  assumes "choose_optimizer T env w = (r, w')"
  obtains (greedy) "\<nexists>a. configured env ''OPTIMIZER_GRPC_ADDR'' a" "r = Inr (GreedyOptimizer (rt_lib T) (rt_range_usage T))" "w' = w"
    | (remote) a conn where "configured env ''OPTIMIZER_GRPC_ADDR'' a" "gr_NewClient (rt_grpc T) a w = (Inr conn, w')"
        "r = Inr (remote_optimizer T conn)"
    | (failed) a err where "configured env ''OPTIMIZER_GRPC_ADDR'' a" "gr_NewClient (rt_grpc T) a w = (Inl err, w')" "r = Inl 1"
proof (cases "os_Getenv env ''OPTIMIZER_GRPC_ADDR'' = ''''")
  case True
  with assms greedy show ?thesis
    by (auto simp: choose_optimizer_def os_Getenv_def configured_def split: option.splits)
next
  case False
  note c = os_Getenv_configured [OF refl False]
  obtain x v where "gr_NewClient (rt_grpc T) (os_Getenv env ''OPTIMIZER_GRPC_ADDR'') w = (x, v)" by fastforce
  with False assms remote [OF c] failed [OF c] show ?thesis
    by (cases x) (auto simp: choose_optimizer_def Let_def NewOptimizerClient_def remote_optimizer_def)
qed

lemma choose_statedb_cases:
  assumes "choose_statedb T env w = (D, w')"
  shows "D = NoOpStateDB \<or> (\<exists>c db. configured env ''STATEDB_CONNECTION_STR'' c
    \<and> NewPostgresStateDB (rt_sql_Open T) c w = (Inr db, w') \<and> D = PostgresStateDB (rt_lib T) db)"
  using assms os_Getenv_configured [of env "''STATEDB_CONNECTION_STR''"]
  by (fastforce simp: choose_statedb_def Let_def split: if_splits prod.splits sum.splits)

definition dial_failed :: "('w, 'q, 'mgr, 'conn) runtime_lib \<Rightarrow> (string \<rightharpoonup> string) \<Rightarrow> bool" where
  "dial_failed T env \<longleftrightarrow> (\<exists>k a v err v'. k \<in> {''INFERENCE_GRPC_ADDR'', ''OPTIMIZER_GRPC_ADDR''}
     \<and> configured env k a \<and> gr_NewClient (rt_grpc T) a v = (Inl err, v'))"

lemma dial_failedI:
  "configured env k a \<Longrightarrow> gr_NewClient (rt_grpc T) a v = (Inl err, v') \<Longrightarrow>
    k \<in> {''INFERENCE_GRPC_ADDR'', ''OPTIMIZER_GRPC_ADDR''} \<Longrightarrow> dial_failed T env"
  unfolding dial_failed_def by blast

lemma make_reconciler_cases:
  assumes "make_reconciler T env mgr w = (r, w')"
  shows "case r of
      Inl n \<Rightarrow> n = 1 \<and> dial_failed T env
    | Inr R \<Rightarrow> rc_client R = rt_client T mgr
        \<and> (if \<exists>a. configured env ''INFERENCE_GRPC_ADDR'' a
           then \<exists>conn. rc_Inference R = remote_engine T conn else rc_Inference R = BaselineEngine)
        \<and> (if \<exists>a. configured env ''OPTIMIZER_GRPC_ADDR'' a
           then \<exists>conn. rc_Optimizer R = remote_optimizer T conn
           else rc_Optimizer R = GreedyOptimizer (rt_lib T) (rt_range_usage T))
        \<and> (rc_StateDB R = Some NoOpStateDB \<or> (\<exists>c db. configured env ''STATEDB_CONNECTION_STR'' c
             \<and> rc_StateDB R = Some (PostgresStateDB (rt_lib T) db)))"
proof -
  obtain e w1 where e: "choose_inference T env w = (e, w1)" by fastforce
  show ?thesis
  proof (cases e)
    case (Inl n)
    with e assms have r: "r = Inl n" by (simp add: make_reconciler_def)
    with e Inl show ?thesis by (elim choose_inference_cases) (auto intro: dial_failedI)
  next
    case engine: (Inr engine)
    obtain p w2 where p: "choose_optimizer T env w1 = (p, w2)" by fastforce
    show ?thesis
    proof (cases p)
      case (Inl n)
      with p e engine assms have r: "r = Inl n" by (simp add: make_reconciler_def)
      with p Inl show ?thesis by (elim choose_optimizer_cases) (auto intro: dial_failedI)
    next
      case plan: (Inr plan)
      obtain D w3 where D: "choose_statedb T env w2 = (D, w3)" by fastforce
      have r: "r = Inr \<lparr> rc_client = rt_client T mgr, rc_Inference = engine, rc_Optimizer = plan,
          rc_StateDB = Some D, rc_lib = rt_lib T, rc_range = rt_range T \<rparr>"
        using e p D engine plan assms by (simp add: make_reconciler_def)
      have "if \<exists>a. configured env ''INFERENCE_GRPC_ADDR'' a then \<exists>conn. engine = remote_engine T conn else engine = BaselineEngine"
        using e engine by (elim choose_inference_cases) auto
      moreover have "if \<exists>a. configured env ''OPTIMIZER_GRPC_ADDR'' a then \<exists>conn. plan = remote_optimizer T conn
          else plan = GreedyOptimizer (rt_lib T) (rt_range_usage T)"
        using p plan by (elim choose_optimizer_cases) auto
      ultimately show ?thesis using choose_statedb_cases [OF D] by (auto simp: r)
    qed
  qed
qed


text \<open>An example: a remote optimizer, no other service, and a database that cannot be opened.\<close>

definition ex_server :: "pb_PlanRequest \<Rightarrow> (go_error + pb_PlanResponse) option" where
  "ex_server = optimizerServer_Plan rat_lib sorted_order sorted_order (GreedyOptimizer_Plan rat_lib sorted_order)"

definition ex_grpc :: "(rat cluster, unit) grpc_lib" where
  "ex_grpc = \<lparr> gr_NewClient = (\<lambda>a w. (Inr (), w)), gr_Predict = (\<lambda>c req w. (Inl (Err ''unavailable''), w)),
     gr_ReportMetrics = (\<lambda>c req w. (Inl (Err ''unavailable''), w)), gr_Plan = (\<lambda>c. loopback ex_server),
     gr_Close = (\<lambda>c w. (None, w)) \<rparr>"

definition ex_T :: "(rat cluster, rat, unit, unit) runtime_lib" where
  "ex_T = \<lparr> rt_NewManager = (\<lambda>opts w. (Some (Inr ()), w)), rt_client = (\<lambda>m. mem_client),
     rt_Complete = (\<lambda>R m w. (None, w)), rt_AddHealthzCheck = (\<lambda>n m w. (None, w)), rt_AddReadyzCheck = (\<lambda>n m w. (None, w)),
     rt_Start = (\<lambda>m w. (None, w)), rt_grpc = ex_grpc, rt_sql_Open = (\<lambda>d c w. (Inl (Err ''no driver''), w)),
     rt_lib = rat_lib, rt_range = (\<lambda>_ _. sorted_order), rt_range_usage = sorted_order, rt_range_statuses = sorted_order,
     rt_range_predictions = sorted_order, rt_range_answer = sorted_order \<rparr>"

definition ex_env :: "string \<rightharpoonup> string" where
  "ex_env = [''OPTIMIZER_GRPC_ADDR'' \<mapsto> ''optimizer:50052'', ''STATEDB_CONNECTION_STR'' \<mapsto> ''postgres://db'']"

definition ex_remote_R :: "(rat cluster, rat) reconciler" where
  "ex_remote_R = \<lparr> rc_client = mem_client, rc_Inference = BaselineEngine, rc_Optimizer = remote_optimizer ex_T (),
     rc_StateDB = Some NoOpStateDB, rc_lib = rat_lib, rc_range = (\<lambda>_ _. sorted_order) \<rparr>"

lemma ex_make: "make_reconciler ex_T ex_env () w = (Inr ex_remote_R, w)"
  by (simp add: make_reconciler_def choose_inference_def choose_optimizer_def choose_statedb_def os_Getenv_def ex_env_def
      NewOptimizerClient_def NewPostgresStateDB_def remote_optimizer_def ex_T_def ex_grpc_def ex_remote_R_def)


section \<open>Safety of the whole system\<close>

text \<open>The contract of the scheduler, whichever was chosen and whichever server runs it.\<close>

lemma server_task_optimizer:
  assumes "handler \<in> {optimizerServer_Plan L' o1 o2 (GreedyOptimizer_Plan L' o3), OptimizerServiceImpl_Plan o1 o2 o4}"
    and "map_order o1" "map_order ords" "served_by rpc handler"
  shows "task_optimizer (OptimizerClient_Plan L ords ordp rpc)"
  using assms go_service.client_task_optimizer [OF assms(2,3)] cpp_service.client_task_optimizer [OF assms(2,3)]
  by (elim insertE) simp_all

lemma chosen_task_optimizer:
  assumes "make_reconciler T env mgr w = (Inr R, w')"
    and "handler \<in> {optimizerServer_Plan L' o1 o2 (GreedyOptimizer_Plan L' o3), OptimizerServiceImpl_Plan o1 o2 o4}"
    and "map_order o1" "map_order (rt_range_statuses T)" "\<forall>conn. served_by (gr_Plan (rt_grpc T) conn) handler"
  shows "task_optimizer (rc_Optimizer R)"
proof (cases "\<exists>a. configured env ''OPTIMIZER_GRPC_ADDR'' a")
  case True
  with make_reconciler_cases [OF assms(1)] obtain conn where "rc_Optimizer R = remote_optimizer T conn" by auto
  with server_task_optimizer [OF assms(2-4) assms(5) [rule_format]] show ?thesis by (simp add: remote_optimizer_def)
next
  case False
  with make_reconciler_cases [OF assms(1)] have "rc_Optimizer R = GreedyOptimizer (rt_lib T) (rt_range_usage T)" by simp
  then show ?thesis using greedy.task_optimizer_axioms by metis
qed


lemma ex_served: "\<forall>conn. served_by (gr_Plan (rt_grpc ex_T) conn) ex_server"
  by (simp add: ex_T_def ex_grpc_def loopback_laws)

lemma ex_server_in: "ex_server \<in> {optimizerServer_Plan rat_lib sorted_order sorted_order (GreedyOptimizer_Plan rat_lib sorted_order),
    OptimizerServiceImpl_Plan sorted_order sorted_order sorted_order}"
  by (simp add: ex_server_def)

lemma loopback_world: "snd (loopback h req w) = w"
  by (simp add: loopback_def split: option.split)

lemma OptimizerClient_Plan_world: "snd (OptimizerClient_Plan L ords ordp rpc spec sts preds w)
    = snd (rpc (plan_request L ords ordp spec sts preds) w)"
  by (simp add: OptimizerClient_Plan_def split: prod.split sum.split)

lemma ex_remote_services: "calm_services ex_remote_R mem_ok cu_versions"
  unfolding calm_services_def
  by (auto simp: ex_remote_R_def remote_optimizer_def OptimizerClient_Plan_world BaselineEngine_def NoOpStateDB_def
      NoOpStateDB_RecordExecution_def ex_T_def ex_grpc_def loopback_world intro!: mem_calm)


end
