(* ===== verification/Text_Out.thy ===== *)
theory Text_Out
  imports Go_Lib
begin

text \<open>
  What the command line client needs of the Go library to print: UTF-8 decoding, the tab writer
  (\<^verbatim>\<open>text/tabwriter\<close>, with minimal width 0, padding 2 and blanks), durations as text, and the strings
  of \<^verbatim>\<open>encoding/json\<close>. A Go string is its bytes, so a character outside ASCII is several.
\<close>

section \<open>UTF-8\<close>

abbreviation byte_of :: "char \<Rightarrow> nat" where
  "byte_of c \<equiv> of_char c"

definition cont_byte :: "nat \<Rightarrow> nat \<Rightarrow> string \<Rightarrow> nat \<Rightarrow> bool" where
  "cont_byte lo hi s i \<longleftrightarrow> i < length s \<and> lo \<le> byte_of (s ! i) \<and> byte_of (s ! i) \<le> hi"

text \<open>The number of bytes of the first character; a byte that starts none counts alone.\<close>

definition rune_size :: "string \<Rightarrow> nat" where
  "rune_size s = (let b = byte_of (hd s); cont = cont_byte 0x80 0xBF s in
     if 0xC2 \<le> b \<and> b \<le> 0xDF \<and> cont 1 then 2
     else if 0xE0 \<le> b \<and> b \<le> 0xEF
       \<and> cont_byte (if b = 0xE0 then 0xA0 else 0x80) (if b = 0xED then 0x9F else 0xBF) s 1 \<and> cont 2 then 3
     else if 0xF0 \<le> b \<and> b \<le> 0xF4
       \<and> cont_byte (if b = 0xF0 then 0x90 else 0x80) (if b = 0xF4 then 0x8F else 0xBF) s 1 \<and> cont 2 \<and> cont 3 then 4
     else 1)"

lemma rune_size_pos: "0 < rune_size s"
  by (simp add: rune_size_def Let_def)

function runes :: "string \<Rightarrow> string list" where
  "runes s = (if s = [] then [] else take (rune_size s) s # runes (drop (rune_size s) s))"
  by auto
termination
  by (relation "measure length") (auto simp: rune_size_pos)

declare runes.simps [simp del]

definition rune_count :: "string \<Rightarrow> nat" where
  "rune_count s = length (runes s)"

lemma runes_concat: "concat (runes s) = s"
  by (induction s rule: runes.induct) (subst runes.simps, simp)

lemma runes_ascii: "is_ascii s \<Longrightarrow> runes s = map (\<lambda>c. [c]) s"
proof (induction s)
  case (Cons c s)
  then have "rune_size (c # s) = 1" by (auto simp: is_ascii_def rune_size_def Let_def)
  with Cons show ?case by (subst runes.simps) (simp add: is_ascii_def)
qed (simp add: runes.simps)

lemma rune_count_ascii: "is_ascii s \<Longrightarrow> rune_count s = length s"
  by (simp add: rune_count_def runes_ascii)

section \<open>The tab writer\<close>

fun split_on :: "('a \<Rightarrow> bool) \<Rightarrow> 'a list \<Rightarrow> 'a list list" where
  "split_on P [] = [[]]"
| "split_on P (x # xs) = (if P x then [] # split_on P xs
     else case split_on P xs of y # ys \<Rightarrow> (x # y) # ys | [] \<Rightarrow> [[x]])"

lemma split_on_nonempty [simp]: "split_on P xs \<noteq> []"
  by (induction xs) (auto split: list.splits)

lemma split_on_append: "\<not> list_ex P xs \<Longrightarrow> P c \<Longrightarrow> split_on P (xs @ c # ys) = xs # split_on P ys"
  by (induction xs) auto

lemma split_on_none: "\<not> list_ex P xs \<Longrightarrow> split_on P xs = [xs]"
  by (induction xs) auto

abbreviation newline :: char where "newline \<equiv> CHR 0x0A"

abbreviation tab :: char where "tab \<equiv> CHR 0x09"

text \<open>A line with the widths of its leading columns; cells beyond them are not padded.\<close>

fun write_line :: "nat list \<Rightarrow> string list \<Rightarrow> string" where
  "write_line ws [] = [newline]"
| "write_line [] (c # cs) = c @ write_line [] cs"
| "write_line (w # ws) (c # cs) = c @ replicate (w - rune_count c) CHR '' '' @ write_line ws cs"

text \<open>
  A column block is a maximal run of lines that have a cell in the column which is not their
  last; the column is as wide as the block's widest cell, plus padding.
\<close>

definition column_width :: "nat \<Rightarrow> string list list \<Rightarrow> nat" where
  "column_width column block = fold (\<lambda>l w. max w (rune_count (l ! column) + 2)) block 0"

lemma sum_takeWhile_less:
  fixes f g :: "'a \<Rightarrow> nat"
  shows "\<forall>x. P x \<longrightarrow> g x < f x \<Longrightarrow> xs \<noteq> [] \<Longrightarrow> P (hd xs) \<Longrightarrow> sum_list (map g (takeWhile P xs)) < sum_list (map f xs)"
proof (induction xs)
  case (Cons x xs)
  have "sum_list (map g (takeWhile P xs)) \<le> sum_list (map f xs)"
    using Cons by (cases xs) (auto simp: less_imp_le)
  with Cons.prems show ?case by (simp add: add_less_le_mono)
qed simp

lemma sum_dropWhile: "sum_list (map (f :: 'a \<Rightarrow> nat) (dropWhile P xs)) \<le> sum_list (map f xs)"
  by (induction xs) auto

lemma tab_block_less:
  assumes "Suc (length ws) < length l"
  shows "sum_list (map (\<lambda>k. Suc (length k - Suc (length ws))) (takeWhile (\<lambda>k. Suc (length ws) < length k) (l # ls)))
    < sum_list (map (\<lambda>k. Suc (length k - length ws)) (l # ls))"
  by (rule sum_takeWhile_less) (use assms in auto)

function tab_format :: "nat list \<Rightarrow> string list list \<Rightarrow> string" where
  "tab_format ws [] = []"
| "tab_format ws (l # ls) = (let column = length ws; has = (\<lambda>k. column + 1 < length k) in
     if has l then tab_format (ws @ [column_width column (takeWhile has (l # ls))]) (takeWhile has (l # ls))
       @ tab_format ws (dropWhile has (l # ls))
     else write_line ws l @ tab_format ws ls)"
  by pat_completeness auto

termination
proof (relation "measure (\<lambda>(ws, ls). sum_list (map (\<lambda>l. Suc (length l - length ws)) ls))", goal_cases)
  case (2 ws l ls column has)
  then show ?case using tab_block_less [of ws l ls] by simp
next
  case (3 ws l ls column has)
  then show ?case
    using sum_dropWhile [of "\<lambda>l. Suc (length l - length ws)" "\<lambda>k. Suc (length ws) < length k" ls] by simp
qed auto

declare tab_format.simps [simp del]

text \<open>
  The writer's input: lines end in newlines or form feeds, and a form feed also ends every column
  block; cells end in tabs or vertical tabs. (The escape byte 0xFF is no part of UTF-8 text.)
\<close>

definition tab_lines :: "string \<Rightarrow> string list list" where
  "tab_lines s = map (split_on (\<lambda>c. c = tab \<or> c = CHR 0x0B)) (butlast (split_on (\<lambda>c. c = newline) s))"

definition tabwriter :: "string \<Rightarrow> string" where
  "tabwriter s = (let parts = split_on (\<lambda>c. c = CHR 0x0C) s in
     concat (map (\<lambda>p. tab_format [] (tab_lines (p @ [newline]))) (butlast parts)) @ tab_format [] (tab_lines (last parts)))"

text \<open>Rows of equally many cells form a table: every column is as wide as its widest cell.\<close>

lemma takeWhile_all: "list_all P xs \<Longrightarrow> takeWhile P xs = xs" "list_all P xs \<Longrightarrow> dropWhile P xs = []"
  by (induction xs) auto

lemma tab_format_done:
  "list_all (\<lambda>l. length l \<le> length ws + 1) ls \<Longrightarrow> tab_format ws ls = concat (map (write_line ws) ls)"
  by (induction ls) (auto simp: tab_format.simps Let_def)

lemma tab_format_table:
  assumes "list_all (\<lambda>l. length l = n + 1) ls" "length ws \<le> n"
  shows "tab_format ws ls = concat (map (write_line (ws @ map (\<lambda>i. column_width i ls) [length ws..<n])) ls)"
  using assms(2)
proof (induction "n - length ws" arbitrary: ws)
  case 0
  then have "length ws = n" by simp
  with assms(1) show ?case by (simp add: tab_format_done list_all_iff)
next
  case (Suc k)
  then have ws: "length ws < n" by simp
  show ?case
  proof (cases ls)
    case Nil
    then show ?thesis by (simp add: tab_format.simps)
  next
    case (Cons l ls')
    let ?ws = "ws @ [column_width (length ws) ls]"
    have "list_all (\<lambda>k. length ws + 1 < length k) ls" using assms(1) ws by (auto simp: list_all_iff)
    with Cons have "tab_format ws ls = tab_format ?ws ls @ tab_format ws []"
      by (simp add: tab_format.simps Let_def takeWhile_all)
    moreover have "tab_format ?ws ls = concat (map (write_line (?ws @ map (\<lambda>i. column_width i ls) [length ?ws..<n])) ls)"
      by (rule Suc(1)) (use Suc(2) ws in auto)
    ultimately show ?thesis using ws by (simp add: tab_format.simps upt_rec [of "length ws" n])
  qed
qed

lemma fold_max_ge:
  "a \<le> fold (\<lambda>l w. max w (f l)) ls a \<and> (\<forall>l \<in> set ls. f l \<le> fold (\<lambda>l w. max w (f l)) ls (a :: nat))"
  by (induction ls arbitrary: a) (auto intro: max.cobounded1 max.cobounded2 order_trans, (meson max.bounded_iff)+)

lemma column_width_ge: "l \<in> set ls \<Longrightarrow> rune_count (l ! i) + 2 \<le> column_width i ls"
  unfolding column_width_def using fold_max_ge [of 0 "\<lambda>l. rune_count (l ! i) + 2" ls] by blast

section \<open>Durations\<close>

text \<open>\<^verbatim>\<open>Duration.Round\<close> to a positive multiple, half away from zero, saturating.\<close>

definition Duration_Round :: "int \<Rightarrow> int \<Rightarrow> int" where
  "Duration_Round d m = (let r = \<bar>d\<bar> mod m; up = 2 * r \<ge> m in
     if d < 0 then (if up then (if d - m + r \<ge> - (2 ^ 63) then d - m + r else - (2 ^ 63)) else d + r)
     else (if up then (if d + m - r < 2 ^ 63 then d + m - r else 2 ^ 63 - 1) else d - r))"

text \<open>
  \<^verbatim>\<open>Duration.String\<close>. A fraction of \<open>prec\<close> digits loses its trailing zeros, and its point if
  nothing is left; below a second the largest unit with a whole number is used.
\<close>

definition frac_digits :: "nat \<Rightarrow> int \<Rightarrow> string" where
  "frac_digits prec v = (let ds = dec_int (v mod 10 ^ prec); full = replicate (prec - length ds) CHR ''0'' @ ds;
     kept = rev (dropWhile (\<lambda>c. c = CHR ''0'') (rev full)) in
     if prec = 0 \<or> kept = [] then [] else CHR ''.'' # kept)"

definition fmt_units :: "nat \<Rightarrow> int \<Rightarrow> string" where
  "fmt_units prec v = dec_int (v div 10 ^ prec) @ frac_digits prec v"

definition Duration_String :: "int \<Rightarrow> string" where
  "Duration_String d = (let u = \<bar>d\<bar>; secs = u div 1000000000 in
     (if d < 0 then ''-'' else []) @
     (if u = 0 then ''0s''
      else if u < 1000 then fmt_units 0 u @ ''ns''
      else if u < 1000000 then fmt_units 3 u @ [CHR 0xC2, CHR 0xB5] @ ''s''
      else if u < 1000000000 then fmt_units 6 u @ ''ms''
      else (if secs < 60 then []
            else (if secs < 3600 then [] else dec_int (secs div 3600) @ ''h'') @ dec_int (secs div 60 mod 60) @ ''m'')
        @ dec_int (secs mod 60) @ frac_digits 9 u @ ''s''))"

end
