(* ===== verification/Kwf.thy ===== *)
theory Kwf
  imports Api_Types Text_Out Go_Float
begin

text \<open>
  The command line client \<^verbatim>\<open>cmd/kwf/main.go\<close>: \<^verbatim>\<open>submit\<close>, \<^verbatim>\<open>status\<close> and \<^verbatim>\<open>list\<close>. A command
  returns the error it ends with, if any, and the text it printed; \<^verbatim>\<open>kubeconfig\<close> and
  \<^verbatim>\<open>namespace\<close> are the global flags. Parameters are the file system, the YAML decoder, the
  loading of the client configuration and the Kubernetes client (with the seconds a call may
  take), in the records \<open>kwf_lib\<close> and \<open>api_client\<close>. Cobra, which parses the command line and
  calls these functions, is not part of the model.
\<close>

section \<open>Libraries\<close>

text \<open>A create or update leaves the object as the server returned it.\<close>

record ('w, 'q) api_client =
  ac_Get :: "string \<Rightarrow> string \<Rightarrow> 'w \<Rightarrow> (go_error + 'q AdaptiveWorkflow) \<times> 'w"
  ac_Create :: "'q AdaptiveWorkflow \<Rightarrow> 'w \<Rightarrow> (go_error option \<times> 'q AdaptiveWorkflow) \<times> 'w"
  ac_Update :: "'q AdaptiveWorkflow \<Rightarrow> 'w \<Rightarrow> (go_error option \<times> 'q AdaptiveWorkflow) \<times> 'w"
  ac_Delete :: "string \<Rightarrow> string \<Rightarrow> 'w \<Rightarrow> go_error option \<times> 'w"
  ac_List :: "string option \<Rightarrow> 'w \<Rightarrow> (go_error + 'q AdaptiveWorkflowList) \<times> 'w"

record ('w, 'q, 'cfg) kwf_lib =
  kw_ReadFile :: "string \<Rightarrow> 'w \<Rightarrow> (go_error + string) \<times> 'w"
  kw_DecodeUnstructured :: "string \<Rightarrow> go_error option"
  kw_DecodeWorkflow :: "string \<Rightarrow> go_error + 'q AdaptiveWorkflow"
  kw_ClientConfig :: "string option \<Rightarrow> 'w \<Rightarrow> (go_error + 'cfg) \<times> 'w"
  kw_NewClient :: "'cfg \<Rightarrow> 'w \<Rightarrow> (go_error + ('w, 'q) api_client) \<times> 'w"
  kw_Now :: "'w \<Rightarrow> int \<times> 'w"
  kw_lib :: "'q golib"
  kw_range_usage :: "(string, 'q) map_order"
  kw_range_statuses :: "(string, 'q TaskStatus) map_order"

definition getClient :: "('w, 'q, 'cfg) kwf_lib \<Rightarrow> string \<Rightarrow> 'w \<Rightarrow> (go_error + ('w, 'q) api_client) \<times> 'w" where
  "getClient K kubeconfig w =
     (case kw_ClientConfig K (if kubeconfig \<noteq> '''' then Some kubeconfig else None) w of
        (Inl err, w1) \<Rightarrow> (Inl (Wrapf ''failed to load kubeconfig: '' err), w1)
      | (Inr config, w1) \<Rightarrow> (case kw_NewClient K config w1 of
          (Inl err, w2) \<Rightarrow> (Inl (Wrapf ''failed to create client: '' err), w2)
        | (Inr c, w2) \<Rightarrow> (Inr c, w2)))"

section \<open>Submit\<close>

text \<open>Both documents are decoded; the second gives the workflow, in the default namespace if it names none.\<close>

definition decode_workflow :: "('w, 'q, 'cfg) kwf_lib \<Rightarrow> string \<Rightarrow> string \<Rightarrow> string \<Rightarrow> string \<Rightarrow> go_error + 'q AdaptiveWorkflow" where
  "decode_workflow K msg1 msg2 namespace data = (case kw_DecodeUnstructured K data of
     Some err \<Rightarrow> Inl (Wrapf msg1 err)
   | None \<Rightarrow> (case kw_DecodeWorkflow K data of
       Inl err \<Rightarrow> Inl (Wrapf msg2 err)
     | Inr aw \<Rightarrow> Inr (if om_Namespace (wf_Meta aw) = '''' then aw\<lparr> wf_Meta := (wf_Meta aw)\<lparr> om_Namespace := namespace \<rparr> \<rparr> else aw)))"

text \<open>
  Create, or update the specification of what is there. The result tells a creation (with the
  object the server returned) from an update; errors keep the call they come from.
\<close>

datatype 'q submission = Created "'q AdaptiveWorkflow" | Updated_spec | CreateFailed go_error | UpdateFailed go_error

definition create_or_update :: "('w, 'q) api_client \<Rightarrow> 'q AdaptiveWorkflow \<Rightarrow> 'w \<Rightarrow> 'q submission \<times> 'w" where
  "create_or_update c aw w = (case ac_Get c (om_Namespace (wf_Meta aw)) (om_Name (wf_Meta aw)) w of
     (Inl err, w1) \<Rightarrow> (case ac_Create c aw w1 of
         ((Some err, aw'), w2) \<Rightarrow> (CreateFailed err, w2)
       | ((None, aw'), w2) \<Rightarrow> (Created aw', w2))
   | (Inr existing, w1) \<Rightarrow> (case ac_Update c (existing\<lparr> wf_Spec := wf_Spec aw \<rparr>) w1 of
         ((Some err, _), w2) \<Rightarrow> (UpdateFailed err, w2)
       | ((None, _), w2) \<Rightarrow> (Updated_spec, w2)))"

definition check_mark :: string where
  "check_mark = [CHR 0xE2, CHR 0x9C, CHR 0x93]"

definition submit_text :: "'q golib \<Rightarrow> string \<Rightarrow> 'q AdaptiveWorkflow \<Rightarrow> string" where
  "submit_text L verb aw = check_mark @ '' Workflow '' @ go_quote L (om_Name (wf_Meta aw)) @ verb
     @ go_quote L (om_Namespace (wf_Meta aw)) @ [newline]"

definition submitCmd :: "('w, 'q, 'cfg) kwf_lib \<Rightarrow> string \<Rightarrow> string \<Rightarrow> string \<Rightarrow> 'w \<Rightarrow> (go_error option \<times> string) \<times> 'w" where
  "submitCmd K kubeconfig namespace filePath w = (case kw_ReadFile K filePath w of
     (Inl err, w1) \<Rightarrow> ((Some (Wrapf (''failed to read file '' @ filePath @ '': '') err), []), w1)
   | (Inr data, w1) \<Rightarrow>
       (case decode_workflow K ''failed to decode YAML: '' ''failed to decode as AdaptiveWorkflow: '' namespace data of
          Inl err \<Rightarrow> ((Some err, []), w1)
        | Inr aw \<Rightarrow> (case getClient K kubeconfig w1 of
            (Inl err, w2) \<Rightarrow> ((Some err, []), w2)
          | (Inr c, w2) \<Rightarrow> (case create_or_update c aw w2 of
              (CreateFailed err, w3) \<Rightarrow> ((Some (Wrapf ''failed to create workflow: '' err), []), w3)
            | (UpdateFailed err, w3) \<Rightarrow> ((Some (Wrapf ''failed to update workflow: '' err), []), w3)
            | (Created aw', w3) \<Rightarrow> ((None, submit_text (kw_lib K) '' submitted in namespace '' aw'
                @ ''  Tasks: '' @ dec_int (int (length (sp_Tasks (wf_Spec aw')))) @ [newline]
                @ ''  Goal:  '' @ sp_OptimizationGoal (wf_Spec aw') @ [newline]), w3)
            | (Updated_spec, w3) \<Rightarrow> ((None, submit_text (kw_lib K) '' updated in namespace '' aw), w3)))))"

section \<open>Status\<close>

definition row :: "string list \<Rightarrow> string" where
  "row cells = concat (map (\<lambda>c. c @ [tab]) (butlast cells)) @ last cells @ [newline]"

definition box :: "nat \<Rightarrow> string" where
  "box n = concat (replicate n [CHR 0xE2, CHR 0x94, CHR 0x80])"

definition task_cells :: "'q golib \<Rightarrow> 'q TaskStatuses \<Rightarrow> 'q TaskTemplate \<Rightarrow> string list" where
  "task_cells L sts task = (case fmlookup sts (tt_Name task) of
     None \<Rightarrow> [tt_Name task, ''Unknown'', ''-'', ''-'', ''-'']
   | Some ts \<Rightarrow>
       let cpu = (case fmlookup (rr_Requests (ts_AllocatedResources ts)) ''cpu'' of Some q \<Rightarrow> q_String L q | None \<Rightarrow> ''-'');
           mem = (case fmlookup (rr_Requests (ts_AllocatedResources ts)) ''memory'' of Some q \<Rightarrow> q_String L q | None \<Rightarrow> ''-'');
           podName = (if ts_PodName ts = '''' then ''-'' else ts_PodName ts)
       in [tt_Name task, ts_Phase ts, podName, cpu, mem])"

definition status_table :: "'q golib \<Rightarrow> 'q AdaptiveWorkflow \<Rightarrow> string list list" where
  "status_table L aw = [''TASK'', ''PHASE'', ''POD'', ''CPU REQ'', ''MEM REQ'']
     # [box 4, box 5, box 3, box 7, box 7]
     # map (task_cells L (case st_TaskStatuses (wf_Status aw) of Some m \<Rightarrow> m | None \<Rightarrow> fmempty)) (sp_Tasks (wf_Spec aw))"

definition usage_text :: "'q golib \<Rightarrow> (string, 'q) map_order \<Rightarrow> 'q ResourceList \<Rightarrow> string" where
  "usage_text L ord rl = (if go_len rl > 0
     then ''Resource Usage:'' @ [newline]
       @ concat (map (\<lambda>(r, q). ''  '' @ r @ '': '' @ q_String L q @ [newline]) (go_range ord rl))
     else [])"

definition conditions_text :: "Condition list \<Rightarrow> string" where
  "conditions_text cs = (if length cs > 0
     then [newline] @ ''Conditions:'' @ [newline]
       @ concat (map (\<lambda>c. ''  '' @ co_Type c @ '': '' @ co_Status c @ '' ('' @ co_Reason c @ '') ''
           @ [CHR 0xE2, CHR 0x80, CHR 0x94] @ '' '' @ co_Message c @ [newline]) cs)
     else [])"

definition status_text :: "'q golib \<Rightarrow> (string, 'q) map_order \<Rightarrow> 'q AdaptiveWorkflow \<Rightarrow> string" where
  "status_text L ord aw =
     ''Workflow: '' @ om_Name (wf_Meta aw) @ [newline] @ ''Phase:    '' @ st_Phase (wf_Status aw) @ [newline]
     @ ''Tasks:    '' @ dec_int (int (length (sp_Tasks (wf_Spec aw)))) @ '' total'' @ [newline]
     @ usage_text L ord (st_CurrentResourceUsage (wf_Status aw)) @ [newline]
     @ tabwriter (concat (map row (status_table L aw)))
     @ conditions_text (st_Conditions (wf_Status aw))"

definition statusCmd :: "('w, 'q, 'cfg) kwf_lib \<Rightarrow> string \<Rightarrow> string \<Rightarrow> string \<Rightarrow> 'w \<Rightarrow> (go_error option \<times> string) \<times> 'w" where
  "statusCmd K kubeconfig namespace name w = (case getClient K kubeconfig w of
     (Inl err, w1) \<Rightarrow> ((Some err, []), w1)
   | (Inr c, w1) \<Rightarrow> (case ac_Get c namespace name w1 of
       (Inl err, w2) \<Rightarrow> ((Some (Wrapf (''workflow '' @ go_quote (kw_lib K) name @ '' not found: '') err), []), w2)
     | (Inr aw, w2) \<Rightarrow> ((None, status_text (kw_lib K) (kw_range_usage K) aw), w2)))"

section \<open>List\<close>

fun running_loop :: "(string \<times> 'q TaskStatus) list \<Rightarrow> int \<Rightarrow> int" where
  "running_loop [] running = running"
| "running_loop ((_, ts) # rest) running =
     running_loop rest (if ts_Phase ts = TaskPhaseRunning then running + 1 else running)"

definition list_cells :: "('w, 'q, 'cfg) kwf_lib \<Rightarrow> bool \<Rightarrow> 'q AdaptiveWorkflow \<Rightarrow> int \<Rightarrow> string list" where
  "list_cells K allNamespaces aw now = (let
     age = Duration_Round (Since_ns now (om_CreationTimestamp (wf_Meta aw))) 1000000000;
     running = running_loop (go_range (kw_range_statuses K)
       (case st_TaskStatuses (wf_Status aw) of Some m \<Rightarrow> m | None \<Rightarrow> fmempty)) 0;
     taskInfo = dec_int (int (length (sp_Tasks (wf_Spec aw)))) @ '' ('' @ dec_int running @ '' running)'' in
     (if allNamespaces then [om_Namespace (wf_Meta aw)] else [])
       @ [om_Name (wf_Meta aw), st_Phase (wf_Status aw), taskInfo, Duration_String age])"

fun list_rows :: "('w, 'q, 'cfg) kwf_lib \<Rightarrow> bool \<Rightarrow> 'q AdaptiveWorkflow list \<Rightarrow> 'w \<Rightarrow> string list list \<times> 'w" where
  "list_rows K allNamespaces [] w = ([], w)"
| "list_rows K allNamespaces (aw # aws) w = (case kw_Now K w of (now, w1) \<Rightarrow>
     (case list_rows K allNamespaces aws w1 of (rows, w2) \<Rightarrow> (list_cells K allNamespaces aw now # rows, w2)))"

definition listCmd :: "('w, 'q, 'cfg) kwf_lib \<Rightarrow> string \<Rightarrow> string \<Rightarrow> bool \<Rightarrow> 'w \<Rightarrow> (go_error option \<times> string) \<times> 'w" where
  "listCmd K kubeconfig namespace allNamespaces w = (case getClient K kubeconfig w of
     (Inl err, w1) \<Rightarrow> ((Some err, []), w1)
   | (Inr c, w1) \<Rightarrow> (case ac_List c (if allNamespaces then None else Some namespace) w1 of
       (Inl err, w2) \<Rightarrow> ((Some (Wrapf ''failed to list workflows: '' err), []), w2)
     | (Inr items, w2) \<Rightarrow>
         if length items = 0 then ((None, ''No workflows found.'' @ [newline]), w2)
         else (case list_rows K allNamespaces items w2 of (rows, w3) \<Rightarrow>
           ((None, tabwriter (concat (map row
              (((if allNamespaces then [''NAMESPACE''] else []) @ [''NAME'', ''PHASE'', ''TASKS'', ''AGE'']) # rows)))), w3))))"

end
