(* ===== verification/Kwf_Ui.thy ===== *)
theory Kwf_Ui
  imports Kwf
begin

text \<open>
  The server of the web dashboard, \<^verbatim>\<open>cmd/kwf/ui.go\<close>: the handlers of the two API routes and the
  CORS wrapper around them. A handler takes a request and turns the response written so far, and
  the world, into new ones. JSON text for the workflow objects comes from the marshallers of the
  Kubernetes types and is a parameter, like the decoding of a request body; the small answers
  are encoded here. Headers the server adds itself and log messages are left out.
\<close>

section \<open>Requests and responses\<close>

record http_request =
  hr_Method :: string
  hr_Path :: string
  hr_Body :: string

text \<open>The status code is \<open>None\<close> until a header or the first byte of the body is written.\<close>

record http_response =
  hw_Code :: "int option"
  hw_Header :: "(string \<times> string) list"
  hw_Body :: string

definition new_response :: http_response where
  "new_response = \<lparr> hw_Code = None, hw_Header = [], hw_Body = [] \<rparr>"

definition header_Set :: "string \<Rightarrow> string \<Rightarrow> http_response \<Rightarrow> http_response" where
  "header_Set k v r = (if hw_Code r = None then r\<lparr> hw_Header := AList.update k v (hw_Header r) \<rparr> else r)"

definition WriteHeader :: "int \<Rightarrow> http_response \<Rightarrow> http_response" where
  "WriteHeader n r = (if hw_Code r = None then r\<lparr> hw_Code := Some n \<rparr> else r)"

definition write_body :: "string \<Rightarrow> http_response \<Rightarrow> http_response" where
  "write_body s r = (WriteHeader 200 r)\<lparr> hw_Body := hw_Body r @ s \<rparr>"

definition http_Error :: "string \<Rightarrow> int \<Rightarrow> http_response \<Rightarrow> http_response" where
  "http_Error msg code r = write_body (msg @ [newline]) (WriteHeader code
     (header_Set ''X-Content-Type-Options'' ''nosniff'' (header_Set ''Content-Type'' ''text/plain; charset=utf-8'' r)))"

lemma hw_Code_simps [simp]:
  "hw_Code (header_Set k v r) = hw_Code r"
  "hw_Code r = None \<Longrightarrow> hw_Code (WriteHeader n r) = Some n"
  "hw_Code r = Some m \<Longrightarrow> hw_Code (WriteHeader n r) = Some m"
  "hw_Code (write_body s r) = hw_Code (WriteHeader 200 r)"
  by (simp_all add: header_Set_def WriteHeader_def write_body_def)

section \<open>JSON strings\<close>

definition hex_digit :: "nat \<Rightarrow> char" where
  "hex_digit n = ''0123456789abcdef'' ! (n mod 16)"

text \<open>One character, escaped the way the encoder escapes for HTML too.\<close>

definition json_rune :: "string \<Rightarrow> string" where
  "json_rune s = (case s of
     [c] \<Rightarrow> let b = byte_of c in
       if b \<ge> 0x80 then [CHR 0x5C] @ ''ufffd''
       else if c = CHR 0x22 \<or> c = CHR 0x5C then [CHR 0x5C, c]
       else if b = 0x08 then [CHR 0x5C] @ ''b''
       else if b = 0x0C then [CHR 0x5C] @ ''f''
       else if b = 0x0A then [CHR 0x5C] @ ''n''
       else if b = 0x0D then [CHR 0x5C] @ ''r''
       else if b = 0x09 then [CHR 0x5C] @ ''t''
       else if b < 0x20 \<or> c = CHR ''<'' \<or> c = CHR ''>'' \<or> c = CHR 0x26
         then [CHR 0x5C] @ ''u00'' @ [hex_digit (b div 16), hex_digit b]
       else [c]
   | _ \<Rightarrow> if s = [CHR 0xE2, CHR 0x80, CHR 0xA8] then [CHR 0x5C] @ ''u2028''
          else if s = [CHR 0xE2, CHR 0x80, CHR 0xA9] then [CHR 0x5C] @ ''u2029'' else s)"

definition json_string :: "string \<Rightarrow> string" where
  "json_string s = [CHR 0x22] @ concat (map json_rune (runes s)) @ [CHR 0x22]"

text \<open>A \<^verbatim>\<open>map[string]string\<close>, its keys in order, and the newline the encoder ends with.\<close>

definition json_object :: "(string \<times> string) list \<Rightarrow> string" where
  "json_object kvs = ''{'' @ concat (map (\<lambda>(k, v). json_string k @ '':'' @ json_string v @ '','') (butlast kvs))
     @ (if kvs = [] then [] else case last kvs of (k, v) \<Rightarrow> json_string k @ '':'' @ json_string v) @ ''}'' @ [newline]"

section \<open>Handlers\<close>

record ('w, 'q, 'cfg) ui_lib = "('w, 'q, 'cfg) kwf_lib" +
  ui_DecodeRequest :: "string \<Rightarrow> go_error + string"
  ui_EncodeList :: "'q AdaptiveWorkflowList \<Rightarrow> go_error + string"
  ui_EncodeWorkflow :: "'q AdaptiveWorkflow \<Rightarrow> go_error + string"

text \<open>What an encoder writes: everything or, on an error that is only logged, nothing.\<close>

definition encode_to :: "go_error + string \<Rightarrow> http_response \<Rightarrow> http_response" where
  "encode_to e r = (case e of Inl _ \<Rightarrow> r | Inr s \<Rightarrow> write_body s r)"

definition corsMiddleware :: "(http_request \<Rightarrow> http_response \<Rightarrow> 'w \<Rightarrow> http_response \<times> 'w)
    \<Rightarrow> http_request \<Rightarrow> http_response \<Rightarrow> 'w \<Rightarrow> http_response \<times> 'w" where
  "corsMiddleware next_h req r w = (let r1 =
       header_Set ''Access-Control-Allow-Headers''
         ''Accept, Content-Type, Content-Length, Accept-Encoding, X-CSRF-Token, Authorization''
       (header_Set ''Access-Control-Allow-Methods'' ''POST, GET, OPTIONS, PUT, DELETE''
       (header_Set ''Access-Control-Allow-Origin'' ''*'' r)) in
     if hr_Method req = ''OPTIONS'' then (WriteHeader 200 r1, w) else next_h req r1 w)"

definition workflows_get :: "('w, 'q, 'cfg) ui_lib \<Rightarrow> string \<Rightarrow> ('w, 'q) api_client
    \<Rightarrow> http_response \<Rightarrow> 'w \<Rightarrow> http_response \<times> 'w" where
  "workflows_get U namespace c r w =
     (case ac_List c (if namespace \<noteq> '''' \<and> namespace \<noteq> ''all'' then Some namespace else None) w of
        (Inl err, w1) \<Rightarrow> (http_Error (error_text err) 500 r, w1)
      | (Inr items, w1) \<Rightarrow>
          (encode_to (ui_EncodeList U items) (header_Set ''Content-Type'' ''application/json'' r), w1))"

definition workflows_post :: "('w, 'q, 'cfg) ui_lib \<Rightarrow> string \<Rightarrow> ('w, 'q) api_client
    \<Rightarrow> http_request \<Rightarrow> http_response \<Rightarrow> 'w \<Rightarrow> http_response \<times> 'w" where
  "workflows_post U namespace c req r w = (case ui_DecodeRequest U (hr_Body req) of
     Inl err \<Rightarrow> (http_Error (error_text err) 400 r, w)
   | Inr yaml \<Rightarrow>
       (case decode_workflow (kwf_lib.truncate U) ''failed to parse yaml metadata: ''
               ''failed to parse as AdaptiveWorkflow: '' namespace yaml of
          Inl err \<Rightarrow> (http_Error (error_text err) 400 r, w)
        | Inr aw \<Rightarrow> (case create_or_update c aw w of
            (CreateFailed err, w1) \<Rightarrow> (http_Error (error_text err) 500 r, w1)
          | (UpdateFailed err, w1) \<Rightarrow> (http_Error (error_text err) 500 r, w1)
          | (Created aw', w1) \<Rightarrow>
              (write_body (json_object [(''name'', om_Name (wf_Meta aw')), (''status'', ''created'')]) (WriteHeader 201 r), w1)
          | (Updated_spec, w1) \<Rightarrow>
              (write_body (json_object [(''name'', om_Name (wf_Meta aw)), (''status'', ''updated'')]) (WriteHeader 200 r), w1))))"

definition handleWorkflows :: "('w, 'q, 'cfg) ui_lib \<Rightarrow> string \<Rightarrow> string \<Rightarrow> http_request \<Rightarrow> http_response \<Rightarrow> 'w
    \<Rightarrow> http_response \<times> 'w" where
  "handleWorkflows U kubeconfig namespace req r w = (case getClient (kwf_lib.truncate U) kubeconfig w of
     (Inl err, w1) \<Rightarrow> (http_Error (error_text err) 500 r, w1)
   | (Inr c, w1) \<Rightarrow>
       if hr_Method req = ''GET'' then workflows_get U namespace c r w1
       else if hr_Method req = ''POST'' then workflows_post U namespace c req r w1
       else (http_Error ''Method not allowed'' 405 r, w1))"

definition handleWorkflowDetail :: "('w, 'q, 'cfg) ui_lib \<Rightarrow> string \<Rightarrow> string \<Rightarrow> http_request \<Rightarrow> http_response \<Rightarrow> 'w
    \<Rightarrow> http_response \<times> 'w" where
  "handleWorkflowDetail U kubeconfig namespace req r w = (case getClient (kwf_lib.truncate U) kubeconfig w of
     (Inl err, w1) \<Rightarrow> (http_Error (error_text err) 500 r, w1)
   | (Inr c, w1) \<Rightarrow>
       let name = last (split_on (\<lambda>ch. ch = CHR ''/'') (hr_Path req)) in
       if name = '''' then (http_Error ''Missing name parameter'' 400 r, w1)
       else if hr_Method req = ''GET'' then
         (case ac_Get c namespace name w1 of
            (Inl err, w2) \<Rightarrow> (http_Error (error_text err) 404 r, w2)
          | (Inr aw, w2) \<Rightarrow>
              (encode_to (ui_EncodeWorkflow U aw) (header_Set ''Content-Type'' ''application/json'' r), w2))
       else if hr_Method req = ''DELETE'' then
         (case ac_Delete c namespace name w1 of
            (Some err, w2) \<Rightarrow> (http_Error (error_text err) 500 r, w2)
          | (None, w2) \<Rightarrow> (write_body (json_object [(''status'', ''deleted'')]) (WriteHeader 200 r), w2))
       else (http_Error ''Method not allowed'' 405 r, w1))"

text \<open>
  The routes, for the cleaned paths the mux of the library dispatches on, with the file server as
  a parameter; \<^verbatim>\<open>ui\<close> serves them behind the CORS wrapper until serving fails.
\<close>

definition ui_routes :: "('w, 'q, 'cfg) ui_lib \<Rightarrow> string \<Rightarrow> string
    \<Rightarrow> (http_request \<Rightarrow> http_response \<Rightarrow> 'w \<Rightarrow> http_response \<times> 'w)
    \<Rightarrow> http_request \<Rightarrow> http_response \<Rightarrow> 'w \<Rightarrow> http_response \<times> 'w" where
  "ui_routes U kubeconfig namespace files req =
     (if hr_Path req = ''/api/workflows'' then handleWorkflows U kubeconfig namespace req
      else if prefix ''/api/workflows/'' (hr_Path req) then handleWorkflowDetail U kubeconfig namespace req
      else files req)"

definition uiCmd :: "('w, 'q, 'cfg) ui_lib \<Rightarrow> string \<Rightarrow> string
    \<Rightarrow> (http_request \<Rightarrow> http_response \<Rightarrow> 'w \<Rightarrow> http_response \<times> 'w)
    \<Rightarrow> (string \<Rightarrow> (http_request \<Rightarrow> http_response \<Rightarrow> 'w \<Rightarrow> http_response \<times> 'w) \<Rightarrow> 'w \<Rightarrow> go_error option \<times> 'w)
    \<Rightarrow> 'w \<Rightarrow> (go_error option \<times> string) \<times> 'w" where
  "uiCmd U kubeconfig namespace files ListenAndServe w =
     (case ListenAndServe '':8080'' (corsMiddleware (ui_routes U kubeconfig namespace files)) w of
        (e, w1) \<Rightarrow> ((e, ''Starting web dashboard at http://localhost:8080'' @ [newline]), w1))"

section \<open>The program\<close>

text \<open>
  \<^verbatim>\<open>main\<close> registers the four commands and the flags. What the command line means is settled by cobra:
  an error in it, a request for help, or a command with its flags and arguments, which
  cobra hands to the command after the check the command asked for.
\<close>

record kwf_flags =
  kf_kubeconfig :: string
  kf_namespace :: string
  kf_allNamespaces :: bool

datatype cobra_line = CobraError go_error | CobraHelp string | CobraRun string kwf_flags "string list"

definition ExactArgs1 :: "string list \<Rightarrow> (string \<Rightarrow> 'w \<Rightarrow> (go_error option \<times> string) \<times> 'w)
    \<Rightarrow> 'w \<Rightarrow> (go_error option \<times> string) \<times> 'w" where
  "ExactArgs1 args run w = (case args of [a] \<Rightarrow> run a w
     | _ \<Rightarrow> ((Some (Err (''accepts 1 arg(s), received '' @ dec_int (int (length args)))), []), w))"

definition rootCmd_Execute :: "('w, 'q, 'cfg) ui_lib
    \<Rightarrow> (http_request \<Rightarrow> http_response \<Rightarrow> 'w \<Rightarrow> http_response \<times> 'w)
    \<Rightarrow> (string \<Rightarrow> (http_request \<Rightarrow> http_response \<Rightarrow> 'w \<Rightarrow> http_response \<times> 'w) \<Rightarrow> 'w \<Rightarrow> go_error option \<times> 'w)
    \<Rightarrow> cobra_line \<Rightarrow> 'w \<Rightarrow> (go_error option \<times> string) \<times> 'w" where
  "rootCmd_Execute U files ListenAndServe line w = (case line of
     CobraError err \<Rightarrow> ((Some err, []), w)
   | CobraHelp text \<Rightarrow> ((None, text), w)
   | CobraRun cmd f args \<Rightarrow>
       (let K = kwf_lib.truncate U; kubeconfig = kf_kubeconfig f; namespace = kf_namespace f in
        if cmd = ''submit'' then ExactArgs1 args (submitCmd K kubeconfig namespace) w
        else if cmd = ''status'' then ExactArgs1 args (statusCmd K kubeconfig namespace) w
        else if cmd = ''list'' then listCmd K kubeconfig namespace (kf_allNamespaces f) w
        else if cmd = ''ui'' then uiCmd U kubeconfig namespace files ListenAndServe w
        else ((Some (Err (''unknown command '' @ cmd)), []), w)))"

text \<open>The exit status, and what was printed to standard output.\<close>

definition kwf_main :: "('w, 'q, 'cfg) ui_lib
    \<Rightarrow> (http_request \<Rightarrow> http_response \<Rightarrow> 'w \<Rightarrow> http_response \<times> 'w)
    \<Rightarrow> (string \<Rightarrow> (http_request \<Rightarrow> http_response \<Rightarrow> 'w \<Rightarrow> http_response \<times> 'w) \<Rightarrow> 'w \<Rightarrow> go_error option \<times> 'w)
    \<Rightarrow> (string list \<Rightarrow> cobra_line) \<Rightarrow> string list \<Rightarrow> 'w \<Rightarrow> (int \<times> string) \<times> 'w" where
  "kwf_main U files ListenAndServe cobra args w =
     (case rootCmd_Execute U files ListenAndServe (cobra args) w of
        ((Some err, out), w1) \<Rightarrow> ((1, out), w1)
      | ((None, out), w1) \<Rightarrow> ((0, out), w1))"

end
