(* ===== verification/Kwf_Properties.thy ===== *)
theory Kwf_Properties
  imports Kwf_Ui Mem_Cluster
begin

text \<open>
  Properties of the command line client and the dashboard server, over an API server that
  stores workflows by namespace and name: what a submission stores, that the dashboard submits
  as the command line does and changes nothing otherwise, and what the status table shows.
\<close>

section \<open>The API server\<close>

text \<open>
  What a successful call does to the stored workflows \<open>st w\<close>. Creating and updating go through
  the main resource: the specification is taken, the status is not. A call that fails is not
  constrained.
\<close>

type_synonym 'q store = "string \<times> string \<rightharpoonup> 'q AdaptiveWorkflow"

abbreviation key_of :: "'q AdaptiveWorkflow \<Rightarrow> string \<times> string" where
  "key_of aw \<equiv> (om_Namespace (wf_Meta aw), om_Name (wf_Meta aw))"

definition api_store :: "('w, 'q) api_client \<Rightarrow> ('w \<Rightarrow> 'q store) \<Rightarrow> bool" where
  "api_store c st \<longleftrightarrow>
     (\<forall>ns n w r w'. ac_Get c ns n w = (r, w') \<longrightarrow> st w' = st w \<and> (\<forall>aw. r = Inr aw \<longrightarrow> st w (ns, n) = Some aw \<and> key_of aw = (ns, n)))
     \<and> (\<forall>ns w r w'. ac_List c ns w = (r, w') \<longrightarrow> st w' = st w)
     \<and> (\<forall>aw w aw' w'. ac_Create c aw w = ((None, aw'), w') \<longrightarrow> st w (key_of aw) = None
          \<and> st w' = (st w)(key_of aw \<mapsto> aw') \<and> key_of aw' = key_of aw \<and> wf_Spec aw' = wf_Spec aw)
     \<and> (\<forall>aw w aw' w'. ac_Update c aw w = ((None, aw'), w') \<longrightarrow>
          (\<exists>old. st w (key_of aw) = Some old \<and> st w' = (st w)(key_of aw \<mapsto> aw')
             \<and> wf_Spec aw' = wf_Spec aw \<and> wf_Status aw' = wf_Status old))"

lemma api_store_update:
  "api_store c st \<Longrightarrow> ac_Update c aw w = ((None, aw'), w') \<Longrightarrow>
    \<exists>old. st w (key_of aw) = Some old \<and> st w' = (st w)(key_of aw \<mapsto> aw')
      \<and> wf_Spec aw' = wf_Spec aw \<and> wf_Status aw' = wf_Status old"
  unfolding api_store_def by blast

lemma api_store_reads:
  "api_store c st \<Longrightarrow> ac_Get c ns n w = (r, w') \<Longrightarrow> st w' = st w"
  "api_store c st \<Longrightarrow> ac_List c o1 w = (l, w') \<Longrightarrow> st w' = st w"
  unfolding api_store_def by blast+

lemma api_store_get:
  "api_store c st \<Longrightarrow> ac_Get c ns n w = (Inr aw, w') \<Longrightarrow> st w (ns, n) = Some aw \<and> key_of aw = (ns, n)"
  unfolding api_store_def by blast

lemma api_store_create:
  "api_store c st \<Longrightarrow> ac_Create c aw w = ((None, aw'), w') \<Longrightarrow> st w (key_of aw) = None
    \<and> st w' = (st w)(key_of aw \<mapsto> aw') \<and> key_of aw' = key_of aw \<and> wf_Spec aw' = wf_Spec aw"
  unfolding api_store_def by blast

section \<open>Submission\<close>

text \<open>The workflow a document stands for.\<close>

definition document :: "('w, 'q, 'cfg) kwf_lib \<Rightarrow> string \<Rightarrow> string \<Rightarrow> 'q AdaptiveWorkflow option" where
  "document K namespace data = (case (kw_DecodeUnstructured K data, kw_DecodeWorkflow K data) of
     (None, Inr aw) \<Rightarrow> Some (if om_Namespace (wf_Meta aw) = '''' then aw\<lparr> wf_Meta := (wf_Meta aw)\<lparr> om_Namespace := namespace \<rparr> \<rparr> else aw)
   | _ \<Rightarrow> None)"

lemma decode_document:
  "(\<exists>err. decode_workflow K m1 m2 ns data = Inl err) = (document K ns data = None)"
  "(decode_workflow K m1 m2 ns data = Inr aw) = (document K ns data = Some aw)"
  by (auto simp: decode_workflow_def document_def split: option.splits sum.splits)

definition submitted :: "'q submission \<Rightarrow> bool" where
  "submitted s \<longleftrightarrow> (case s of Created _ \<Rightarrow> True | Updated_spec \<Rightarrow> True | _ \<Rightarrow> False)"

lemma create_or_update_stores:
  assumes "api_store c st" "create_or_update c aw w = (s, w')" "submitted s"
  shows "\<exists>aw'. st w' = (st w)(key_of aw \<mapsto> aw') \<and> wf_Spec aw' = wf_Spec aw
    \<and> (\<forall>old. st w (key_of aw) = Some old \<longrightarrow> wf_Status aw' = wf_Status old)"
proof -
  obtain g w1 where g: "ac_Get c (om_Namespace (wf_Meta aw)) (om_Name (wf_Meta aw)) w = (g, w1)" by fastforce
  with assms(1) have w1: "st w1 = st w" unfolding api_store_def by blast
  show ?thesis
  proof (cases g)
    case (Inl err)
    obtain e aw' w2 where c: "ac_Create c aw w1 = ((e, aw'), w2)" by (metis surj_pair)
    with Inl g assms(2,3) have "e = None" "w2 = w'"
      by (auto simp: create_or_update_def submitted_def split: option.splits)
    with assms(1) c have "st w1 (key_of aw) = None \<and> st w' = (st w1)(key_of aw \<mapsto> aw') \<and> wf_Spec aw' = wf_Spec aw"
      unfolding api_store_def by blast
    then show ?thesis by (simp add: w1) blast
  next
    case (Inr existing)
    with assms(1) g have ex: "st w (key_of aw) = Some existing" "key_of existing = key_of aw"
      unfolding api_store_def by blast+
    obtain e aw' w2 where u: "ac_Update c (existing\<lparr> wf_Spec := wf_Spec aw \<rparr>) w1 = ((e, aw'), w2)" by (metis surj_pair)
    with Inr g assms(2,3) have "e = None" "w2 = w'"
      by (auto simp: create_or_update_def submitted_def split: option.splits)
    with api_store_update [OF assms(1), of "existing\<lparr> wf_Spec := wf_Spec aw \<rparr>"] u ex(2)
    have "\<exists>old. st w1 (key_of aw) = Some old \<and> st w' = (st w1)(key_of aw \<mapsto> aw')
        \<and> wf_Spec aw' = wf_Spec aw \<and> wf_Status aw' = wf_Status old" by simp
    then show ?thesis unfolding w1 by auto
  qed
qed

lemma submitCmd_ok:
  assumes "submitCmd K kc ns path w = ((None, out), w')"
  obtains data w1 aw c w2 s where "kw_ReadFile K path w = (Inr data, w1)" "document K ns data = Some aw"
    "getClient K kc w1 = (Inr c, w2)" "create_or_update c aw w2 = (s, w')" "submitted s"
proof -
  obtain f w1 where f: "kw_ReadFile K path w = (f, w1)" by fastforce
  with assms obtain data where data: "f = Inr data" by (cases f) (auto simp: submitCmd_def)
  with f assms obtain aw where aw: "decode_workflow K ''failed to decode YAML: '' ''failed to decode as AdaptiveWorkflow: '' ns data = Inr aw"
    by (cases "decode_workflow K ''failed to decode YAML: '' ''failed to decode as AdaptiveWorkflow: '' ns data") (auto simp: submitCmd_def)
  obtain g w2 where g: "getClient K kc w1 = (g, w2)" by fastforce
  with f data aw assms obtain c where c: "g = Inr c" by (cases g) (auto simp: submitCmd_def)
  obtain s w3 where s: "create_or_update c aw w2 = (s, w3)" by fastforce
  with f data aw g c assms have "submitted s" "w3 = w'" by (cases s; auto simp: submitCmd_def submitted_def)+
  with that f data aw g c s show ?thesis by (simp add: decode_document)
qed

lemma kwf_main_submit:
  assumes "kwf_main U files serve cobra args w = ((0, out), w')" "cobra args = CobraRun ''submit'' f paths" "K = kwf_lib.truncate U"
  shows "\<exists>path. paths = [path] \<and> submitCmd K (kf_kubeconfig f) (kf_namespace f) path w = ((None, out), w')"
  using assms by (auto simp: kwf_main_def rootCmd_Execute_def Let_def ExactArgs1_def split: prod.splits option.splits list.splits)


text \<open>An API server whose world is the store, and a file with the example workflow.\<close>

definition ex_api :: "(rat store, rat) api_client" where
  "ex_api = \<lparr> ac_Get = (\<lambda>ns n w. (case w (ns, n) of
       Some aw \<Rightarrow> if key_of aw = (ns, n) then Inr aw else Inl (Err ''corrupt'') | None \<Rightarrow> Inl (Err ''not found''), w)),
     ac_Create = (\<lambda>aw w. if w (key_of aw) = None then ((None, aw), w(key_of aw \<mapsto> aw)) else ((Some (Err ''already exists''), aw), w)),
     ac_Update = (\<lambda>aw w. case w (key_of aw) of
         Some old \<Rightarrow> ((None, aw\<lparr> wf_Status := wf_Status old \<rparr>), w(key_of aw \<mapsto> aw\<lparr> wf_Status := wf_Status old \<rparr>))
       | None \<Rightarrow> ((Some (Err ''not found''), aw), w)),
     ac_Delete = (\<lambda>ns n w. (None, w((ns, n) := None))),
     ac_List = (\<lambda>ns w. (Inr [], w)) \<rparr>"

definition ex_kwf :: "(rat store, rat, unit) kwf_lib" where
  "ex_kwf = \<lparr> kw_ReadFile = (\<lambda>p w. (Inr ''doc'', w)), kw_DecodeUnstructured = (\<lambda>d. None),
     kw_DecodeWorkflow = (\<lambda>d. Inr (ex_wf '''' None)), kw_ClientConfig = (\<lambda>p w. (Inr (), w)),
     kw_NewClient = (\<lambda>cfg w. (Inr ex_api, w)), kw_Now = (\<lambda>w. (0, w)), kw_lib = rat_lib,
     kw_range_usage = sorted_order, kw_range_statuses = sorted_order \<rparr>"

lemma ex_api_store: "api_store ex_api (\<lambda>w. w)"
  unfolding api_store_def ex_api_def by (auto split: option.splits if_splits)

lemma ex_kwf_client: "getClient ex_kwf kc w = (Inr ex_api, w)"
  by (simp add: getClient_def ex_kwf_def)

lemma ex_kwf_file: "kw_ReadFile ex_kwf p w = (Inr ''doc'', w)"
  by (simp add: ex_kwf_def)

lemma ex_kwf_document: "document ex_kwf ns data = Some (ex_wf '''' None)"
  by (simp add: document_def ex_kwf_def ex_meta_def)

lemma ex_submit: "\<exists>out. submitCmd ex_kwf '''' ''default'' ''f.yaml'' Map.empty
    = ((None, out), [(''ns'', ''wf'') \<mapsto> ex_wf '''' None])"
proof -
  have "create_or_update ex_api (ex_wf '''' None) Map.empty = (Created (ex_wf '''' None), [(''ns'', ''wf'') \<mapsto> ex_wf '''' None])"
    by (simp add: create_or_update_def ex_api_def ex_meta_def)
  moreover have "decode_workflow ex_kwf m1 m2 ns data = Inr (ex_wf '''' None)" for m1 m2 ns data
    by (simp add: decode_document ex_kwf_document)
  ultimately show ?thesis by (simp add: submitCmd_def ex_kwf_file ex_kwf_client)
qed

definition ex_ui :: "(rat store, rat, unit) ui_lib" where
  "ex_ui = kwf_lib.extend ex_kwf (ui_lib.fields (\<lambda>b. Inr b) (\<lambda>l. Inr ''[]'') (\<lambda>aw. Inr ''{}''))"

lemma ex_ui_truncate: "kwf_lib.truncate ex_ui = ex_kwf"
  by (simp add: ex_ui_def kwf_lib.defs ui_lib.defs)

definition ex_line :: "string list \<Rightarrow> cobra_line" where
  "ex_line args = (case args of cmd # rest \<Rightarrow> CobraRun cmd \<lparr> kf_kubeconfig = [], kf_namespace = ''default'', kf_allNamespaces = False \<rparr> rest
     | [] \<Rightarrow> CobraHelp [])"


section \<open>The dashboard\<close>


lemma ex_ui_decode: "ui_DecodeRequest ex_ui b = Inr b"
  by (simp add: ex_ui_def kwf_lib.defs ui_lib.defs)

definition ex_post :: http_request where
  "ex_post = \<lparr> hr_Method = ''POST'', hr_Path = ''/api/workflows'', hr_Body = ''doc'' \<rparr>"


text \<open>
  C36. Only POST and DELETE change anything: on any other method, whatever the path and however the
  calls end, the dashboard server leaves the stored workflows as they are. A preflight request is
  answered with 200 before any handler runs.
\<close>

theorem ui_reads_only:
  assumes "corsMiddleware (ui_routes U kc ns files) req r w = (r', w')"
    and "hr_Method req \<notin> {''POST'', ''DELETE''}"
    and "\<forall>w0 g w1. getClient (kwf_lib.truncate U) kc w0 = (g, w1) \<longrightarrow> st w1 = st w0 \<and> (\<forall>c. g = Inr c \<longrightarrow> api_store c st)"
    and "\<forall>q r0 w0 r1 w1. files q r0 w0 = (r1, w1) \<longrightarrow> st w1 = st w0"
  shows "st w' = st w \<and> (hr_Method req = ''OPTIONS'' \<and> hw_Code r = None \<longrightarrow> hw_Code r' = Some 200 \<and> w' = w)"
proof (cases "hr_Method req = ''OPTIONS''")
  case True
  with assms(1) show ?thesis by (auto simp: corsMiddleware_def Let_def)
next
  case False
  then obtain r1 where r1: "ui_routes U kc ns files req r1 w = (r', w')"
    using assms(1) by (auto simp: corsMiddleware_def Let_def)
  obtain g v where g: "getClient (kwf_lib.truncate U) kc w = (g, v)" by fastforce
  with assms(3) have v: "st v = st w" "\<And>c. g = Inr c \<Longrightarrow> api_store c st" by blast+
  have "st w' = st w" if "handleWorkflows U kc ns req r1 w = (r', w')"
    using that g v assms(2) api_store_reads(2)
    by (fastforce simp: handleWorkflows_def workflows_get_def split: sum.splits prod.splits if_splits)
  moreover have "st w' = st w" if "handleWorkflowDetail U kc ns req r1 w = (r', w')"
    using that g v assms(2) api_store_reads(1)
    by (fastforce simp: handleWorkflowDetail_def Let_def split: sum.splits prod.splits if_splits)
  ultimately show ?thesis using r1 assms(4) False by (auto simp: ui_routes_def split: if_splits)
qed

definition ex_get :: http_request where
  "ex_get = \<lparr> hr_Method = ''GET'', hr_Path = ''/api/workflows/wf'', hr_Body = [] \<rparr>"

theorem ui_reads_only_witness:
  "snd (corsMiddleware (ui_routes ex_ui '''' ''ns'' (\<lambda>q r w. (r, w))) ex_get new_response Map.empty) = Map.empty"
proof -
  obtain r' w' where h: "corsMiddleware (ui_routes ex_ui '''' ''ns'' (\<lambda>q r w. (r, w))) ex_get new_response Map.empty = (r', w')"
    by fastforce
  have m: "hr_Method ex_get \<notin> {''POST'', ''DELETE''}" by (simp add: ex_get_def)
  have c: "\<forall>w0 g w1. getClient (kwf_lib.truncate ex_ui) '''' w0 = (g, w1) \<longrightarrow> w1 = w0 \<and> (\<forall>c. g = Inr c \<longrightarrow> api_store c (\<lambda>w. w))"
    using ex_api_store by (simp add: ex_ui_truncate ex_kwf_client)
  from ui_reads_only [where st = "\<lambda>w. w", OF h m c] h show ?thesis by simp
qed

section \<open>The status table\<close>

text \<open>A text the tab writer passes on as one cell.\<close>

definition clean :: "string \<Rightarrow> bool" where
  "clean s \<longleftrightarrow> list_all (\<lambda>c. c \<notin> {tab, CHR 0x0B, newline, CHR 0x0C}) s"

abbreviation row_line :: "string list \<Rightarrow> string" where
  "row_line cells \<equiv> concat (map (\<lambda>c. c @ [tab]) (butlast cells)) @ last cells"

lemma row_line: "row cells = row_line cells @ [newline]"
  by (simp add: row_def)

lemma split_cells:
  "cells \<noteq> [] \<Longrightarrow> list_all clean cells \<Longrightarrow> split_on (\<lambda>c. c = tab \<or> c = CHR 0x0B) (row_line cells) = cells"
proof (induction cells)
  case (Cons c cs)
  then have "\<not> list_ex (\<lambda>c. c = tab \<or> c = CHR 0x0B) c" by (auto simp: clean_def list_all_iff list_ex_iff)
  with Cons show ?case by (cases "cs = []") (simp_all add: split_on_none split_on_append)
qed simp

lemma row_line_set: "cells \<noteq> [] \<Longrightarrow> set (row_line cells) \<subseteq> insert tab (\<Union> (set ` set cells))"
  by (auto dest: in_set_butlastD intro: last_in_set)

lemma row_line_chars:
  assumes "list_all clean cells" "cells \<noteq> []" "c \<in> set (row_line cells)"
  shows "c \<noteq> newline \<and> c \<noteq> CHR 0x0C"
proof -
  from row_line_set [OF assms(2)] assms(3) consider "c = tab" | s where "s \<in> set cells" "c \<in> set s" by blast
  then show ?thesis
  proof cases
    case 2
    with assms(1) show ?thesis by (auto simp: list_all_iff clean_def)
  qed simp
qed

lemma tab_lines_rows:
  "list_all (\<lambda>l. l \<noteq> [] \<and> list_all clean l) ls \<Longrightarrow> tab_lines (concat (map row ls)) = ls"
proof -
  assume ls: "list_all (\<lambda>l. l \<noteq> [] \<and> list_all clean l) ls"
  have "split_on (\<lambda>c. c = newline) (concat (map row ls)) = map row_line ls @ [[]]"
    using ls
  proof (induction ls)
    case (Cons l ls)
    then have "\<not> list_ex (\<lambda>c. c = newline) (row_line l)" using row_line_chars [of l] by (auto simp: list_ex_iff)
    from split_on_append [OF this, of newline "concat (map row ls)"] Cons show ?case by (simp add: row_line [of l])
  qed simp
  with ls show ?thesis by (simp add: tab_lines_def list_all_iff split_cells map_idI)
qed

lemma tabwriter_rows:
  assumes "list_all (\<lambda>l. length l = n + 1 \<and> list_all clean l) ls"
  shows "tabwriter (concat (map row ls)) = concat (map (write_line (map (\<lambda>i. column_width i ls) [0..<n])) ls)"
proof -
  have ne: "list_all (\<lambda>l. l \<noteq> [] \<and> list_all clean l) ls" using assms by (auto simp: list_all_iff)
  have "c \<noteq> CHR 0x0C" if c: "l \<in> set ls" "c \<in> set (row l)" for l c
  proof -
    from c(2) have "c \<in> set (row_line l) \<or> c = newline" unfolding row_line set_append by auto
    with row_line_chars [of l c] c(1) ne show ?thesis by (auto simp: list_all_iff)
  qed
  then have "\<not> list_ex (\<lambda>c. c = CHR 0x0C) (concat (map row ls))" by (auto simp: list_ex_iff)
  then have "tabwriter (concat (map row ls)) = tab_format [] ls"
    by (simp add: tabwriter_def split_on_none tab_lines_rows [OF ne])
  with tab_format_table [of n ls "[]"] assms show ?thesis by (simp add: list_all_iff)
qed

lemma status_table_width: "l \<in> set (status_table L aw) \<Longrightarrow> length l = 5"
  by (auto simp: status_table_def task_cells_def Let_def split: option.splits)

text \<open>
  C38. \<^verbatim>\<open>kwf status\<close> of a workflow whose texts contain no tabs and line breaks prints, after the
  header, one line for every task of the specification, in its order, whose cells start at the
  same offsets in every line, at least two blanks apart.
\<close>

theorem status_shows_tasks:
  assumes "getClient K kc w = (Inr c, w1)" "ac_Get c ns name w1 = (Inr aw, w2)"
    and "\<forall>l \<in> set (status_table (kw_lib K) aw). \<forall>s \<in> set l. clean s"
  shows "\<exists>before after ws. statusCmd K kc ns name w
      = ((None, before @ concat (map (write_line ws) (status_table (kw_lib K) aw)) @ after), w2)
    \<and> length ws = 4 \<and> (\<forall>l \<in> set (status_table (kw_lib K) aw). \<forall>i < 4. rune_count (l ! i) + 2 \<le> ws ! i)
    \<and> map hd (drop 2 (status_table (kw_lib K) aw)) = task_names (wf_Spec aw)"
proof -
  let ?t = "status_table (kw_lib K) aw"
  let ?ws = "map (\<lambda>i. column_width i ?t) [0..<4]"
  have t: "tabwriter (concat (map row ?t)) = concat (map (write_line ?ws) ?t)"
    using assms(3) status_table_width [of _ "kw_lib K" aw] by (intro tabwriter_rows) (auto simp: list_all_iff)
  have "\<exists>before after. status_text (kw_lib K) (kw_range_usage K) aw = before @ tabwriter (concat (map row ?t)) @ after"
    unfolding status_text_def by (metis append.assoc)
  with t assms(1,2) have "\<exists>before after. statusCmd K kc ns name w
      = ((None, before @ concat (map (write_line ?ws) ?t) @ after), w2)"
    by (auto simp: statusCmd_def)
  moreover have "\<forall>l \<in> set ?t. \<forall>i < 4. rune_count (l ! i) + 2 \<le> ?ws ! i"
    using column_width_ge [of _ ?t] by simp
  moreover have "map hd (drop 2 ?t) = task_names (wf_Spec aw)"
    by (auto simp: status_table_def task_cells_def Let_def split: option.splits)
  ultimately show ?thesis by (metis (no_types, lifting) diff_zero length_map length_upt)
qed

definition ex_stored :: "rat store" where
  "ex_stored = [(''ns'', ''wf'') \<mapsto> ex_wf WorkflowPhaseRunning (Some (fmupd ''a'' (ex_status TaskPhaseRunning) fmempty))]"

theorem status_shows_tasks_witness:
  "\<exists>before after ws. statusCmd ex_kwf '''' ''ns'' ''wf'' ex_stored = ((None, before @ concat (map (write_line ws)
      (status_table rat_lib (ex_wf WorkflowPhaseRunning (Some (fmupd ''a'' (ex_status TaskPhaseRunning) fmempty))))) @ after), ex_stored)
    \<and> length ws = 4"
proof -
  let ?aw = "ex_wf WorkflowPhaseRunning (Some (fmupd ''a'' (ex_status TaskPhaseRunning) fmempty))"
  have g: "ac_Get ex_api ''ns'' ''wf'' ex_stored = (Inr ?aw, ex_stored)"
    by (simp add: ex_api_def ex_stored_def ex_meta_def)
  have "list_all (list_all clean) (status_table rat_lib ?aw)" by code_simp
  then have "\<forall>l \<in> set (status_table (kw_lib ex_kwf) ?aw). \<forall>s \<in> set l. clean s" by (simp add: list_all_iff ex_kwf_def)
  note shown = status_shows_tasks [OF ex_kwf_client g this]
  have "kw_lib ex_kwf = rat_lib" by (simp add: ex_kwf_def)
  with shown show ?thesis by metis
qed

end
