(* ===== verification/Deepcopy.thy ===== *)
theory Deepcopy
  imports Prelude
begin

text \<open>
  The generated copying functions of \<^verbatim>\<open>api/v1/zz_generated.deepcopy.go\<close>. What they are for is a
  matter of aliasing, so they are modelled over an explicit heap: a slice or a map is a reference
  to a cell that holds its elements (\<open>None\<close> is nil), allocation adds a cell, and the loops fill the
  new cell element by element. A struct is a record whose reference types are type parameters;
  instantiated with references it is what the program holds, instantiated with lists and finite
  maps it is the value the heap gives to it. A slice refers to its whole array.

  The structs of other packages (object and list metadata, conditions, resource requirements,
  quantities) are type variables, and their copying functions are fields of the record \<open>copiers\<close>.
\<close>

section \<open>Structs\<close>

type_synonym ref = "nat option"

record ('ss, 'rr) task_struct =
  g_Name :: string
  g_Image :: string
  g_Command :: 'ss
  g_Dependencies :: 'ss
  g_BaseResources :: 'rr

record ('ts, 'rl) spec_struct =
  g_Tasks :: 'ts
  g_MaxResources :: 'rl
  g_OptimizationGoal :: string

record 'rr task_status_struct =
  g_TaskPhase :: string
  g_PodName :: string
  g_AllocatedResources :: 'rr

record ('sts, 'rl, 'cs) status_struct =
  g_Phase :: string
  g_TaskStatuses :: 'sts
  g_CurrentResourceUsage :: 'rl
  g_Conditions :: 'cs

record ('om, 'sp, 'st) workflow_struct =
  g_TypeMeta :: "string \<times> string"
  g_ObjectMeta :: 'om
  g_Spec :: 'sp
  g_Status :: 'st

record ('lm, 'is) list_struct =
  g_ListTypeMeta :: "string \<times> string"
  g_ListMeta :: 'lm
  g_Items :: 'is

section \<open>The heap\<close>

type_synonym 'rr task_h = "(ref, 'rr) task_struct"
type_synonym spec_h = "(ref, ref) spec_struct"
type_synonym status_h = "(ref, ref, ref) status_struct"
type_synonym 'om workflow_h = "('om, spec_h, status_h) workflow_struct"
type_synonym 'lm list_h = "('lm, ref) list_struct"

datatype ('q, 'rr, 'om, 'c, 'x) cell =
    Strings "string list"
  | Tasks "'rr task_h list"
  | Resources "(string, 'q) fmap"
  | Statuses "(string, 'rr task_status_struct) fmap"
  | Conditions "'c list"
  | Workflows "'om workflow_h list"
  | Other 'x

type_synonym ('q, 'rr, 'om, 'c, 'x) heap = "('q, 'rr, 'om, 'c, 'x) cell list"

type_synonym ('a, 'h) copier = "'a \<Rightarrow> 'h list \<Rightarrow> 'a \<times> 'h list"

record ('q, 'rr, 'om, 'lm, 'c, 'x) copiers =
  cp_Quantity :: "('q, ('q, 'rr, 'om, 'c, 'x) cell) copier"
  cp_ResourceRequirements :: "('rr, ('q, 'rr, 'om, 'c, 'x) cell) copier"
  cp_ObjectMeta :: "('om, ('q, 'rr, 'om, 'c, 'x) cell) copier"
  cp_ListMeta :: "('lm, ('q, 'rr, 'om, 'c, 'x) cell) copier"
  cp_Condition :: "('c, ('q, 'rr, 'om, 'c, 'x) cell) copier"
  cp_zero_rr :: 'rr
  cp_zero_om :: 'om
  cp_zero_cond :: 'c
  cp_range_resources :: "(string, 'q) map_order"
  cp_range_statuses :: "(string, 'rr task_status_struct) map_order"

text \<open>
  The loop of a slice or a map: each element of the source is copied and stored in the cell at
  \<open>b\<close> under its index or key; \<open>put\<close> stores into a cell.
\<close>

fun fill_loop :: "('k \<Rightarrow> 'a \<Rightarrow> 'h \<Rightarrow> 'h) \<Rightarrow> ('a, 'h) copier \<Rightarrow> nat \<Rightarrow> ('k \<times> 'a) list \<Rightarrow> 'h list \<Rightarrow> 'h list" where
  "fill_loop put cp b [] h = h"
| "fill_loop put cp b ((k, v) # rest) h = (case cp v h of (u, h1) \<Rightarrow>
     fill_loop put cp b rest (h1[b := put k u (h1 ! b)]))"

text \<open>
  \<^verbatim>\<open>if in.F != nil { *out = make(...); for ... }\<close>: \<open>entries\<close> reads the cell of the source, \<open>fresh\<close> is the
  new cell, with zero values for the elements of a slice and empty for a map.
\<close>

definition copy_ref :: "('h \<Rightarrow> ('k \<times> 'a) list) \<Rightarrow> ('h \<Rightarrow> 'h) \<Rightarrow> ('k \<Rightarrow> 'a \<Rightarrow> 'h \<Rightarrow> 'h) \<Rightarrow> ('a, 'h) copier
    \<Rightarrow> (ref, 'h) copier" where
  "copy_ref entries fresh put cp r h = (case r of
     None \<Rightarrow> (None, h)
   | Some a \<Rightarrow> let b = length h in (Some b, fill_loop put cp b (entries (h ! a)) (h @ [fresh (h ! a)])))"

definition copy_slice :: "('h \<Rightarrow> 'a list option) \<Rightarrow> ('a list \<Rightarrow> 'h) \<Rightarrow> 'a \<Rightarrow> ('a, 'h) copier \<Rightarrow> (ref, 'h) copier" where
  "copy_slice get mk zero = copy_ref
     (\<lambda>c. case get c of Some xs \<Rightarrow> enumerate 0 xs | None \<Rightarrow> [])
     (\<lambda>c. mk (case get c of Some xs \<Rightarrow> replicate (length xs) zero | None \<Rightarrow> []))
     (\<lambda>i x c. case get c of Some xs \<Rightarrow> mk (xs[i := x]) | None \<Rightarrow> c)"

definition copy_map :: "('h \<Rightarrow> ('k, 'a) fmap option) \<Rightarrow> (('k, 'a) fmap \<Rightarrow> 'h) \<Rightarrow> ('k, 'a) map_order
    \<Rightarrow> ('a, 'h) copier \<Rightarrow> (ref, 'h) copier" where
  "copy_map get mk ord = copy_ref
     (\<lambda>c. case get c of Some m \<Rightarrow> go_range ord m | None \<Rightarrow> [])
     (\<lambda>c. mk fmempty)
     (\<lambda>k x c. case get c of Some m \<Rightarrow> mk (fmupd k x m) | None \<Rightarrow> c)"

definition plain_copy :: "('a, 'h) copier" where
  "plain_copy x h = (x, h)"

text \<open>What a cell holds.\<close>

definition get_Strings where
  "get_Strings c = (case c of Strings xs \<Rightarrow> Some xs | _ \<Rightarrow> None)"

definition get_Tasks where
  "get_Tasks c = (case c of Tasks xs \<Rightarrow> Some xs | _ \<Rightarrow> None)"

definition get_Resources where
  "get_Resources c = (case c of Resources m \<Rightarrow> Some m | _ \<Rightarrow> None)"

definition get_Statuses where
  "get_Statuses c = (case c of Statuses m \<Rightarrow> Some m | _ \<Rightarrow> None)"

definition get_Conditions where
  "get_Conditions c = (case c of Conditions xs \<Rightarrow> Some xs | _ \<Rightarrow> None)"

definition get_Workflows where
  "get_Workflows c = (case c of Workflows xs \<Rightarrow> Some xs | _ \<Rightarrow> None)"

section \<open>The generated functions\<close>

text \<open>Each starts from \<^verbatim>\<open>*out = *in\<close> and replaces what refers to the heap.\<close>

definition copy_Strings :: "(ref, ('q, 'rr, 'om, 'c, 'x) cell) copier" where
  "copy_Strings = copy_slice get_Strings Strings '''' plain_copy"

definition copy_ResourceList :: "('q, 'rr, 'om, 'lm, 'c, 'x) copiers \<Rightarrow> (ref, ('q, 'rr, 'om, 'c, 'x) cell) copier" where
  "copy_ResourceList C = copy_map get_Resources Resources (cp_range_resources C) (cp_Quantity C)"

definition TaskTemplate_DeepCopyInto :: "('q, 'rr, 'om, 'lm, 'c, 'x) copiers
    \<Rightarrow> ('rr task_h, ('q, 'rr, 'om, 'c, 'x) cell) copier" where
  "TaskTemplate_DeepCopyInto C t h =
     (case copy_Strings (g_Command t) h of (cmd, h1) \<Rightarrow>
      case copy_Strings (g_Dependencies t) h1 of (deps, h2) \<Rightarrow>
      case cp_ResourceRequirements C (g_BaseResources t) h2 of (rr, h3) \<Rightarrow>
        (t\<lparr> g_Command := cmd, g_Dependencies := deps, g_BaseResources := rr \<rparr>, h3))"

definition TaskStatus_DeepCopyInto :: "('q, 'rr, 'om, 'lm, 'c, 'x) copiers
    \<Rightarrow> ('rr task_status_struct, ('q, 'rr, 'om, 'c, 'x) cell) copier" where
  "TaskStatus_DeepCopyInto C ts h = (case cp_ResourceRequirements C (g_AllocatedResources ts) h of (rr, h1) \<Rightarrow>
     (ts\<lparr> g_AllocatedResources := rr \<rparr>, h1))"

definition zero_task :: "('q, 'rr, 'om, 'lm, 'c, 'x) copiers \<Rightarrow> 'rr task_h" where
  "zero_task C = \<lparr> g_Name = '''', g_Image = '''', g_Command = None, g_Dependencies = None, g_BaseResources = cp_zero_rr C \<rparr>"

definition Spec_DeepCopyInto :: "('q, 'rr, 'om, 'lm, 'c, 'x) copiers
    \<Rightarrow> (spec_h, ('q, 'rr, 'om, 'c, 'x) cell) copier" where
  "Spec_DeepCopyInto C sp h =
     (case copy_slice get_Tasks Tasks (zero_task C) (TaskTemplate_DeepCopyInto C) (g_Tasks sp) h of (ts, h1) \<Rightarrow>
      case copy_ResourceList C (g_MaxResources sp) h1 of (mx, h2) \<Rightarrow>
        (sp\<lparr> g_Tasks := ts, g_MaxResources := mx \<rparr>, h2))"

definition Status_DeepCopyInto :: "('q, 'rr, 'om, 'lm, 'c, 'x) copiers
    \<Rightarrow> (status_h, ('q, 'rr, 'om, 'c, 'x) cell) copier" where
  "Status_DeepCopyInto C st h =
     (case copy_map get_Statuses Statuses (cp_range_statuses C) (TaskStatus_DeepCopyInto C) (g_TaskStatuses st) h of (sts, h1) \<Rightarrow>
      case copy_ResourceList C (g_CurrentResourceUsage st) h1 of (us, h2) \<Rightarrow>
      case copy_slice get_Conditions Conditions (cp_zero_cond C) (cp_Condition C) (g_Conditions st) h2 of (cs, h3) \<Rightarrow>
        (st\<lparr> g_TaskStatuses := sts, g_CurrentResourceUsage := us, g_Conditions := cs \<rparr>, h3))"

definition AdaptiveWorkflow_DeepCopyInto :: "('q, 'rr, 'om, 'lm, 'c, 'x) copiers
    \<Rightarrow> ('om workflow_h, ('q, 'rr, 'om, 'c, 'x) cell) copier" where
  "AdaptiveWorkflow_DeepCopyInto C aw h =
     (case cp_ObjectMeta C (g_ObjectMeta aw) h of (om, h1) \<Rightarrow>
      case Spec_DeepCopyInto C (g_Spec aw) h1 of (sp, h2) \<Rightarrow>
      case Status_DeepCopyInto C (g_Status aw) h2 of (st, h3) \<Rightarrow>
        (aw\<lparr> g_ObjectMeta := om, g_Spec := sp, g_Status := st \<rparr>, h3))"

definition zero_workflow :: "('q, 'rr, 'om, 'lm, 'c, 'x) copiers \<Rightarrow> 'om workflow_h" where
  "zero_workflow C = \<lparr> g_TypeMeta = ('''', ''''), g_ObjectMeta = cp_zero_om C,
     g_Spec = \<lparr> g_Tasks = None, g_MaxResources = None, g_OptimizationGoal = '''' \<rparr>,
     g_Status = \<lparr> g_Phase = '''', g_TaskStatuses = None, g_CurrentResourceUsage = None, g_Conditions = None \<rparr> \<rparr>"

definition AdaptiveWorkflowList_DeepCopyInto :: "('q, 'rr, 'om, 'lm, 'c, 'x) copiers
    \<Rightarrow> ('lm list_h, ('q, 'rr, 'om, 'c, 'x) cell) copier" where
  "AdaptiveWorkflowList_DeepCopyInto C l h =
     (case cp_ListMeta C (g_ListMeta l) h of (lm, h1) \<Rightarrow>
      case copy_slice get_Workflows Workflows (zero_workflow C) (AdaptiveWorkflow_DeepCopyInto C) (g_Items l) h1 of (is, h2) \<Rightarrow>
        (l\<lparr> g_ListMeta := lm, g_Items := is \<rparr>, h2))"

text \<open>
  \<^verbatim>\<open>DeepCopy\<close> of a pointer, and \<^verbatim>\<open>DeepCopyObject\<close>, which only changes its type; the nil pointer is
  \<open>None\<close>. (In the status map the copy is made through \<^verbatim>\<open>*val.DeepCopy()\<close>, of a pointer that is not nil.)
\<close>

definition DeepCopy :: "('a, 'h) copier \<Rightarrow> 'a option \<Rightarrow> 'h list \<Rightarrow> 'a option \<times> 'h list" where
  "DeepCopy into p h = (case p of None \<Rightarrow> (None, h) | Some x \<Rightarrow> (case into x h of (y, h1) \<Rightarrow> (Some y, h1)))"

definition DeepCopyObject :: "('a, 'h) copier \<Rightarrow> 'a option \<Rightarrow> 'h list \<Rightarrow> 'a option \<times> 'h list" where
  "DeepCopyObject into p h = (case DeepCopy into p h of (None, h1) \<Rightarrow> (None, h1) | (Some c, h1) \<Rightarrow> (Some c, h1))"

definition TaskTemplate_DeepCopy where
  "TaskTemplate_DeepCopy C = DeepCopy (TaskTemplate_DeepCopyInto C)"

definition TaskStatus_DeepCopy where
  "TaskStatus_DeepCopy C = DeepCopy (TaskStatus_DeepCopyInto C)"

definition Spec_DeepCopy where
  "Spec_DeepCopy C = DeepCopy (Spec_DeepCopyInto C)"

definition Status_DeepCopy where
  "Status_DeepCopy C = DeepCopy (Status_DeepCopyInto C)"

definition AdaptiveWorkflow_DeepCopy where
  "AdaptiveWorkflow_DeepCopy C = DeepCopy (AdaptiveWorkflow_DeepCopyInto C)"

definition AdaptiveWorkflow_DeepCopyObject where
  "AdaptiveWorkflow_DeepCopyObject C = DeepCopyObject (AdaptiveWorkflow_DeepCopyInto C)"

definition AdaptiveWorkflowList_DeepCopy where
  "AdaptiveWorkflowList_DeepCopy C = DeepCopy (AdaptiveWorkflowList_DeepCopyInto C)"

definition AdaptiveWorkflowList_DeepCopyObject where
  "AdaptiveWorkflowList_DeepCopyObject C = DeepCopyObject (AdaptiveWorkflowList_DeepCopyInto C)"

end
