(* ===== verification/Deepcopy_Properties.thy ===== *)
theory Deepcopy_Properties
  imports Deepcopy
begin

text \<open>
  Correctness of the generated copying functions: a copy has the value of the original, nothing
  that existed is changed, and the copy's value depends on new cells only. Hence neither of the
  two is affected by later writes through the other.
\<close>

section \<open>Deep copiers\<close>

text \<open>A heap shows the cells \<open>ext\<close> at addresses from \<open>n\<close> on.\<close>

definition window :: "nat \<Rightarrow> 'h list \<Rightarrow> 'h list \<Rightarrow> bool" where
  "window n ext h \<longleftrightarrow> (\<forall>i < length ext. n + i < length h \<and> h ! (n + i) = ext ! i)"

text \<open>
  \<open>val h x\<close> is the value of \<open>x\<close> on heap \<open>h\<close>, or \<open>None\<close> if a reference dangles. It must only look
  at cells that are there.
\<close>

locale deep =
  fixes cp :: "('a, 'h) copier" and val :: "'h list \<Rightarrow> 'a \<Rightarrow> 'v option"
  assumes val_mono: "val h x = Some v \<Longrightarrow> window 0 h h' \<Longrightarrow> val h' x = Some v"
    and copies: "val h x = Some v \<Longrightarrow>
      \<exists>y ext. cp x h = (y, h @ ext) \<and> (\<forall>h'. window (length h) ext h' \<longrightarrow> val h' y = Some v)"

lemma window_append: "window n (e1 @ e2) h \<longleftrightarrow> window n e1 h \<and> window (n + length e1) e2 h"
proof
  assume w: "window n (e1 @ e2) h"
  have "n + length e1 + i < length h \<and> h ! (n + length e1 + i) = e2 ! i" if "i < length e2" for i
  proof -
    from w that have "n + (length e1 + i) < length h \<and> h ! (n + (length e1 + i)) = (e1 @ e2) ! (length e1 + i)"
      unfolding window_def by (metis length_append nat_add_left_cancel_less)
    then show ?thesis by (simp add: add.assoc)
  qed
  moreover from w have "window n e1 h" unfolding window_def
    by (metis length_append nth_append trans_less_add1)
  ultimately show "window n e1 h \<and> window (n + length e1) e2 h" by (simp add: window_def)
next
  assume w: "window n e1 h \<and> window (n + length e1) e2 h"
  show "window n (e1 @ e2) h" unfolding window_def
  proof (intro allI impI)
    fix i assume i: "i < length (e1 @ e2)"
    show "n + i < length h \<and> h ! (n + i) = (e1 @ e2) ! i"
    proof (cases "i < length e1")
      case True
      with w show ?thesis by (simp add: window_def nth_append)
    next
      case False
      with w i have "n + length e1 + (i - length e1) < length h
          \<and> h ! (n + length e1 + (i - length e1)) = e2 ! (i - length e1)"
        unfolding window_def by (metis add_diff_inverse_nat length_append nat_add_left_cancel_less)
      with False show ?thesis by (simp add: nth_append)
    qed
  qed
qed

lemma window_self [simp]: "window 0 h (h @ ext)" "window (length h) ext (h @ ext)" "window 0 h h"
  by (simp_all add: window_def nth_append)

lemma window_Nil [simp]: "window n [] h"
  by (simp add: window_def)

lemma window_single: "window n [c] h \<longleftrightarrow> n < length h \<and> h ! n = c"
  by (simp add: window_def)

interpretation plain: deep plain_copy "\<lambda>h x. Some x"
  by unfold_locales (auto simp: plain_copy_def)

text \<open>Copying through projections: a struct is as deep as its copied fields.\<close>

definition pair_copy :: "('a, 'h) copier \<Rightarrow> ('b, 'h) copier \<Rightarrow> ('a \<times> 'b, 'h) copier" where
  "pair_copy cp1 cp2 p h = (case cp1 (fst p) h of (a, h1) \<Rightarrow> case cp2 (snd p) h1 of (b, h2) \<Rightarrow> ((a, b), h2))"

definition pair_val :: "('h list \<Rightarrow> 'a \<Rightarrow> 'v option) \<Rightarrow> ('h list \<Rightarrow> 'b \<Rightarrow> 'u option) \<Rightarrow> 'h list \<Rightarrow> 'a \<times> 'b \<Rightarrow> ('v \<times> 'u) option" where
  "pair_val v1 v2 h p = (case (v1 h (fst p), v2 h (snd p)) of (Some x, Some y) \<Rightarrow> Some (x, y) | _ \<Rightarrow> None)"

lemma pair_val_Some: "pair_val v1 v2 h p = Some v \<longleftrightarrow> v1 h (fst p) = Some (fst v) \<and> v2 h (snd p) = Some (snd v)"
  by (auto simp: pair_val_def split: option.splits)

lemma deep_pair:
  assumes "deep cp1 v1" "deep cp2 v2"
  shows "deep (pair_copy cp1 cp2) (pair_val v1 v2)"
proof
  fix h x v h' assume "pair_val v1 v2 h x = Some v" and w: "window 0 h h'"
  then show "pair_val v1 v2 h' x = Some v"
    unfolding pair_val_Some
    by (elim conjE) (rule conjI [OF deep.val_mono [OF assms(1) _ w] deep.val_mono [OF assms(2) _ w]])
next
  fix h x v assume v: "pair_val v1 v2 h x = Some v"
  then obtain a e1 where a: "cp1 (fst x) h = (a, h @ e1)" "\<And>h'. window (length h) e1 h' \<Longrightarrow> v1 h' a = Some (fst v)"
    using deep.copies [OF assms(1)] unfolding pair_val_Some by blast
  from v have "v2 (h @ e1) (snd x) = Some (snd v)"
    using deep.val_mono [OF assms(2)] window_self(1) unfolding pair_val_Some by blast
  then obtain b e2 where b: "cp2 (snd x) (h @ e1) = (b, (h @ e1) @ e2)"
    "\<And>h'. window (length (h @ e1)) e2 h' \<Longrightarrow> v2 h' b = Some (snd v)"
    using deep.copies [OF assms(2)] by blast
  show "\<exists>y ext. pair_copy cp1 cp2 x h = (y, h @ ext) \<and> (\<forall>h'. window (length h) ext h' \<longrightarrow> pair_val v1 v2 h' y = Some v)"
    by (rule exI [of _ "(a, b)"], rule exI [of _ "e1 @ e2"])
      (use a b in \<open>auto simp: pair_copy_def pair_val_Some window_append\<close>)
qed

lemma deep_struct:
  assumes "deep cp val"
    "\<And>x h. cp' x h = (case cp (sel x) h of (y, h') \<Rightarrow> (upd x y, h'))"
    "\<And>x h. val' h x = map_option (mk x) (val h (sel x))"
    "\<And>x y. sel (upd x y) = y" "\<And>x y v. mk (upd x y) v = mk x v"
  shows "deep cp' val'"
proof
  fix h x v h' assume "val' h x = Some v" and w: "window 0 h h'"
  then obtain u where "val h (sel x) = Some u" "v = mk x u" by (auto simp: assms(3))
  with deep.val_mono [OF assms(1) this(1) w] show "val' h' x = Some v" by (simp add: assms(3))
next
  fix h x v assume "val' h x = Some v"
  then obtain u where u: "val h (sel x) = Some u" "v = mk x u" by (auto simp: assms(3))
  from deep.copies [OF assms(1) u(1)] obtain y ext where "cp (sel x) h = (y, h @ ext)"
    "\<forall>h'. window (length h) ext h' \<longrightarrow> val h' y = Some u" by blast
  with u(2) show "\<exists>y ext. cp' x h = (y, h @ ext) \<and> (\<forall>h'. window (length h) ext h' \<longrightarrow> val' h' y = Some v)"
    by (intro exI [of _ "upd x y"] exI [of _ ext]) (simp add: assms)
qed

section \<open>Slices and maps\<close>

definition store_all :: "('k \<Rightarrow> 'a \<Rightarrow> 'h \<Rightarrow> 'h) \<Rightarrow> 'k list \<Rightarrow> 'a list \<Rightarrow> 'h \<Rightarrow> 'h" where
  "store_all put ks us c = fold (\<lambda>(k, u). put k u) (zip ks us) c"

lemma fill_loop_deep:
  assumes "deep cp val" "list_all (\<lambda>(k, x). val h0 x \<noteq> None) es"
  shows "\<exists>us ext'. fill_loop put cp (length h0) es (h0 @ c # ext)
      = h0 @ store_all put (map fst es) us c # ext @ ext'
    \<and> (\<forall>h'. window (length h0 + 1 + length ext) ext' h' \<longrightarrow> list_all2 (\<lambda>u (k, x). val h' u = val h0 x) us es)"
  using assms(2)
proof (induction es arbitrary: c ext)
  case Nil
  then show ?case by (intro exI [of _ "[]"]) (simp add: store_all_def)
next
  case (Cons p es)
  obtain k x where p: "p = (k, x)" by fastforce
  from Cons.prems p obtain v where v: "val h0 x = Some v" by auto
  with deep.val_mono [OF assms(1) _ window_self(1)] have "val (h0 @ c # ext) x = Some v" by blast
  from deep.copies [OF assms(1) this] obtain u e1 where u: "cp x (h0 @ c # ext) = (u, (h0 @ c # ext) @ e1)"
    "\<forall>h'. window (length (h0 @ c # ext)) e1 h' \<longrightarrow> val h' u = Some v" by blast
  from Cons.IH [of "put k u c" "ext @ e1"] Cons.prems obtain us e2 where
    us: "fill_loop put cp (length h0) es (h0 @ put k u c # ext @ e1)
        = h0 @ store_all put (map fst es) us (put k u c) # (ext @ e1) @ e2"
      "\<forall>h'. window (length h0 + 1 + length (ext @ e1)) e2 h' \<longrightarrow> list_all2 (\<lambda>u (k, x). val h' u = val h0 x) us es" by auto
  show ?case
    by (rule exI [of _ "u # us"], rule exI [of _ "e1 @ e2"])
      (use u us v p in \<open>auto simp: store_all_def window_append add.assoc\<close>)
qed

lemma store_all_slice:
  assumes "\<And>xs. get (mk xs) = Some xs"
  shows "length us = length zs \<Longrightarrow>
    store_all (\<lambda>i x c. case get c of Some xs \<Rightarrow> mk (xs[i := x]) | None \<Rightarrow> c) [length ys..<length ys + length zs] us (mk (ys @ zs))
      = mk (ys @ us)"
proof (induction us arbitrary: ys zs)
  case (Cons u us)
  then obtain z zs' where z: "zs = z # zs'" "length us = length zs'" by (cases zs) auto
  from Cons.IH [OF z(2), of "ys @ [u]"] z(1) show ?case
    by (simp add: store_all_def assms upt_conv_Cons del: upt_Suc)
qed (simp add: store_all_def)

text \<open>The value of a slice and of a map.\<close>

fun all_vals :: "('a \<Rightarrow> 'v option) \<Rightarrow> 'a list \<Rightarrow> 'v list option" where
  "all_vals f [] = Some []"
| "all_vals f (x # xs) = (case (f x, all_vals f xs) of (Some v, Some vs) \<Rightarrow> Some (v # vs) | _ \<Rightarrow> None)"

lemma all_vals_Some: "all_vals f xs = Some vs \<longleftrightarrow> list_all2 (\<lambda>x v. f x = Some v) xs vs"
proof (induction xs arbitrary: vs)
  case (Cons x xs)
  show ?case
  proof (cases "all_vals f xs")
    case None
    with Cons.IH show ?thesis by (cases vs) (auto split: option.splits)
  next
    case (Some ws)
    with Cons.IH [of "tl vs"] show ?thesis by (cases vs) (auto split: option.splits)
  qed
qed auto

definition slice_val :: "('h \<Rightarrow> 'a list option) \<Rightarrow> ('h list \<Rightarrow> 'a \<Rightarrow> 'v option) \<Rightarrow> 'h list \<Rightarrow> ref \<Rightarrow> 'v list option option" where
  "slice_val get val h r = (case r of None \<Rightarrow> Some None
   | Some a \<Rightarrow> if a < length h then (case get (h ! a) of Some xs \<Rightarrow> map_option Some (all_vals (val h) xs) | None \<Rightarrow> None) else None)"

definition map_val :: "('h \<Rightarrow> ('k, 'a) fmap option) \<Rightarrow> ('h list \<Rightarrow> 'a \<Rightarrow> 'v option) \<Rightarrow> 'h list \<Rightarrow> ref \<Rightarrow> ('k, 'v) fmap option option" where
  "map_val get val h r = (case r of None \<Rightarrow> Some None
   | Some a \<Rightarrow> if a < length h then (case get (h ! a) of
         Some m \<Rightarrow> if \<forall>k \<in> fmdom' m. val h (the (fmlookup m k)) \<noteq> None then Some (Some (fmmap (\<lambda>x. the (val h x)) m)) else None
       | None \<Rightarrow> None) else None)"

lemma deep_slice:
  assumes "deep cp val" "\<And>xs. get (mk xs) = Some xs"
  shows "deep (copy_slice get mk zero cp) (slice_val get val)"
proof
  fix h r v h' assume v: "slice_val get val h r = Some v" and w: "window 0 h h'"
  show "slice_val get val h' r = Some v"
  proof (cases r)
    case (Some a)
    with v obtain xs vs where xs: "a < length h" "get (h ! a) = Some xs" "list_all2 (\<lambda>x v. val h x = Some v) xs vs" "v = Some vs"
      by (auto simp: slice_val_def all_vals_Some split: if_splits option.splits)
    from w xs(1) have "a < length h'" "h' ! a = h ! a" unfolding window_def by force+
    moreover from xs(3) have "list_all2 (\<lambda>x v. val h' x = Some v) xs vs"
      by (rule list_all2_mono) (rule deep.val_mono [OF assms(1) _ w])
    ultimately show ?thesis using Some xs(2,4) all_vals_Some [of "val h'" xs vs] by (simp add: slice_val_def)
  qed (use v in \<open>simp add: slice_val_def\<close>)
next
  fix h r v assume v: "slice_val get val h r = Some v"
  show "\<exists>y ext. copy_slice get mk zero cp r h = (y, h @ ext) \<and> (\<forall>h'. window (length h) ext h' \<longrightarrow> slice_val get val h' y = Some v)"
  proof (cases r)
    case None
    with v show ?thesis by (intro exI [of _ None] exI [of _ "[]"]) (simp add: copy_slice_def copy_ref_def slice_val_def)
  next
    case (Some a)
    with v obtain xs vs where xs: "a < length h" "get (h ! a) = Some xs" "list_all2 (\<lambda>x v. val h x = Some v) xs vs" "v = Some vs"
      by (auto simp: slice_val_def all_vals_Some split: if_splits option.splits)
    let ?put = "\<lambda>i x c. case get c of Some xs \<Rightarrow> mk (xs[i := x]) | None \<Rightarrow> c"
    have "list_all (\<lambda>(k, x). val h x \<noteq> None) (enumerate 0 xs)"
      using xs(3) by (fastforce simp: list_all_iff list_all2_conv_all_nth in_set_enumerate_eq)
    from fill_loop_deep [OF assms(1) this, of ?put "mk (replicate (length xs) zero)" "[]"] obtain us ext where
      us: "fill_loop ?put cp (length h) (enumerate 0 xs) (h @ [mk (replicate (length xs) zero)])
          = h @ store_all ?put [0..<length xs] us (mk (replicate (length xs) zero)) # ext"
        "\<forall>h'. window (length h + 1) ext h' \<longrightarrow> list_all2 (\<lambda>u (k, x). val h' u = val h x) us (enumerate 0 xs)"
      by auto
    have len: "length us = length xs" using us(2) [rule_format, of "h @ undefined # ext"]
      by (auto simp: window_def nth_append dest!: list_all2_lengthD)
    have st: "store_all ?put [0..<length xs] us (mk (replicate (length xs) zero)) = mk us"
      using store_all_slice [of get mk us "replicate (length xs) zero" "[]"] assms(2) len by simp
    have "slice_val get val h' (Some (length h)) = Some v" if w: "window (length h) (mk us # ext) h'" for h'
    proof -
      from w have c: "length h < length h'" "h' ! length h = mk us" "window (length h + 1) ext h'"
        using window_append [of "length h" "[mk us]" ext h'] by (simp_all add: window_single)
      from us(2) c(3) have "list_all2 (\<lambda>u (k, x). val h' u = val h x) us (enumerate 0 xs)" by blast
      with xs(3) have "list_all2 (\<lambda>u v. val h' u = Some v) us vs"
        by (auto simp: list_all2_conv_all_nth nth_enumerate_eq)
      then have "all_vals (val h') us = Some vs" by (simp add: all_vals_Some)
      with c(1,2) xs(4) assms(2) show ?thesis by (simp add: slice_val_def)
    qed
    with Some us(1) st xs(2) show ?thesis
      by (intro exI [of _ "Some (length h)"] exI [of _ "mk us # ext"]) (simp add: copy_slice_def copy_ref_def)
  qed
qed

lemma store_all_map:
  assumes "\<And>m. get (mk m) = Some m"
  shows "length us = length ks \<Longrightarrow>
    store_all (\<lambda>k x c. case get c of Some m \<Rightarrow> mk (fmupd k x m) | None \<Rightarrow> c) ks us (mk m)
      = mk (fold (\<lambda>(k, u). fmupd k u) (zip ks us) m)"
proof (induction us arbitrary: ks m)
  case (Cons u us)
  then obtain k ks' where "ks = k # ks'" "length us = length ks'" by (cases ks) auto
  with Cons.IH [of ks' "fmupd k u m"] show ?case by (simp add: store_all_def assms)
qed (simp add: store_all_def)

lemma fold_fmupd_lookup:
  "distinct ks \<Longrightarrow> length us = length ks \<Longrightarrow> fmlookup (fold (\<lambda>(k, u). fmupd k u) (zip ks us) m) k
    = (case map_of (zip ks us) k of Some u \<Rightarrow> Some u | None \<Rightarrow> fmlookup m k)"
proof (induction us arbitrary: ks m)
  case (Cons u us)
  then obtain k' ks' where ks: "ks = k' # ks'" "length us = length ks'" "k' \<notin> set ks'" "distinct ks'" by (cases ks) auto
  then have "map_of (zip ks' us) k' = None" by (auto simp: map_of_eq_None_iff dest: set_zip_leftD)
  with Cons.IH [OF ks(4,2), of "fmupd k' u m"] ks(1) show ?case by (auto split: option.split)
qed simp

lemma fold_fmupd_empty:
  "distinct ks \<Longrightarrow> length us = length ks \<Longrightarrow> fmlookup (fold (\<lambda>(k, u). fmupd k u) (zip ks us) fmempty) k = map_of (zip ks us) k"
  using fold_fmupd_lookup [of ks us fmempty k] by (metis (no_types, lifting) fmempty_lookup option.case_eq_if option.collapse)

lemma length_go_range: "length (go_range ord m) = length (ord m)"
  by (simp add: go_range_def)

lemma map_vals_iff:
  "(\<forall>k. rel_option (\<lambda>x u. val h x = Some u) (fmlookup m k) (fmlookup vm k))
    \<longleftrightarrow> (\<forall>k \<in> fmdom' m. val h (the (fmlookup m k)) \<noteq> None) \<and> vm = fmmap (\<lambda>x. the (val h x)) m" (is "?r \<longleftrightarrow> ?l")
proof
  assume ?l
  show ?r
  proof
    fix k
    from \<open>?l\<close> have "fmlookup m k = Some x \<Longrightarrow> val h x \<noteq> None" for x using fmdom'I [of m k x] by auto
    with \<open>?l\<close> show "rel_option (\<lambda>x u. val h x = Some u) (fmlookup m k) (fmlookup vm k)"
      by (cases "fmlookup m k") auto
  qed
next
  assume r: ?r
  have "fmlookup vm k = fmlookup (fmmap (\<lambda>x. the (val h x)) m) k" for k
    using r [rule_format, of k] by (auto simp: rel_option_iff split: option.splits)
  moreover have "val h (the (fmlookup m k)) \<noteq> None" if "k \<in> fmdom' m" for k
    using r [rule_format, of k] that by (auto simp: rel_option_iff fmlookup_dom'_iff split: option.splits)
  ultimately show ?l by (auto intro: fmap_ext)
qed

lemma map_val_Some:
  "map_val get val h r = Some v \<longleftrightarrow> (case r of None \<Rightarrow> v = None
   | Some a \<Rightarrow> a < length h \<and> (\<exists>m vm. get (h ! a) = Some m \<and> v = Some vm \<and> (\<forall>k. rel_option (\<lambda>x u. val h x = Some u) (fmlookup m k) (fmlookup vm k))))"
  unfolding map_vals_iff by (auto simp: map_val_def split: option.splits if_splits)

text \<open>An entry of the source map and the copied entry under the same key.\<close>

lemma copied_entry:
  assumes "map_order ord" "list_all2 (\<lambda>u (k, x). val h' u = val h x) us (go_range ord m)"
    "rel_option (\<lambda>x u. val h x = Some u) (fmlookup m k) (fmlookup vm k)"
  shows "rel_option (\<lambda>x u. val h' x = Some u) (map_of (zip (map fst (go_range ord m)) us) k) (fmlookup vm k)"
proof (cases "fmlookup m k")
  case None
  with assms(1) have "k \<notin> set (map fst (go_range ord m))" by (auto simp: map_order_def fmlookup_dom'_iff)
  then have "map_of (zip (map fst (go_range ord m)) us) k = None"
    by (auto simp: map_of_eq_None_iff dest: set_zip_leftD)
  with None assms(3) show ?thesis by (auto simp: rel_option_iff split: option.splits)
next
  case (Some x)
  then have "(k, x) \<in> set (go_range ord m)" by (simp add: set_go_range [OF assms(1)])
  then obtain i where i: "i < length (go_range ord m)" "go_range ord m ! i = (k, x)" by (auto simp: in_set_conv_nth)
  from assms(2) i have u: "i < length us" "val h' (us ! i) = val h x" "length us = length (go_range ord m)"
    by (auto simp: list_all2_conv_all_nth)
  have "map_of (zip (map fst (go_range ord m)) us) (map fst (go_range ord m) ! i) = Some (us ! i)"
    by (rule map_of_zip_nth) (use u i distinct_go_range [OF assms(1)] in \<open>auto simp: length_go_range\<close>)
  moreover have "map fst (go_range ord m) ! i = k" using i by (metis fst_conv nth_map)
  ultimately have "map_of (zip (map fst (go_range ord m)) us) k = Some (us ! i)" by simp
  with u Some assms(3) show ?thesis by (auto simp: rel_option_iff split: option.splits)
qed

lemma deep_map:
  assumes "deep cp val" "\<And>m. get (mk m) = Some m" "map_order ord"
  shows "deep (copy_map get mk ord cp) (map_val get val)"
proof
  fix h r v h' assume v: "map_val get val h r = Some v" and w: "window 0 h h'"
  show "map_val get val h' r = Some v"
  proof (cases r)
    case (Some a)
    with v obtain m vm where m: "a < length h" "get (h ! a) = Some m" "v = Some vm"
      "\<forall>k. rel_option (\<lambda>x u. val h x = Some u) (fmlookup m k) (fmlookup vm k)" by (auto simp: map_val_Some)
    from w m(1) have "a < length h'" "h' ! a = h ! a" unfolding window_def by force+
    moreover from m(4) have "\<forall>k. rel_option (\<lambda>x u. val h' x = Some u) (fmlookup m k) (fmlookup vm k)"
      by (blast intro: option.rel_mono_strong deep.val_mono [OF assms(1) _ w])
    ultimately show ?thesis using Some m(2,3) by (simp add: map_val_Some)
  qed (use v in \<open>simp add: map_val_def\<close>)
next
  fix h r v assume v: "map_val get val h r = Some v"
  show "\<exists>y ext. copy_map get mk ord cp r h = (y, h @ ext) \<and> (\<forall>h'. window (length h) ext h' \<longrightarrow> map_val get val h' y = Some v)"
  proof (cases r)
    case None
    with v show ?thesis by (intro exI [of _ None] exI [of _ "[]"]) (simp add: copy_map_def copy_ref_def map_val_def)
  next
    case (Some a)
    with v obtain m vm where m: "a < length h" "get (h ! a) = Some m" "v = Some vm"
      "\<forall>k. rel_option (\<lambda>x u. val h x = Some u) (fmlookup m k) (fmlookup vm k)" by (auto simp: map_val_Some)
    let ?put = "\<lambda>k x c. case get c of Some m \<Rightarrow> mk (fmupd k x m) | None \<Rightarrow> c"
    let ?es = "go_range ord m"
    have "val h x \<noteq> None" if "(k, x) \<in> set ?es" for k x
      using that m(4) [rule_format, of k] by (auto simp: set_go_range [OF assms(3)] rel_option_iff split: option.splits)
    then have "list_all (\<lambda>(k, x). val h x \<noteq> None) ?es" by (auto simp: list_all_iff)
    from fill_loop_deep [OF assms(1) this, of ?put "mk fmempty" "[]"] obtain us ext where
      us: "fill_loop ?put cp (length h) ?es (h @ [mk fmempty]) = h @ store_all ?put (map fst ?es) us (mk fmempty) # ext"
        "\<forall>h'. window (length h + 1) ext h' \<longrightarrow> list_all2 (\<lambda>u (k, x). val h' u = val h x) us ?es" by auto
    have len: "length us = length (map fst ?es)" using us(2) [rule_format, of "h @ undefined # ext"]
      unfolding length_map by (auto simp: window_def nth_append dest!: list_all2_lengthD)
    define m' where "m' = fold (\<lambda>(k, u). fmupd k u) (zip (map fst ?es) us) fmempty"
    have st: "store_all ?put (map fst ?es) us (mk fmempty) = mk m'"
      unfolding m'_def by (rule store_all_map [where get = get]) (use assms(2) len in auto)
    have lk: "fmlookup m' k = map_of (zip (map fst ?es) us) k" for k
      unfolding m'_def by (rule fold_fmupd_empty [OF distinct_go_range [OF assms(3)] len])
    have "map_val get val h' (Some (length h)) = Some v" if w: "window (length h) (mk m' # ext) h'" for h'
    proof -
      from w have c: "length h < length h'" "h' ! length h = mk m'" "window (length h + 1) ext h'"
        using window_append [of "length h" "[mk m']" ext h'] by (simp_all add: window_single)
      from us(2) c(3) have l: "list_all2 (\<lambda>u (k, x). val h' u = val h x) us ?es" by blast
      have "rel_option (\<lambda>x u. val h' x = Some u) (fmlookup m' k) (fmlookup vm k)" for k
        using copied_entry [OF assms(3) l m(4) [rule_format, of k]] lk by simp
      with c(1,2) m(3) assms(2) show ?thesis by (auto simp: map_val_Some)
    qed
    with Some us(1) st m(2) show ?thesis
      by (intro exI [of _ "Some (length h)"] exI [of _ "mk m' # ext"]) (simp add: copy_map_def copy_ref_def)
  qed
qed

section \<open>The generated functions\<close>

lemma get_cells [simp]:
  "get_Strings (Strings xs) = Some xs" "get_Tasks (Tasks ts) = Some ts" "get_Resources (Resources m) = Some m"
  "get_Statuses (Statuses sts) = Some sts" "get_Conditions (Conditions cs) = Some cs" "get_Workflows (Workflows ws) = Some ws"
  by (simp_all add: get_Strings_def get_Tasks_def get_Resources_def get_Statuses_def get_Conditions_def get_Workflows_def)

abbreviation strings_val where
  "strings_val \<equiv> slice_val get_Strings (\<lambda>h x. Some x)"

interpretation strings: deep copy_Strings strings_val
  unfolding copy_Strings_def by (rule deep_slice [OF plain.deep_axioms]) simp

lemma deep_ResourceList:
  "deep (cp_Quantity C) vq \<Longrightarrow> map_order (cp_range_resources C) \<Longrightarrow> deep (copy_ResourceList C) (map_val get_Resources vq)"
  unfolding copy_ResourceList_def by (rule deep_map) simp_all

definition task_val where
  "task_val vr h t = map_option (\<lambda>(c, d, r). \<lparr> g_Name = g_Name t, g_Image = g_Image t, g_Command = c, g_Dependencies = d, g_BaseResources = r \<rparr>)
     (pair_val strings_val (pair_val strings_val vr) h (g_Command t, g_Dependencies t, g_BaseResources t))"

lemma deep_TaskTemplate:
  "deep (cp_ResourceRequirements C) vr \<Longrightarrow> deep (TaskTemplate_DeepCopyInto C) (task_val vr)"
  by (rule deep_struct [OF deep_pair [OF strings.deep_axioms deep_pair [OF strings.deep_axioms]],
        where sel = "\<lambda>t. (g_Command t, g_Dependencies t, g_BaseResources t)"
          and upd = "\<lambda>t (c, d, r). t\<lparr> g_Command := c, g_Dependencies := d, g_BaseResources := r \<rparr>"
          and mk = "\<lambda>t (c, d, r). \<lparr> g_Name = g_Name t, g_Image = g_Image t, g_Command = c, g_Dependencies = d, g_BaseResources = r \<rparr>"])
    (auto simp: TaskTemplate_DeepCopyInto_def task_val_def pair_copy_def split: prod.splits)

definition task_status_val where
  "task_status_val vr h ts = map_option (\<lambda>r. \<lparr> g_TaskPhase = g_TaskPhase ts, g_PodName = g_PodName ts, g_AllocatedResources = r \<rparr>)
     (vr h (g_AllocatedResources ts))"

lemma deep_TaskStatus:
  "deep (cp_ResourceRequirements C) vr \<Longrightarrow> deep (TaskStatus_DeepCopyInto C) (task_status_val vr)"
  by (rule deep_struct [where sel = g_AllocatedResources and upd = "\<lambda>ts r. ts\<lparr> g_AllocatedResources := r \<rparr>"
          and mk = "\<lambda>ts r. \<lparr> g_TaskPhase = g_TaskPhase ts, g_PodName = g_PodName ts, g_AllocatedResources = r \<rparr>"])
    (auto simp: TaskStatus_DeepCopyInto_def task_status_val_def)

definition spec_val where
  "spec_val vq vr h sp = map_option (\<lambda>(t, m). \<lparr> g_Tasks = t, g_MaxResources = m, g_OptimizationGoal = g_OptimizationGoal sp \<rparr>)
     (pair_val (slice_val get_Tasks (task_val vr)) (map_val get_Resources vq) h (g_Tasks sp, g_MaxResources sp))"

lemma deep_Spec:
  assumes "deep (cp_Quantity C) vq" "deep (cp_ResourceRequirements C) vr" "map_order (cp_range_resources C)"
  shows "deep (Spec_DeepCopyInto C) (spec_val vq vr)"
  by (rule deep_struct [OF deep_pair [OF deep_slice [OF deep_TaskTemplate [OF assms(2)], of get_Tasks Tasks "zero_task C"]
          deep_ResourceList [OF assms(1,3)]],
        where sel = "\<lambda>sp. (g_Tasks sp, g_MaxResources sp)" and upd = "\<lambda>sp (t, m). sp\<lparr> g_Tasks := t, g_MaxResources := m \<rparr>"
          and mk = "\<lambda>sp (t, m). \<lparr> g_Tasks = t, g_MaxResources = m, g_OptimizationGoal = g_OptimizationGoal sp \<rparr>"])
    (auto simp: Spec_DeepCopyInto_def spec_val_def pair_copy_def split: prod.splits)

definition status_val where
  "status_val vq vr vc h st = map_option (\<lambda>(s, u, c). \<lparr> g_Phase = g_Phase st, g_TaskStatuses = s, g_CurrentResourceUsage = u, g_Conditions = c \<rparr>)
     (pair_val (map_val get_Statuses (task_status_val vr)) (pair_val (map_val get_Resources vq) (slice_val get_Conditions vc)) h
       (g_TaskStatuses st, g_CurrentResourceUsage st, g_Conditions st))"

lemma deep_Status:
  assumes "deep (cp_Quantity C) vq" "deep (cp_ResourceRequirements C) vr" "deep (cp_Condition C) vc"
    "map_order (cp_range_resources C)" "map_order (cp_range_statuses C)"
  shows "deep (Status_DeepCopyInto C) (status_val vq vr vc)"
  by (rule deep_struct [OF deep_pair [OF deep_map [OF deep_TaskStatus [OF assms(2)] _ assms(5), of get_Statuses Statuses]
          deep_pair [OF deep_ResourceList [OF assms(1,4)] deep_slice [OF assms(3), of get_Conditions Conditions "cp_zero_cond C"]]],
        where sel = "\<lambda>st. (g_TaskStatuses st, g_CurrentResourceUsage st, g_Conditions st)"
          and upd = "\<lambda>st (s, u, c). st\<lparr> g_TaskStatuses := s, g_CurrentResourceUsage := u, g_Conditions := c \<rparr>"
          and mk = "\<lambda>st (s, u, c). \<lparr> g_Phase = g_Phase st, g_TaskStatuses = s, g_CurrentResourceUsage = u, g_Conditions = c \<rparr>"])
    (auto simp: Status_DeepCopyInto_def status_val_def pair_copy_def split: prod.splits)

definition workflow_val where
  "workflow_val vq vr vo vc h aw = map_option (\<lambda>(m, s, t). \<lparr> g_TypeMeta = g_TypeMeta aw, g_ObjectMeta = m, g_Spec = s, g_Status = t \<rparr>)
     (pair_val vo (pair_val (spec_val vq vr) (status_val vq vr vc)) h (g_ObjectMeta aw, g_Spec aw, g_Status aw))"

lemma deep_AdaptiveWorkflow:
  assumes "deep (cp_Quantity C) vq" "deep (cp_ResourceRequirements C) vr" "deep (cp_ObjectMeta C) vo" "deep (cp_Condition C) vc"
    "map_order (cp_range_resources C)" "map_order (cp_range_statuses C)"
  shows "deep (AdaptiveWorkflow_DeepCopyInto C) (workflow_val vq vr vo vc)"
  by (rule deep_struct [OF deep_pair [OF assms(3) deep_pair [OF deep_Spec [OF assms(1,2,5)] deep_Status [OF assms(1,2,4,5,6)]]],
        where sel = "\<lambda>aw. (g_ObjectMeta aw, g_Spec aw, g_Status aw)"
          and upd = "\<lambda>aw (m, s, t). aw\<lparr> g_ObjectMeta := m, g_Spec := s, g_Status := t \<rparr>"
          and mk = "\<lambda>aw (m, s, t). \<lparr> g_TypeMeta = g_TypeMeta aw, g_ObjectMeta = m, g_Spec = s, g_Status = t \<rparr>"])
    (auto simp: AdaptiveWorkflow_DeepCopyInto_def workflow_val_def pair_copy_def split: prod.splits)

definition list_val where
  "list_val vq vr vo vm vc h l = map_option (\<lambda>(m, i). \<lparr> g_ListTypeMeta = g_ListTypeMeta l, g_ListMeta = m, g_Items = i \<rparr>)
     (pair_val vm (slice_val get_Workflows (workflow_val vq vr vo vc)) h (g_ListMeta l, g_Items l))"

lemma deep_AdaptiveWorkflowList:
  assumes "deep (cp_Quantity C) vq" "deep (cp_ResourceRequirements C) vr" "deep (cp_ObjectMeta C) vo" "deep (cp_ListMeta C) vm"
    "deep (cp_Condition C) vc" "map_order (cp_range_resources C)" "map_order (cp_range_statuses C)"
  shows "deep (AdaptiveWorkflowList_DeepCopyInto C) (list_val vq vr vo vm vc)"
  by (rule deep_struct [OF deep_pair [OF assms(4)
          deep_slice [OF deep_AdaptiveWorkflow [OF assms(1,2,3,5,6,7)], of get_Workflows Workflows "zero_workflow C"]],
        where sel = "\<lambda>l. (g_ListMeta l, g_Items l)" and upd = "\<lambda>l (m, i). l\<lparr> g_ListMeta := m, g_Items := i \<rparr>"
          and mk = "\<lambda>l (m, i). \<lparr> g_ListTypeMeta = g_ListTypeMeta l, g_ListMeta = m, g_Items = i \<rparr>"])
    (auto simp: AdaptiveWorkflowList_DeepCopyInto_def list_val_def pair_copy_def split: prod.splits)

section \<open>Independence of copies\<close>

context deep
begin

lemma copy_independent:
  assumes "val h x = Some v"
  shows "\<exists>y ext. DeepCopy cp (Some x) h = (Some y, h @ ext) \<and> val (h @ ext) y = Some v
    \<and> (\<forall>h'. (\<forall>a < length h. a < length h' \<and> h' ! a = h ! a) \<longrightarrow> val h' x = Some v)
    \<and> (\<forall>h'. (\<forall>a. length h \<le> a \<longrightarrow> a < length (h @ ext) \<longrightarrow> a < length h' \<and> h' ! a = (h @ ext) ! a) \<longrightarrow> val h' y = Some v)"
proof -
  from copies [OF assms] obtain y ext where y: "cp x h = (y, h @ ext)"
    "\<forall>h'. window (length h) ext h' \<longrightarrow> val h' y = Some v" by blast
  have "window 0 h h'" if "\<forall>a < length h. a < length h' \<and> h' ! a = h ! a" for h'
    using that by (simp add: window_def)
  moreover have "window (length h) ext h'"
    if w: "\<forall>a. length h \<le> a \<longrightarrow> a < length (h @ ext) \<longrightarrow> a < length h' \<and> h' ! a = (h @ ext) ! a" for h'
    unfolding window_def using w [rule_format, of "length h + _"] by (simp add: nth_append)
  ultimately show ?thesis using y val_mono [OF assms]
    by (intro exI [of _ y] exI [of _ ext]) (auto simp: DeepCopy_def)
qed

end

text \<open>
  C39. Deep copies of workflows. The copy has the value of the original, copying changes no cell
  that existed, and the two are independent: writes to cells that existed before (as through the
  original) do not affect the copy, and writes to new cells (as through the copy) do not affect
  the original. The copying functions of other packages are assumed to do the same.
\<close>

theorem workflow_copy_independent:
  assumes "deep (cp_Quantity C) vq" "deep (cp_ResourceRequirements C) vr" "deep (cp_ObjectMeta C) vo" "deep (cp_Condition C) vc"
    and "map_order (cp_range_resources C)" "map_order (cp_range_statuses C)"
    and "workflow_val vq vr vo vc h aw = Some v"
  shows "\<exists>aw' ext. AdaptiveWorkflow_DeepCopy C (Some aw) h = (Some aw', h @ ext)
    \<and> workflow_val vq vr vo vc (h @ ext) aw' = Some v
    \<and> (\<forall>h'. (\<forall>a < length h. a < length h' \<and> h' ! a = h ! a) \<longrightarrow> workflow_val vq vr vo vc h' aw = Some v)
    \<and> (\<forall>h'. (\<forall>a. length h \<le> a \<longrightarrow> a < length (h @ ext) \<longrightarrow> a < length h' \<and> h' ! a = (h @ ext) ! a)
          \<longrightarrow> workflow_val vq vr vo vc h' aw' = Some v)"
  unfolding AdaptiveWorkflow_DeepCopy_def
  by (rule deep.copy_independent [OF deep_AdaptiveWorkflow [OF assms(1-6)] assms(7)])

text \<open>A workflow with one task, whose command and tasks are on the heap; plain third-party structs.\<close>

definition ex_copiers :: "(nat, nat, string, unit, string, unit) copiers" where
  "ex_copiers = \<lparr> cp_Quantity = plain_copy, cp_ResourceRequirements = plain_copy, cp_ObjectMeta = plain_copy, cp_ListMeta = plain_copy,
     cp_Condition = plain_copy, cp_zero_rr = 0, cp_zero_om = '''', cp_zero_cond = '''',
     cp_range_resources = sorted_order, cp_range_statuses = sorted_order \<rparr>"

definition ex_heap :: "(nat, nat, string, string, unit) heap" where
  "ex_heap = [Strings [''sleep'', ''1''],
     Tasks [\<lparr> g_Name = ''a'', g_Image = ''img'', g_Command = Some 0, g_Dependencies = None, g_BaseResources = 7 \<rparr>]]"

definition ex_workflow :: "string workflow_h" where
  "ex_workflow = \<lparr> g_TypeMeta = (''AdaptiveWorkflow'', ''v1''), g_ObjectMeta = ''wf'',
     g_Spec = \<lparr> g_Tasks = Some 1, g_MaxResources = None, g_OptimizationGoal = '''' \<rparr>,
     g_Status = \<lparr> g_Phase = '''', g_TaskStatuses = None, g_CurrentResourceUsage = None, g_Conditions = None \<rparr> \<rparr>"

theorem workflow_copy_independent_witness:
  "\<exists>aw' ext v. AdaptiveWorkflow_DeepCopy ex_copiers (Some ex_workflow) ex_heap = (Some aw', ex_heap @ ext)
    \<and> workflow_val (\<lambda>h x. Some x) (\<lambda>h x. Some x) (\<lambda>h x. Some x) (\<lambda>h x. Some x) (ex_heap @ ext) aw' = Some v
    \<and> map_option (map g_Command) (g_Tasks (g_Spec v)) = Some [Some [''sleep'', ''1'']]"
proof -
  let ?val = "workflow_val (\<lambda>h x. Some x) (\<lambda>h x. Some x) (\<lambda>h x. Some x) (\<lambda>h x. Some x)"
  let ?v = "\<lparr> g_TypeMeta = (''AdaptiveWorkflow'', ''v1''), g_ObjectMeta = ''wf'',
     g_Spec = \<lparr> g_Tasks = Some [\<lparr> g_Name = ''a'', g_Image = ''img'', g_Command = Some [''sleep'', ''1''],
         g_Dependencies = None, g_BaseResources = 7 \<rparr>], g_MaxResources = None, g_OptimizationGoal = '''' \<rparr>,
     g_Status = \<lparr> g_Phase = '''', g_TaskStatuses = None, g_CurrentResourceUsage = None, g_Conditions = None \<rparr> \<rparr>"
  have v: "?val ex_heap ex_workflow = Some ?v"
    by (simp add: workflow_val_def spec_val_def status_val_def task_val_def pair_val_def slice_val_def map_val_def
        ex_heap_def ex_workflow_def)
  have d: "deep (cp_Quantity ex_copiers) (\<lambda>h x. Some x)" "deep (cp_ResourceRequirements ex_copiers) (\<lambda>h x. Some x)"
    "deep (cp_ObjectMeta ex_copiers) (\<lambda>h x. Some x)" "deep (cp_Condition ex_copiers) (\<lambda>h x. Some x)"
    "map_order (cp_range_resources ex_copiers)" "map_order (cp_range_statuses ex_copiers)"
    by (simp_all add: ex_copiers_def map_order_sorted plain.deep_axioms)
  from workflow_copy_independent [OF d v] obtain aw' ext where
    "AdaptiveWorkflow_DeepCopy ex_copiers (Some ex_workflow) ex_heap = (Some aw', ex_heap @ ext)"
    "?val (ex_heap @ ext) aw' = Some ?v" by blast
  then show ?thesis by (intro exI [of _ aw'] exI [of _ ext] exI [of _ ?v]) simp
qed

end
