(* ===== verification/Py_Inference.thy ===== *)
theory Py_Inference
  imports Grpc Statedb
begin

text \<open>
  The inference service in Python, \<^verbatim>\<open>inference-engine/server.py\<close>: the constructor, the history
  query, both handlers and the settings read at start-up.

  Conventions. A method that may raise returns the exception on the left. Numbers that come out
  of the database carry their dynamic type, because the operators of Python depend on it. The
  packages that are not in the repository are the fields of a record: the database driver, the
  ONNX runtime together with NumPy, SHA-256, the file system and the clock. Log output is left out.
\<close>

section \<open>Python numbers\<close>

datatype py_exn = TypeError | ValueError | OverflowError | OtherError string

datatype py_num = PyFloat float64 | PyDecimal rat | PyInt int

text \<open>
  Double precision with its full range: rounding to nearest, ties to even, gradual underflow,
  overflow to infinity.
\<close>

definition f64_of_rat :: "rat \<Rightarrow> float64" where
  "f64_of_rat r =
     (if r = 0 then Finite 0
      else let m = \<bar>r\<bar>; (a, b) = quotient_of m;
               k0 = int (nbits (nat a)) - int (nbits (nat b));
               k = (if pow2 k0 \<le> m then k0 else k0 - 1);
               u = pow2 (max (k - 52) (- 1074)); x = m / u; f = \<lfloor>x\<rfloor>; d = x - of_int f;
               n = (if 1 / 2 < d \<or> (d = 1 / 2 \<and> odd f) then f + 1 else f); v = of_int n * u
           in if 2 ^ 1024 \<le> v then (if r < 0 then NegInf else PosInf)
              else if v = 0 then (if r < 0 then NegZero else Finite 0)
              else Finite (sgn r * v))"

fun f64_val :: "float64 \<Rightarrow> rat" where
  "f64_val (Finite r) = r"
| "f64_val _ = 0"

fun f64_negative :: "float64 \<Rightarrow> bool" where
  "f64_negative (Finite r) = (r < 0)"
| "f64_negative NegZero = True"
| "f64_negative NegInf = True"
| "f64_negative _ = False"

definition f64_infinite :: "float64 \<Rightarrow> bool" where
  "f64_infinite a \<longleftrightarrow> a = PosInf \<or> a = NegInf"

definition f64_mul :: "float64 \<Rightarrow> float64 \<Rightarrow> float64" where
  "f64_mul a b =
     (let minus = (f64_negative a \<noteq> f64_negative b) in
      if a = NaN \<or> b = NaN then NaN
      else if f64_infinite a \<or> f64_infinite b
      then (if a \<in> {Finite 0, NegZero} \<or> b \<in> {Finite 0, NegZero} then NaN else if minus then NegInf else PosInf)
      else if f64_val a * f64_val b = 0 then (if minus then NegZero else Finite 0)
      else f64_of_rat (f64_val a * f64_val b))"

definition f64_add :: "float64 \<Rightarrow> float64 \<Rightarrow> float64" where
  "f64_add a b =
     (if a = NaN \<or> b = NaN \<or> (f64_infinite a \<and> f64_infinite b \<and> a \<noteq> b) then NaN
      else if f64_infinite a then a else if f64_infinite b then b
      else if f64_val a + f64_val b = 0 then (if a = NegZero \<and> b = NegZero then NegZero else Finite 0)
      else f64_of_rat (f64_val a + f64_val b))"

definition f64_less :: "float64 \<Rightarrow> float64 \<Rightarrow> bool" where
  "f64_less a b \<longleftrightarrow> a \<noteq> NaN \<and> b \<noteq> NaN \<and>
     (if a = NegInf \<or> b = PosInf then a \<noteq> b else if a = PosInf \<or> b = NegInf then False else f64_val a < f64_val b)"

text \<open>\<^verbatim>\<open>min(a, b)\<close> and \<^verbatim>\<open>max(a, b)\<close> return the first argument unless the second is smaller or larger.\<close>

definition py_min :: "float64 \<Rightarrow> float64 \<Rightarrow> float64" where
  "py_min a b = (if f64_less b a then b else a)"

definition py_max :: "float64 \<Rightarrow> float64 \<Rightarrow> float64" where
  "py_max a b = (if f64_less a b then b else a)"

definition py_float_of_int :: "int \<Rightarrow> py_exn + float64" where
  "py_float_of_int i = (let x = f64_of_rat (of_int i) in if f64_infinite x then Inl OverflowError else Inr x)"

text \<open>\<^verbatim>\<open>x * y\<close> with a float \<open>y\<close>; a \<^verbatim>\<open>Decimal\<close> cannot be multiplied by a float.\<close>

fun py_mul :: "py_num \<Rightarrow> float64 \<Rightarrow> py_exn + float64" where
  "py_mul (PyFloat x) y = Inr (f64_mul x y)"
| "py_mul (PyInt i) y = (case py_float_of_int i of Inl e \<Rightarrow> Inl e | Inr x \<Rightarrow> Inr (f64_mul x y))"
| "py_mul (PyDecimal r) y = Inl TypeError"

fun py_int :: "float64 \<Rightarrow> py_exn + int" where
  "py_int (Finite r) = Inr (if 0 \<le> r then \<lfloor>r\<rfloor> else \<lceil>r\<rceil>)"
| "py_int NegZero = Inr 0"
| "py_int NaN = Inl ValueError"
| "py_int _ = Inl OverflowError"

text \<open>Setting an \<^verbatim>\<open>int64\<close> field of a message.\<close>

definition py_int64_field :: "int \<Rightarrow> py_exn + int64" where
  "py_int64_field i = (if int64_range i then Inr (word_of_int i) else Inl ValueError)"

section \<open>The packages the service uses\<close>

type_synonym py_row = "py_num \<times> py_num \<times> py_num \<times> int"

record ('w, 'db, 'cur, 'sess, 'np) py_lib =
  py_exists :: "string \<Rightarrow> 'w \<Rightarrow> bool"
  ort_InferenceSession :: "string \<Rightarrow> 'w \<Rightarrow> (py_exn + 'sess) \<times> 'w"
  ort_run :: "'sess \<Rightarrow> rat \<Rightarrow> py_num \<Rightarrow> py_num \<Rightarrow> py_num \<Rightarrow> 'w \<Rightarrow> (py_exn + 'np \<times> 'np \<times> 'np) \<times> 'w"
  np_int_times_1_1 :: "'np \<Rightarrow> py_exn + int"
  np_float :: "'np \<Rightarrow> float64"
  pg_connect :: "string \<Rightarrow> 'w \<Rightarrow> (py_exn + 'db) \<times> 'w"
  pg_cursor :: "'db \<Rightarrow> 'w \<Rightarrow> (py_exn + 'cur) \<times> 'w"
  pg_execute :: "'cur \<Rightarrow> string \<Rightarrow> sql_value list \<Rightarrow> 'w \<Rightarrow> py_exn option \<times> 'w"
  pg_fetchone :: "'cur \<Rightarrow> 'w \<Rightarrow> (py_exn + py_row option) \<times> 'w"
  pg_close :: "'cur \<Rightarrow> 'w \<Rightarrow> py_exn option \<times> 'w"
  py_sha256_hex :: "string \<Rightarrow> string"
  py_strftime :: "'w \<Rightarrow> string"

record ('db, 'sess) InferenceServicer =
  is_model_path :: string
  is_onnx_session :: "'sess option"
  is_db :: "'db option"

section \<open>Construction\<close>

definition py_load_model :: "('w, 'db, 'cur, 'sess, 'np) py_lib \<Rightarrow> string \<Rightarrow> 'w \<Rightarrow> 'sess option \<times> 'w" where
  "py_load_model P model_path w =
     (if \<not> py_exists P model_path w then (None, w)
      else (case ort_InferenceSession P model_path w of (Inl e, w1) \<Rightarrow> (None, w1) | (Inr s, w1) \<Rightarrow> (Some s, w1)))"

definition py_connect_db :: "('w, 'db, 'cur, 'sess, 'np) py_lib \<Rightarrow> string \<Rightarrow> 'w \<Rightarrow> 'db option \<times> 'w" where
  "py_connect_db P conn_str w = (case pg_connect P conn_str w of (Inl e, w1) \<Rightarrow> (None, w1) | (Inr db, w1) \<Rightarrow> (Some db, w1))"

definition InferenceServicer_init :: "('w, 'db, 'cur, 'sess, 'np) py_lib \<Rightarrow> string \<Rightarrow> string option \<Rightarrow> 'w
    \<Rightarrow> ('db, 'sess) InferenceServicer \<times> 'w" where
  "InferenceServicer_init P model_path db_conn_str w =
     (let (session, w1) = py_load_model P model_path w;
          (db, w2) = (case db_conn_str of None \<Rightarrow> (None, w1) | Some s \<Rightarrow> if s = '''' then (None, w1) else py_connect_db P s w1)
      in (\<lparr> is_model_path = model_path, is_onnx_session = session, is_db = db \<rparr>, w2))"

text \<open>The settings \<^verbatim>\<open>serve\<close> reads: model path, connection string, listening address.\<close>

definition serve_settings :: "(string \<rightharpoonup> string) \<Rightarrow> string \<times> string option \<times> string" where
  "serve_settings env =
     (case env ''ONNX_MODEL_PATH'' of Some p \<Rightarrow> p | None \<Rightarrow> ''model.onnx'', env ''DB_CONNECTION_STR'',
      ''[::]:'' @ (case env ''GRPC_PORT'' of Some p \<Rightarrow> p | None \<Rightarrow> ''50051''))"

section \<open>Predictions\<close>

definition py_line :: "nat \<Rightarrow> string" where
  "py_line n = CHR 0x0A # replicate n (CHR 0x20)"

definition py_history_query :: string where
  "py_history_query = py_line 16 @ ''SELECT COALESCE(AVG(actual_cpu_m), 0),'' @ py_line 23 @ ''COALESCE(AVG(actual_mem_mib), 0),''
     @ py_line 23 @ ''COALESCE(AVG(duration_s), 0),'' @ py_line 23 @ ''COUNT(*)'' @ py_line 16 @ ''FROM task_executions''
     @ py_line 16 @ ''WHERE image = %s AND succeeded = TRUE'' @ py_line 18 @ ''AND completed_at > NOW() - INTERVAL ''
     @ [CHR 0x27] @ ''30 days'' @ [CHR 0x27] @ py_line 16"

definition no_history :: py_row where
  "no_history = (PyFloat (Finite 0), PyFloat (Finite 0), PyFloat (Finite 0), 0)"

definition py_get_history :: "('w, 'db, 'cur, 'sess, 'np) py_lib \<Rightarrow> ('db, 'sess) InferenceServicer \<Rightarrow> string \<Rightarrow> 'w \<Rightarrow> py_row \<times> 'w" where
  "py_get_history P self img w = (case is_db self of None \<Rightarrow> (no_history, w)
   | Some db \<Rightarrow> (case pg_cursor P db w of (Inl e, w1) \<Rightarrow> (no_history, w1)
     | (Inr cur, w1) \<Rightarrow> (case pg_execute P cur py_history_query [SqlText img] w1 of (Some e, w2) \<Rightarrow> (no_history, w2)
       | (None, w2) \<Rightarrow> (case pg_fetchone P cur w2 of (Inl e, w3) \<Rightarrow> (no_history, w3)
         | (Inr row, w3) \<Rightarrow> (case pg_close P cur w3 of (Some e, w4) \<Rightarrow> (no_history, w4)
           | (None, w4) \<Rightarrow> (case row of Some r \<Rightarrow> (r, w4) | None \<Rightarrow> (no_history, w4)))))))"

definition hex_value :: "char \<Rightarrow> nat" where
  "hex_value c = (let n = (of_char c :: nat) in if n < 58 then n - 48 else n - 87)"

text \<open>The first eight hexadecimal digits as a fraction; the quotient is a double.\<close>

definition image_hash :: "('w, 'db, 'cur, 'sess, 'np) py_lib \<Rightarrow> string \<Rightarrow> rat" where
  "image_hash P name = of_nat (foldl (\<lambda>a c. 16 * a + hex_value c) 0 (take 8 (py_sha256_hex P name))) / 16 ^ 8"

definition py_prediction :: "int \<Rightarrow> int \<Rightarrow> float64 \<Rightarrow> float64 \<Rightarrow> py_exn + pb_TaskPrediction" where
  "py_prediction cpu mem dur conf = (case py_int64_field cpu of Inl e \<Rightarrow> Inl e
   | Inr c \<Rightarrow> (case py_int64_field mem of Inl e \<Rightarrow> Inl e
     | Inr m \<Rightarrow> Inr \<lparr> pp_CpuMillicores = c, pp_MemoryMib = m, pp_EstimatedDurationS = dur, pp_Confidence = conf \<rparr>))"

definition py_ml_predict :: "('w, 'db, 'cur, 'sess, 'np) py_lib \<Rightarrow> 'sess \<Rightarrow> pb_TaskInfo \<Rightarrow> py_num \<Rightarrow> py_num \<Rightarrow> py_num \<Rightarrow> 'w
    \<Rightarrow> (py_exn + pb_TaskPrediction) \<times> 'w" where
  "py_ml_predict P session task hist_cpu hist_mem hist_dur w =
     (case ort_run P session (image_hash P (ti_Image task)) hist_cpu hist_mem hist_dur w of
        (Inl e, w1) \<Rightarrow> (Inl e, w1)
      | (Inr (pred_cpu, pred_mem, pred_dur), w1) \<Rightarrow>
          (case np_int_times_1_1 P pred_cpu of Inl e \<Rightarrow> (Inl e, w1)
           | Inr cpu \<Rightarrow> (case np_int_times_1_1 P pred_mem of Inl e \<Rightarrow> (Inl e, w1)
             | Inr mem \<Rightarrow> (py_prediction (max 10 cpu) (max 8 mem) (py_max (Finite 1) (np_float P pred_dur)) (Finite 0), w1))))"

definition DEFAULT_CPU_MILLICORES :: int where
  "DEFAULT_CPU_MILLICORES = 100"

definition DEFAULT_MEMORY_MIB :: int where
  "DEFAULT_MEMORY_MIB = 128"

definition DEFAULT_DURATION_S :: float64 where
  "DEFAULT_DURATION_S = Finite 30"

definition DEFAULT_CONFIDENCE :: float64 where
  "DEFAULT_CONFIDENCE = f64_of_rat (1 / 10)"

text \<open>The raw averages with headroom: 20 percent on the resources, 10 percent on the duration.\<close>

definition py_average_predict :: "py_num \<Rightarrow> py_num \<Rightarrow> py_num \<Rightarrow> int \<Rightarrow> py_exn + pb_TaskPrediction" where
  "py_average_predict hist_cpu hist_mem hist_dur sample_count =
     (case py_mul hist_cpu (f64_of_rat (6 / 5)) of Inl e \<Rightarrow> Inl e
      | Inr c \<Rightarrow> (case py_int c of Inl e \<Rightarrow> Inl e
        | Inr cpu \<Rightarrow> (case py_mul hist_mem (f64_of_rat (6 / 5)) of Inl e \<Rightarrow> Inl e
          | Inr m \<Rightarrow> (case py_int m of Inl e \<Rightarrow> Inl e
            | Inr mem \<Rightarrow> (case py_mul hist_dur (f64_of_rat (11 / 10)) of Inl e \<Rightarrow> Inl e
              | Inr dur \<Rightarrow> (case py_mul (PyInt sample_count) (f64_of_rat (1 / 25)) of Inl e \<Rightarrow> Inl e
                | Inr s \<Rightarrow> py_prediction cpu mem dur (py_min (f64_of_rat (7 / 10)) (f64_add (f64_of_rat (3 / 10)) s))))))))"

text \<open>An unset message field reads as its default, zero.\<close>

definition hint_cpu :: "pb_TaskInfo \<Rightarrow> int" where
  "hint_cpu task = (case ti_BaseResources task of Some h \<Rightarrow> sint (rh_CpuMillicores h) | None \<Rightarrow> 0)"

definition hint_mem :: "pb_TaskInfo \<Rightarrow> int" where
  "hint_mem task = (case ti_BaseResources task of Some h \<Rightarrow> sint (rh_MemoryMib h) | None \<Rightarrow> 0)"

definition py_cold_predict :: "pb_TaskInfo \<Rightarrow> py_exn + pb_TaskPrediction" where
  "py_cold_predict task =
     (if hint_cpu task > 0 \<or> hint_mem task > 0
      then py_prediction (if hint_cpu task > 0 then hint_cpu task else DEFAULT_CPU_MILLICORES)
        (if hint_mem task > 0 then hint_mem task else DEFAULT_MEMORY_MIB) DEFAULT_DURATION_S (f64_of_rat (3 / 10))
      else py_prediction DEFAULT_CPU_MILLICORES DEFAULT_MEMORY_MIB DEFAULT_DURATION_S DEFAULT_CONFIDENCE)"

definition py_predict_task :: "('w, 'db, 'cur, 'sess, 'np) py_lib \<Rightarrow> ('db, 'sess) InferenceServicer \<Rightarrow> pb_TaskInfo \<Rightarrow> py_row \<Rightarrow> 'w
    \<Rightarrow> (py_exn + pb_TaskPrediction) \<times> 'w" where
  "py_predict_task P self task row w = (case row of (hist_cpu, hist_mem, hist_dur, sample_count) \<Rightarrow>
     (case is_onnx_session self of
        Some session \<Rightarrow>
          if sample_count > 0 then py_ml_predict P session task hist_cpu hist_mem hist_dur w else (py_cold_predict task, w)
      | None \<Rightarrow>
          if sample_count > 0 then (py_average_predict hist_cpu hist_mem hist_dur sample_count, w) else (py_cold_predict task, w)))"

fun py_predict_loop :: "('w, 'db, 'cur, 'sess, 'np) py_lib \<Rightarrow> ('db, 'sess) InferenceServicer \<Rightarrow> pb_TaskInfo list
    \<Rightarrow> (string, pb_TaskPrediction) fmap \<Rightarrow> 'w \<Rightarrow> (py_exn + (string, pb_TaskPrediction) fmap) \<times> 'w" where
  "py_predict_loop P self [] predictions w = (Inr predictions, w)"
| "py_predict_loop P self (task # tasks) predictions w =
     (let (row, w1) = py_get_history P self (ti_Image task) w in
      case py_predict_task P self task row w1 of
        (Inl e, w2) \<Rightarrow> (Inl e, w2)
      | (Inr pred, w2) \<Rightarrow> py_predict_loop P self tasks (fmupd (ti_Name task) pred predictions) w2)"

definition InferenceServicer_Predict :: "('w, 'db, 'cur, 'sess, 'np) py_lib \<Rightarrow> ('db, 'sess) InferenceServicer \<Rightarrow> pb_PredictRequest
    \<Rightarrow> 'w \<Rightarrow> (py_exn + pb_PredictResponse) \<times> 'w" where
  "InferenceServicer_Predict P self request w = (case py_predict_loop P self (pdq_Tasks request) fmempty w of
     (Inl e, w1) \<Rightarrow> (Inl e, w1) | (Inr predictions, w1) \<Rightarrow> (Inr \<lparr> pdr_Predictions = predictions \<rparr>, w1))"

section \<open>Metrics\<close>

definition py_insert_query :: string where
  "py_insert_query = py_line 20 @ ''INSERT INTO task_executions'' @ py_line 24
     @ ''(workflow_name, task_name, image, actual_cpu_m, actual_mem_mib, duration_s, succeeded, completed_at)''
     @ py_line 20 @ ''VALUES (%s, %s, %s, %s, %s, %s, %s, %s)'' @ py_line 20"

definition py_metric_row :: "string \<Rightarrow> pb_TaskMetrics \<Rightarrow> string \<Rightarrow> sql_value list" where
  "py_metric_row workflow m now =
     [SqlText workflow, SqlText (tm_TaskName m), SqlText (tm_Image m), SqlInt (tm_ActualCpuMillicores m),
      SqlInt (tm_ActualMemoryMib m), SqlFloat (tm_ActualDurationS m), SqlBool (tm_Succeeded m),
      SqlText (if tm_CompletedAt m = '''' then now else tm_CompletedAt m)]"

fun py_insert_loop :: "('w, 'db, 'cur, 'sess, 'np) py_lib \<Rightarrow> 'cur \<Rightarrow> string \<Rightarrow> pb_TaskMetrics list \<Rightarrow> 'w \<Rightarrow> py_exn option \<times> 'w" where
  "py_insert_loop P cur workflow [] w = (None, w)"
| "py_insert_loop P cur workflow (m # ms) w =
     (case pg_execute P cur py_insert_query (py_metric_row workflow m (py_strftime P w)) w of
        (Some e, w1) \<Rightarrow> (Some e, w1) | (None, w1) \<Rightarrow> py_insert_loop P cur workflow ms w1)"

definition InferenceServicer_ReportMetrics :: "('w, 'db, 'cur, 'sess, 'np) py_lib \<Rightarrow> ('db, 'sess) InferenceServicer
    \<Rightarrow> pb_ReportMetricsRequest \<Rightarrow> 'w \<Rightarrow> pb_ReportMetricsResponse \<times> 'w" where
  "InferenceServicer_ReportMetrics P self request w = (case is_db self of
     None \<Rightarrow> (\<lparr> rp_Accepted = False \<rparr>, w)
   | Some db \<Rightarrow> (case pg_cursor P db w of (Inl e, w1) \<Rightarrow> (\<lparr> rp_Accepted = False \<rparr>, w1)
     | (Inr cur, w1) \<Rightarrow> (case py_insert_loop P cur (rq_WorkflowName request) (rq_TaskMetrics request) w1 of
         (Some e, w2) \<Rightarrow> (\<lparr> rp_Accepted = False \<rparr>, w2)
       | (None, w2) \<Rightarrow> (case pg_close P cur w2 of
           (Some e, w3) \<Rightarrow> (\<lparr> rp_Accepted = False \<rparr>, w3) | (None, w3) \<Rightarrow> (\<lparr> rp_Accepted = True \<rparr>, w3)))))"

section \<open>The service behind gRPC\<close>

text \<open>
  What a client sees: an answer, or an error where the handler raised. The error gRPC makes of an
  exception is a parameter.
\<close>

definition servicer_Predict :: "(py_exn \<Rightarrow> go_error) \<Rightarrow> ('w, 'db, 'cur, 'sess, 'np) py_lib \<Rightarrow> ('db, 'sess) InferenceServicer
    \<Rightarrow> pb_PredictRequest \<Rightarrow> 'w \<Rightarrow> (go_error + pb_PredictResponse) \<times> 'w" where
  "servicer_Predict rpc_error P self request w = (case InferenceServicer_Predict P self request w of
     (Inl e, w1) \<Rightarrow> (Inl (rpc_error e), w1) | (Inr resp, w1) \<Rightarrow> (Inr resp, w1))"

definition servicer_ReportMetrics :: "('w, 'db, 'cur, 'sess, 'np) py_lib \<Rightarrow> ('db, 'sess) InferenceServicer
    \<Rightarrow> pb_ReportMetricsRequest \<Rightarrow> 'w \<Rightarrow> (go_error + pb_ReportMetricsResponse) \<times> 'w" where
  "servicer_ReportMetrics P self request w =
     (case InferenceServicer_ReportMetrics P self request w of (resp, w1) \<Rightarrow> (Inr resp, w1))"

text \<open>
  \<^verbatim>\<open>serve\<close>. Of the gRPC library, \<open>start\<close> binds the address for the servicer's handlers and starts the
  server, and \<open>wait\<close> tells whether an interrupt ended the waiting; then the server is stopped.
\<close>

definition py_serve :: "('w, 'db, 'cur, 'sess, 'np) py_lib
    \<Rightarrow> (string \<Rightarrow> ('db, 'sess) InferenceServicer \<Rightarrow> 'w \<Rightarrow> (py_exn + 'srv) \<times> 'w) \<Rightarrow> ('srv \<Rightarrow> 'w \<Rightarrow> bool \<times> 'w)
    \<Rightarrow> ('srv \<Rightarrow> 'w \<Rightarrow> 'w) \<Rightarrow> (string \<rightharpoonup> string) \<Rightarrow> 'w \<Rightarrow> py_exn option \<times> 'w" where
  "py_serve P start wait stop env w =
     (let (model_path, db_conn_str, listen_addr) = serve_settings env;
          (servicer, w1) = InferenceServicer_init P model_path db_conn_str w
      in case start listen_addr servicer w1 of
           (Inl e, w2) \<Rightarrow> (Some e, w2)
         | (Inr server, w2) \<Rightarrow> (case wait server w2 of
             (interrupted, w3) \<Rightarrow> (None, if interrupted then stop server w3 else w3)))"

end
