(* ===== verification/Py_Properties.thy ===== *)
theory Py_Properties
  imports Py_Inference Remote_Properties
begin

text \<open>
  Properties of the inference service and of the Go client in front of it: the predictions are
  keyed by the tasks of the request, without history they are the hints completed by defaults,
  with a history and no model there are none, and metrics are stored in order.
\<close>

section \<open>The contract of an engine\<close>

lemma py_predict_loop_dom:
  "py_predict_loop P self tasks acc w = (Inr preds, w') \<Longrightarrow> fmdom' preds = fmdom' acc \<union> ti_Name ` set tasks"
  by (induction tasks arbitrary: acc w) (auto simp: Let_def split: prod.splits sum.splits)

lemma predict_request_tasks: "pdq_Tasks (predict_request L spec) = map (task_info L) (sp_Tasks spec)"
  by (simp add: predict_request_def)

lemma servicer_Predict_dom:
  assumes "servicer_Predict rpc_error P self (predict_request L spec) w = (Inr resp, w')"
  shows "fmdom' (pdr_Predictions resp) = set (task_names spec)"
  using assms
  by (auto simp: servicer_Predict_def InferenceServicer_Predict_def predict_request_tasks task_info_def image_image
      dest!: py_predict_loop_dom split: prod.splits sum.splits)

lemma client_predict:
  assumes "map_order ord" "InferenceClient_Predict L ord rpc spec w = (Some (Inr preds), w')"
  obtains resp where "rpc (predict_request L spec) w = (Inr resp, w')" "fmdom' preds = fmdom' (pdr_Predictions resp)"
    "preds = fmmap (\<lambda>p. the (prediction_of L p)) (pdr_Predictions resp)"
proof -
  from assms(2) obtain resp where r: "rpc (predict_request L spec) w = (Inr resp, w')"
    "convert_loop (prediction_of L) (go_range ord (pdr_Predictions resp)) fmempty = Some preds"
    by (auto simp: InferenceClient_Predict_def split: prod.splits sum.splits)
  from convert_loop_range(1) [OF assms(1) r(2)] r(1) that show ?thesis by simp
qed

lemma py_engine:
  assumes "map_order ord"
  shows "inference_engine (InferenceClient_Predict L ord (servicer_Predict rpc_error P self))"
proof
  fix spec w preds w'
  assume "InferenceClient_Predict L ord (servicer_Predict rpc_error P self) spec w = (Some (Inr preds), w')"
  then show "fmdom' preds \<subseteq> set (task_names spec)"
    by (rule client_predict [OF assms]) (simp add: servicer_Predict_dom del: set_map)
qed

section \<open>Cold start\<close>

definition or_default :: "int \<Rightarrow> int \<Rightarrow> int" where
  "or_default d x = (if 0 < x then x else d)"

lemma py_cold_predict_total:
  "\<exists>p. py_cold_predict t = Inr p \<and> sint (pp_CpuMillicores p) = or_default 100 (hint_cpu t)
    \<and> sint (pp_MemoryMib p) = or_default 128 (hint_mem t)"
proof -
  have r: "int64_range (hint_cpu t)" "int64_range (hint_mem t)" "int64_range 100" "int64_range 128"
    by (auto simp: hint_cpu_def hint_mem_def int64_range_def split: option.split)
      (use int64_range_sint in \<open>auto simp: int64_range_def\<close>)
  then have "int64_range (or_default 100 (hint_cpu t))" "int64_range (or_default 128 (hint_mem t))"
    by (simp_all add: or_default_def)
  then have "\<exists>p. py_prediction (or_default 100 (hint_cpu t)) (or_default 128 (hint_mem t)) d c = Inr p
      \<and> sint (pp_CpuMillicores p) = or_default 100 (hint_cpu t) \<and> sint (pp_MemoryMib p) = or_default 128 (hint_mem t)" for d c
    by (simp add: py_prediction_def py_int64_field_def sint_word_of_int64)
  moreover have "py_cold_predict t = py_prediction (or_default 100 (hint_cpu t)) (or_default 128 (hint_mem t)) DEFAULT_DURATION_S
      (if hint_cpu t > 0 \<or> hint_mem t > 0 then f64_of_rat (3 / 10) else DEFAULT_CONFIDENCE)"
    by (simp add: py_cold_predict_def or_default_def DEFAULT_CPU_MILLICORES_def DEFAULT_MEMORY_MIB_def)
  ultimately show ?thesis by simp
qed

lemma py_predict_loop_cold:
  assumes "is_db self = None" "distinct (map ti_Name tasks)"
  shows "\<exists>preds. py_predict_loop P self tasks acc w = (Inr preds, w)
    \<and> (\<forall>n. n \<notin> ti_Name ` set tasks \<longrightarrow> fmlookup preds n = fmlookup acc n)
    \<and> (\<forall>t \<in> set tasks. \<exists>p. py_cold_predict t = Inr p \<and> fmlookup preds (ti_Name t) = Some p)"
  using assms(2)
proof (induction tasks arbitrary: acc)
  case Nil
  then show ?case by simp
next
  case (Cons t tasks)
  obtain p where p: "py_cold_predict t = Inr p" using py_cold_predict_total by blast
  have step: "py_predict_loop P self (t # tasks) acc w = py_predict_loop P self tasks (fmupd (ti_Name t) p acc) w"
    by (simp add: py_get_history_def assms(1) no_history_def py_predict_task_def p split: option.split)
  from Cons.IH [of "fmupd (ti_Name t) p acc"] Cons.prems obtain preds where
    "py_predict_loop P self tasks (fmupd (ti_Name t) p acc) w = (Inr preds, w)"
    "\<forall>n. n \<notin> ti_Name ` set tasks \<longrightarrow> fmlookup preds n = fmlookup (fmupd (ti_Name t) p acc) n"
    "\<forall>t \<in> set tasks. \<exists>p. py_cold_predict t = Inr p \<and> fmlookup preds (ti_Name t) = Some p" by auto
  with step p Cons.prems show ?case by (intro exI [of _ preds]) simp
qed

lemma hint_amounts:
  assumes "quantity_values L amt" "whole amt (rr_Requests (tt_BaseResources t)) c m"
  shows "hint_cpu (task_info L t) = c" "hint_mem (task_info L t) = m"
  using whole_sent [OF assms] assms(2)
  by (auto simp: hint_cpu_def hint_mem_def task_info_def hint_of_def cpu_millicores_def memory_mib_def)

lemma cold_prediction:
  assumes "quantity_parses L amt" "0 \<le> c" "c \<le> 2 ^ 51" "0 \<le> m" "m \<le> 2 ^ 40"
    "sint (pp_CpuMillicores p) = or_default 100 c" "sint (pp_MemoryMib p) = or_default 128 m"
  shows "\<exists>q. prediction_of L p = Some q \<and> whole amt (rr_Requests (tp_EstimatedResources q)) (or_default 100 c) (or_default 128 m)"
proof -
  have b: "0 \<le> or_default 100 c" "or_default 100 c \<le> 2 ^ 51" "0 \<le> or_default 128 m" "or_default 128 m \<le> 2 ^ 40"
    using assms(2-5) by (auto simp: or_default_def)
  obtain req where req: "parse_resources L (pp_CpuMillicores p) (pp_MemoryMib p) = Some req"
    "whole amt req (or_default 100 c) (or_default 128 m)"
    by (rule parse_resources_whole [OF assms(1,6,7) b])
  obtain lim where "parse_resources L (int64_of_f64_times_1_5 L (pp_CpuMillicores p))
      (int64_of_f64_times_1_5 L (pp_MemoryMib p)) = Some lim"
    using parse_resources_total [OF assms(1)] by blast
  with req show ?thesis by (simp add: prediction_of_def)
qed

lemma or_default_amount:
  "(of_int (or_default 100 c) / 1000 :: rat) = (if 0 < (of_int c :: rat) / 1000 then of_int c / 1000 else 1 / 10)"
  "(of_int (or_default 128 m) * 2 ^ 20 :: rat) = (if 0 < (of_int m :: rat) * 2 ^ 20 then of_int m * 2 ^ 20 else 2 ^ 27)"
  by (auto simp: or_default_def zero_less_divide_iff zero_less_mult_iff)


text \<open>A library for the examples: no files, a database that is a table of rows, averages as the driver gives them.\<close>

definition ex_py :: "(sql_value list list, unit, unit, unit, unit) py_lib" where
  "ex_py = \<lparr> py_exists = (\<lambda>p w. False), ort_InferenceSession = (\<lambda>p w. (Inl (OtherError ''no model''), w)),
     ort_run = (\<lambda>s h c m d w. (Inl (OtherError ''no model''), w)), np_int_times_1_1 = (\<lambda>x. Inr 0), np_float = (\<lambda>x. Finite 0),
     pg_connect = (\<lambda>s w. (Inr (), w)), pg_cursor = (\<lambda>db w. (Inr (), w)),
     pg_execute = (\<lambda>cur query args w. (None, if query = py_insert_query then w @ [args] else w)),
     pg_fetchone = (\<lambda>cur w. (Inr (Some (PyDecimal 250, PyDecimal 64, PyFloat (Finite 3), 1)), w)),
     pg_close = (\<lambda>cur w. (None, w)), py_sha256_hex = (\<lambda>s. replicate 64 (CHR ''0'')), py_strftime = (\<lambda>w. ''2026-01-01T00:00:00Z'') \<rparr>"


section \<open>History without a model\<close>

text \<open>
  PostgreSQL's average of a \<^verbatim>\<open>BIGINT\<close> column is a \<^verbatim>\<open>numeric\<close>, which the driver hands over as a
  \<^verbatim>\<open>Decimal\<close>; both resource columns of the table are of that type. \<open>n img\<close> is the number of
  recorded executions of an image.
\<close>

definition decimal_averages :: "('w, 'db, 'cur, 'sess, 'np) py_lib \<Rightarrow> 'db \<Rightarrow> (string \<Rightarrow> int) \<Rightarrow> bool" where
  "decimal_averages P db n \<longleftrightarrow> (\<forall>img w. \<exists>cur w1 w2 w3 w4 c m d. pg_cursor P db w = (Inr cur, w1)
     \<and> pg_execute P cur py_history_query [SqlText img] w1 = (None, w2)
     \<and> pg_fetchone P cur w2 = (Inr (Some (PyDecimal c, PyDecimal m, PyFloat d, n img)), w3)
     \<and> pg_close P cur w3 = (None, w4))"

lemma decimal_history:
  assumes "decimal_averages P db n" "is_db self = Some db"
  obtains c m d w' where "py_get_history P self img w = ((PyDecimal c, PyDecimal m, PyFloat d, n img), w')"
proof -
  from assms(1) obtain cur w1 w2 w3 w4 c m d where "pg_cursor P db w = (Inr cur, w1)"
    "pg_execute P cur py_history_query [SqlText img] w1 = (None, w2)"
    "pg_fetchone P cur w2 = (Inr (Some (PyDecimal c, PyDecimal m, PyFloat d, n img)), w3)" "pg_close P cur w3 = (None, w4)"
    unfolding decimal_averages_def by metis
  with assms(2) that show ?thesis by (simp add: py_get_history_def)
qed

lemma decimal_predict_loop:
  assumes "decimal_averages P db n" "is_db self = Some db" "is_onnx_session self = None"
    and "\<exists>t \<in> set tasks. 0 < n (ti_Image t)"
  shows "fst (py_predict_loop P self tasks acc w) = Inl TypeError"
  using assms(4)
proof (induction tasks arbitrary: acc w)
  case Nil
  then show ?case by simp
next
  case (Cons t tasks)
  obtain c m d w' where h: "py_get_history P self (ti_Image t) w = ((PyDecimal c, PyDecimal m, PyFloat d, n (ti_Image t)), w')"
    by (rule decimal_history [OF assms(1,2)])
  show ?case
  proof (cases "0 < n (ti_Image t)")
    case True
    then show ?thesis by (simp add: h py_predict_task_def assms(3) py_average_predict_def)
  next
    case False
    with Cons.prems have "\<exists>t \<in> set tasks. 0 < n (ti_Image t)" by auto
    moreover obtain p where "py_cold_predict t = Inr p" using py_cold_predict_total by blast
    ultimately show ?thesis using False Cons.IH by (simp add: h py_predict_task_def assms(3))
  qed
qed



section \<open>Metrics\<close>

text \<open>
  The table behind the driver: an insertion that succeeds appends its values, one that fails
  changes nothing, since the connection is in autocommit mode; opening and closing a cursor changes nothing.
\<close>

definition metric_table :: "('w, 'db, 'cur, 'sess, 'np) py_lib \<Rightarrow> 'db \<Rightarrow> ('w \<Rightarrow> sql_value list list) \<Rightarrow> bool" where
  "metric_table P db rows \<longleftrightarrow>
     (\<forall>w. rows (snd (pg_cursor P db w)) = rows w) \<and> (\<forall>cur w. rows (snd (pg_close P cur w)) = rows w)
     \<and> (\<forall>cur args w. rows (snd (pg_execute P cur py_insert_query args w)) =
         (if fst (pg_execute P cur py_insert_query args w) = None then rows w @ [args] else rows w))"

lemma py_insert_loop_rows:
  assumes "metric_table P db rows" "py_insert_loop P cur wfn ms w = (r, w')"
  shows "\<exists>k nows. k \<le> length ms \<and> length nows = k \<and> rows w' = rows w @ map2 (py_metric_row wfn) (take k ms) nows
    \<and> (r = None \<longleftrightarrow> k = length ms)"
  using assms(2)
proof (induction ms arbitrary: w)
  case Nil
  then show ?case by simp
next
  case (Cons m ms)
  let ?args = "py_metric_row wfn m (py_strftime P w)"
  obtain e w1 where e: "pg_execute P cur py_insert_query ?args w = (e, w1)" by fastforce
  from assms(1) e have rows: "rows w1 = (if e = None then rows w @ [?args] else rows w)"
    unfolding metric_table_def by (metis fst_conv snd_conv)
  show ?case
  proof (cases e)
    case (Some x)
    with e rows Cons.prems show ?thesis by (intro exI [of _ 0] exI [of _ "[]"]) auto
  next
    case None
    with e Cons.prems have "py_insert_loop P cur wfn ms w1 = (r, w')" by simp
    from Cons.IH [OF this] obtain k nows where "k \<le> length ms" "length nows = k"
      "rows w' = rows w1 @ map2 (py_metric_row wfn) (take k ms) nows" "r = None \<longleftrightarrow> k = length ms" by blast
    with None rows show ?thesis by (intro exI [of _ "Suc k"] exI [of _ "py_strftime P w # nows"]) simp
  qed
qed


definition ex_metric :: "string \<Rightarrow> pb_TaskMetrics" where
  "ex_metric n = \<lparr> tm_TaskName = n, tm_Image = ''img'', tm_ActualCpuMillicores = 250, tm_ActualMemoryMib = 64,
     tm_ActualDurationS = Finite 3, tm_Succeeded = True, tm_CompletedAt = '''' \<rparr>"


section \<open>Confidence\<close>

text \<open>
  A prediction of the model carries the confidence 0: the one the handler computes for it only
  reaches the log. Its resources have a floor of 10 millicores and 8 mebibytes.
\<close>

lemma ml_prediction:
  assumes "py_ml_predict P session task c m d w = (Inr p, w')"
  shows "pp_Confidence p = Finite 0" "10 \<le> sint (pp_CpuMillicores p)" "8 \<le> sint (pp_MemoryMib p)"
  using assms
  by (auto simp: py_ml_predict_def py_prediction_def py_int64_field_def sint_word_of_int64
      split: prod.splits sum.splits if_splits)

end
