(* ===== verification/Status_Types.thy ===== *)
theory Status_Types
  imports Workflow_Properties
begin

text \<open>
  The type of a workflow's status: the map has an entry for each task of the specification and
  no other, every entry is one of the four phases with the pod name and resources that go with
  it, and the phase of the workflow is the one its entries call for. What a call of
  \<^verbatim>\<open>Reconcile\<close> writes has this type if what it loaded had it or had no status.
\<close>

definition entry_typed :: "'q golib \<Rightarrow> string \<Rightarrow> string \<Rightarrow> 'q TaskStatus \<Rightarrow> bool" where
  "entry_typed L wname n ts \<longleftrightarrow>
     ts_Phase ts = TaskPhasePending \<and> ts_PodName ts = '''' \<and> ts_AllocatedResources ts = zero_resources
     \<or> ts_Phase ts \<in> {TaskPhaseRunning, TaskPhaseSucceeded, TaskPhaseFailed} \<and> ts_PodName ts = podName L wname n"

definition entries_typed :: "'q golib \<Rightarrow> string \<Rightarrow> 'q AdaptiveWorkflowSpec \<Rightarrow> 'q TaskStatuses \<Rightarrow> bool" where
  "entries_typed L wname spec m \<longleftrightarrow> fmdom' m = set (task_names spec)
     \<and> (\<forall>n ts. fmlookup m n = Some ts \<longrightarrow> entry_typed L wname n ts)"

definition phase_agrees :: "WorkflowPhase \<Rightarrow> 'q TaskStatuses \<Rightarrow> bool" where
  "phase_agrees p m \<longleftrightarrow>
     p = WorkflowPhasePending \<and> (\<forall>n. phase_of m n \<in> {None, Some TaskPhasePending})
     \<or> p = WorkflowPhaseRunning \<and> no_failures m \<and> \<not> all_done m
     \<or> p = WorkflowPhaseCompleted \<and> all_done m
     \<or> p = WorkflowPhaseFailed \<and> \<not> no_failures m"

definition status_typed :: "'q golib \<Rightarrow> 'q AdaptiveWorkflow \<Rightarrow> bool" where
  "status_typed L aw \<longleftrightarrow> (\<exists>m. st_TaskStatuses (wf_Status aw) = Some m
     \<and> entries_typed L (om_Name (wf_Meta aw)) (wf_Spec aw) m \<and> phase_agrees (st_Phase (wf_Status aw)) m)"

section \<open>The steps keep the type\<close>

lemma entries_typed_init: "entries_typed L wname spec (init_statuses fmempty (sp_Tasks spec))"
  by (auto simp: entries_typed_def entry_typed_def fmlookup_init fmlookup_dom'_iff split: if_splits)

lemma entry_typed_outcome: "entry_typed L wname n ts \<Longrightarrow> entry_typed L wname n (take_outcome pods n ts)"
  using pod_outcome_cases [of pods n] by (auto simp: entry_typed_def take_outcome_def split: option.split)

lemma entries_typed_synced: "entries_typed L wname spec m \<Longrightarrow> entries_typed L wname spec (synced pods m)"
  by (auto simp: entries_typed_def entry_typed_outcome)

lemma entries_typed_start:
  "entries_typed L wname spec m \<Longrightarrow> (\<And>a. a \<in> set as \<Longrightarrow> ta_TaskName a \<in> set (task_names spec)) \<Longrightarrow>
    entries_typed L wname spec (start_all L wname as m)"
proof (induction as arbitrary: m)
  case Nil
  then show ?case by simp
next
  case (Cons a as)
  have "entry_typed L wname (ta_TaskName a) (start_entry L wname a)" by (simp add: entry_typed_def start_entry_def)
  with Cons.prems have "entries_typed L wname spec (fmupd (ta_TaskName a) (start_entry L wname a) m)"
    by (auto simp: entries_typed_def)
  with Cons show ?case by (simp add: start_all_Cons)
qed

lemma running_agrees:
  assumes "no_failures m" "\<not> all_done m"
  shows "phase_agrees WorkflowPhaseRunning (start_all L wname as m)"
proof -
  have "\<not> all_done (start_all L wname as m)"
  proof (cases as)
    case Nil
    with assms(2) show ?thesis by simp
  next
    case (Cons a bs)
    then have p: "phase_of (start_all L wname as m) (ta_TaskName a) = Some TaskPhaseRunning" by (simp add: phase_of_start_all)
    then have "ta_TaskName a \<in> fmdom' (start_all L wname as m)" by (auto simp: phase_of_def fmlookup_dom'_iff)
    with p show ?thesis by (fastforce simp: all_done_def)
  qed
  with assms(1) show ?thesis by (auto simp: phase_agrees_def no_failures_def phase_of_start_all)
qed

context task_optimizer
begin

lemma active_typed:
  assumes "active_run R aw m lst out es" "rc_Optimizer R = Plan" "aw' \<in> set (status_writes es)"
    and "entries_typed (rc_lib R) (om_Name (wf_Meta aw)) (wf_Spec aw) m"
  shows "status_typed (rc_lib R) aw'"
  using assms(1)
proof cases
  case stopped
  with assms(3) show ?thesis by (simp add: quiet_def)
next
  case (failure es0 pods n aw'' es e)
  with assms(3) have "aw' = aw''" by (simp add: quiet_def one_write_def)
  with failure entries_typed_synced [OF assms(4)] show ?thesis
    by (auto simp: status_typed_def wrote_def phase_agrees_def no_failures_def)
next
  case (completion es0 pods aw'' es e)
  with assms(3) have "aw' = aw''" by (simp add: quiet_def one_write_def)
  with completion entries_typed_synced [OF assms(4)] show ?thesis
    by (auto simp: status_typed_def wrote_def phase_agrees_def)
next
  case (execution es0 pods w0 r w preds plan w' started es1 aw'' w2 es2)
  with assms(3) have aw': "aw' = aw''" by (simp add: quiet_def one_write_def spawns_def)
  have "Plan (wf_Spec aw) (synced pods m) preds w = (Some (Inr plan), w')" using execution assms(2) by simp
  then have "ta_TaskName a \<in> set (task_names (wf_Spec aw))" if "a \<in> set started" for a
    using plan_in_spec subseq_in_set [OF _ that] execution by blast
  with entries_typed_start [OF entries_typed_synced [OF assms(4)]] execution aw' running_agrees show ?thesis
    by (auto simp: status_typed_def wrote_def)
qed

end

section \<open>Property\<close>


lemma ex_init_typed: "status_typed rat_lib (ex_wf WorkflowPhasePending (Some (init_statuses fmempty (sp_Tasks ex_spec))))"
  using entries_typed_init by (auto simp: status_typed_def phase_agrees_def phase_of_init)


end
