(* ===== verification/Liveness.thy ===== *)
theory Liveness
  imports System
begin

text \<open>
  Completion. The controller is called again and again, as the manager does, and between the
  calls the cluster moves on. If the API server answers, no pod fails, and whenever tasks are
  running at least one of their pods has succeeded by the next call, then an acyclic workflow
  each task of which fits its limits alone is completed after a number of calls linear in the
  number of its tasks, and stays completed. The argument is a measure on the status map: two for
  every pending task, one for every running one.
\<close>

section \<open>A cluster that answers\<close>

text \<open>
  \<open>cur w\<close> is the stored workflow in world \<open>w\<close>, \<open>up\<close> the worlds the cluster can be in. Reads are
  fresh, status updates with the current metadata are accepted, so is the update that adds the
  finalizer to the current object, pods can be listed by label and created, and nobody deletes the
  workflow.
\<close>

definition healthy :: "('w, 'q) reconciler \<Rightarrow> string \<Rightarrow> string \<Rightarrow> ('w \<Rightarrow> bool) \<Rightarrow> ('w \<Rightarrow> 'q AdaptiveWorkflow) \<Rightarrow> bool" where
  "healthy R ns name up cur \<longleftrightarrow> (let K = rc_client R in
     calm_client K ns name up (\<lambda>w. [cur w]) \<and> calm_services R up (\<lambda>w. [cur w])
     \<and> (\<forall>w. up w \<longrightarrow> om_DeletionTimestamp (wf_Meta (cur w)) = None
          \<and> fst (cl_GetWorkflow K ns name w) = Inr (cur w))
     \<and> (\<forall>w. up w \<longrightarrow> \<not> cl_ContainsFinalizer K (cur w) workflowFinalizer \<longrightarrow>
          (\<exists>aw' w'. cl_Update K (cl_AddFinalizer K (cur w) workflowFinalizer) w = ((None, aw'), w')
             \<and> up w' \<and> cur w' = aw' \<and> wf_Spec aw' = wf_Spec (cur w) \<and> wf_Status aw' = wf_Status (cur w)))
     \<and> (\<forall>w aw. up w \<longrightarrow> wf_Meta aw = wf_Meta (cur w) \<longrightarrow> (\<exists>aw' w'. cl_UpdateStatus K aw w = ((None, aw'), w')
          \<and> up w' \<and> wf_Spec (cur w') = wf_Spec (cur w) \<and> wf_Status (cur w') = wf_Status aw))
     \<and> (\<forall>n l v w. up w \<longrightarrow> (\<exists>pods. fst (cl_ListPodsByLabel K n l v w) = Inr pods))
     \<and> (\<forall>aw p. \<exists>p'. cl_SetControllerReference K aw p = Inr p')
     \<and> (\<forall>p w e. up w \<longrightarrow> fst (cl_CreatePod K p w) = Some e \<longrightarrow> cl_IsAlreadyExists K e))"

lemma drift_single [simp]: "drift [a] [b] \<longleftrightarrow> b = a"
  by (auto simp: drift_def)

lemma keeps_single:
  "keeps up (\<lambda>w. [cur w]) s s' \<Longrightarrow> up (sy_world s) \<Longrightarrow> up (sy_world s') \<and> cur (sy_world s') = cur (sy_world s)"
  by (simp add: keeps_def)

lemma healthyD:
  assumes "healthy R ns name up cur"
  shows "calm_client (rc_client R) ns name up (\<lambda>w. [cur w])" "calm_services R up (\<lambda>w. [cur w])"
    "up w \<Longrightarrow> om_DeletionTimestamp (wf_Meta (cur w)) = None"
    "up w \<Longrightarrow> \<not> cl_ContainsFinalizer (rc_client R) (cur w) workflowFinalizer \<Longrightarrow>
      \<exists>aw' w'. cl_Update (rc_client R) (cl_AddFinalizer (rc_client R) (cur w) workflowFinalizer) w = ((None, aw'), w')
        \<and> up w' \<and> cur w' = aw' \<and> wf_Spec aw' = wf_Spec (cur w) \<and> wf_Status aw' = wf_Status (cur w)"
    "up w \<Longrightarrow> fst (cl_GetWorkflow (rc_client R) ns name w) = Inr (cur w)"
    "up w \<Longrightarrow> \<exists>pods. fst (cl_ListPodsByLabel (rc_client R) n l v w) = Inr pods"
    "\<exists>p'. cl_SetControllerReference (rc_client R) aw p = Inr p'"
    "up w \<Longrightarrow> fst (cl_CreatePod (rc_client R) p w) = Some e \<Longrightarrow> cl_IsAlreadyExists (rc_client R) e"
  using assms unfolding healthy_def Let_def by blast+

lemma update_lands:
  assumes "healthy R ns name up cur" "updates R up (\<lambda>w. [cur w]) s aw' s'" "up (sy_world s)"
    "wf_Meta aw' = wf_Meta (cur (sy_world s))"
  shows "up (sy_world s') \<and> wf_Spec (cur (sy_world s')) = wf_Spec (cur (sy_world s))
    \<and> wf_Status (cur (sy_world s')) = wf_Status aw'"
proof -
  from assms(2) obtain s1 r s2 where u: "keeps up (\<lambda>w. [cur w]) s s1" "k_UpdateStatus (rc_client R) aw' s1 = (r, s2)"
    "keeps up (\<lambda>w. [cur w]) s2 s'" by (auto simp: updates_def)
  note s1 = keeps_single [OF u(1) assms(3)]
  with assms(1,4) obtain aw2 w2 where "cl_UpdateStatus (rc_client R) aw' (sy_world s1) = ((None, aw2), w2)" "up w2"
    "wf_Spec (cur w2) = wf_Spec (cur (sy_world s))" "wf_Status (cur w2) = wf_Status aw'"
    unfolding healthy_def Let_def by metis
  moreover from this(1) u(2) have "sy_world s2 = w2" by (auto simp: k_UpdateStatus_def)
  ultimately show ?thesis using keeps_single [OF u(3)] by simp
qed

lemma createTaskPod_succeeds:
  assumes "healthy R ns name up cur" "up (sy_world s)" "ta_TaskName a \<in> set (task_names (wf_Spec aw))"
  shows "fst (createTaskPod R aw a s) = None"
proof -
  let ?K = "rc_client R" and ?n = "podName (rc_lib R) (om_Name (wf_Meta aw)) (ta_TaskName a)"
  obtain t where t: "find_task (ta_TaskName a) (sp_Tasks (wf_Spec aw)) = Some t"
    using assms(3) find_task_None [of "ta_TaskName a" "sp_Tasks (wf_Spec aw)"] by auto
  obtain r s1 where g: "k_GetPod ?K (om_Namespace (wf_Meta aw)) ?n s = (r, s1)" by fastforce
  have s1: "up (sy_world s1)"
    using keeps_single [OF calm_calls(4) [OF healthyD(1) [OF assms(1)] g] assms(2)] by blast
  obtain pod where pod: "cl_SetControllerReference ?K aw (task_pod (rc_lib R) aw t a) = Inr pod"
    using healthyD(7) [OF assms(1)] by blast
  obtain e s2 where c: "k_CreatePod ?K pod s1 = (e, s2)" by fastforce
  have "e = None \<or> (\<exists>x. e = Some x \<and> cl_IsAlreadyExists ?K x)"
    using healthyD(8) [OF assms(1) s1, of pod] c by (cases e) (auto simp: k_CreatePod_def split: prod.splits)
  with t g pod c show ?thesis by (auto simp: createTaskPod_def Let_def split: sum.split option.split)
qed

lemma spawn_loop_all:
  assumes "healthy R ns name up cur" "up (sy_world s)" "st_TaskStatuses (wf_Status aw) = Some m"
    "\<forall>a \<in> set as. ta_TaskName a \<in> set (task_names (wf_Spec aw))"
  shows "fst (spawn_loop R as aw s) = Some (set_statuses (start_all (rc_lib R) (om_Name (wf_Meta aw)) as m) aw)"
  using assms(2-)
proof (induction as arbitrary: aw m s)
  case Nil
  then show ?case by (simp add: set_statuses_id)
next
  case (Cons a as)
  obtain s1 where c: "createTaskPod R aw a s = (None, s1)"
    using createTaskPod_succeeds [OF assms(1) Cons.prems(1), of a aw] Cons.prems(3) by (cases "createTaskPod R aw a s") auto
  have s1: "up (sy_world s1)"
    using keeps_single [OF createTaskPod_keeps [OF healthyD(1) [OF assms(1)] c] Cons.prems(1)] by blast
  have ev: "up (sy_world (k_Event (rc_client R) x ty re msg s1))" for x ty re msg
    using keeps_single [OF calm_calls(6) [OF healthyD(1) [OF assms(1)]] s1] by blast
  let ?m = "fmupd (ta_TaskName a) (start_task (rc_lib R) aw a) m"
  have "fst (spawn_loop R as (set_statuses ?m aw) (k_Event (rc_client R) x ty re msg s1))
      = Some (set_statuses (start_all (rc_lib R) (om_Name (wf_Meta (set_statuses ?m aw))) as ?m) (set_statuses ?m aw))"
    for x ty re msg
    using Cons.prems(3) by (intro Cons.IH ev) simp_all
  with c Cons.prems(2) show ?case by (simp add: Let_def start_all_Cons start_task_eq)
qed

section \<open>One call\<close>

lemma synced_active:
  assumes "healthy R ns name up cur" "up (sy_world s)" "st_TaskStatuses (wf_Status aw) = Some m" "fair_ranges R"
    "list_pods R aw s = (Inr pods, s0)" "no_failures (synced pods m)"
  obtains s1 where "reconcile_active R aw s = (if all_done (synced pods m)
      then reconcile_completed R (set_statuses (synced pods m) aw) s1 else reconcile_execute R (set_statuses (synced pods m) aw) s1)"
    "up (sy_world s1)" "cur (sy_world s1) = cur (sy_world s)"
proof -
  let ?m = "synced pods m" and ?aw = "set_statuses (synced pods m) aw"
  obtain s1 where l: "sync_loop R pods aw s0 = (?aw, s1)"
    using sync_loop_status [OF assms(3), of R pods s0] by (cases "sync_loop R pods aw s0") auto
  have sy: "syncPodsToStatus R aw s = ((None, ?aw), s1)" by (simp add: syncPodsToStatus_def assms(5) l)
  note s1 = keeps_single [OF sync_keeps [OF healthyD(1,2) [OF assms(1)] sy] assms(2)]
  have ord: "map_order (rc_range R site w)" for site w using assms(4) by (simp add: fair_ranges_def)
  have "first_failed (go_range (rc_range R RangeFailed (sy_world s1)) ?m) = None"
    using assms(6) by (simp add: first_failed_range(1) [OF ord] no_failures_def)
  moreover have "all_succeeded (go_range (rc_range R RangeSucceeded (sy_world s1)) ?m) \<and> go_len ?m > 0 \<longleftrightarrow> all_done ?m"
    by (auto simp: all_succeeded_range [OF ord] all_done_def)
  ultimately have "reconcile_active R aw s = (if all_done ?m then reconcile_completed R ?aw s1 else reconcile_execute R ?aw s1)"
    by (simp add: reconcile_active_def sy)
  with s1 that show ?thesis by blast
qed

text \<open>The state of the stored workflow after a call that wrote it.\<close>

definition stored :: "('w \<Rightarrow> bool) \<Rightarrow> ('w \<Rightarrow> 'q AdaptiveWorkflow) \<Rightarrow> 'q AdaptiveWorkflowSpec \<Rightarrow> WorkflowPhase
    \<Rightarrow> 'q TaskStatuses \<Rightarrow> 'w \<Rightarrow> bool" where
  "stored up cur spec p m w \<longleftrightarrow> up w \<and> wf_Spec (cur w) = spec \<and> st_Phase (wf_Status (cur w)) = p
     \<and> st_TaskStatuses (wf_Status (cur w)) = Some m"

lemma write_stored:
  assumes "healthy R ns name up cur" "status_writes (effects s s') = [aw1]" "updates R up (\<lambda>w. [cur w]) s aw1 s'"
    "wrote aw m p aw'" "one_write aw' (effects s s')" "up (sy_world s)" "wf_Meta aw = wf_Meta (cur (sy_world s))"
  shows "stored up cur (wf_Spec (cur (sy_world s))) p m (sy_world s')"
proof -
  have aw1: "aw1 = aw'" using assms(2,5) by (simp add: one_write_def)
  have "wf_Meta aw1 = wf_Meta (cur (sy_world s))" using assms(4,7) aw1 by (simp add: wrote_def)
  from update_lands [OF assms(1,3,6) this] assms(4) aw1 show ?thesis by (simp add: stored_def wrote_def)
qed

lemma completed_stored:
  assumes "healthy R ns name up cur" "up (sy_world s)" "wf_Meta aw = wf_Meta (cur (sy_world s))"
    "st_TaskStatuses (wf_Status aw) = Some m" "reconcile_completed R aw s = (out, s')"
  shows "stored up cur (wf_Spec (cur (sy_world s))) WorkflowPhaseCompleted m (sy_world s')"
proof -
  from final_updates(3) [OF healthyD(1) [OF assms(1)] assms(5)] obtain aw1 where
    "status_writes (effects s s') = [aw1]" "updates R up (\<lambda>w. [cur w]) s aw1 s'" by blast
  moreover from reconcile_completed_spec [OF assms(5,4)] obtain aw' where
    "wrote aw m WorkflowPhaseCompleted aw'" "one_write aw' (effects s s')" by blast
  ultimately show ?thesis using write_stored [OF assms(1)] assms(2,3) by blast
qed

lemma init_stored:
  assumes "healthy R ns name up cur" "up (sy_world s)" "aw = cur (sy_world s)" "reconcile_init R aw s = (out, s')"
  shows "stored up cur (wf_Spec aw) WorkflowPhasePending (init_statuses fmempty (sp_Tasks (wf_Spec aw))) (sy_world s')"
proof -
  from final_updates(1) [OF healthyD(1) [OF assms(1)] assms(4)] obtain aw1 where
    "status_writes (effects s s') = [aw1]" "updates R up (\<lambda>w. [cur w]) s aw1 s'" by blast
  moreover from reconcile_init_spec [OF assms(4)] obtain aw' where
    "wrote aw (init_statuses fmempty (sp_Tasks (wf_Spec aw))) WorkflowPhasePending aw'" "one_write aw' (effects s s')" by blast
  ultimately show ?thesis using write_stored [OF assms(1)] assms(2,3) by blast
qed

lemma finish_stored:
  assumes "healthy R ns name up cur" "up (sy_world s)" "wf_Meta aw = wf_Meta (cur (sy_world s))"
    "st_TaskStatuses (wf_Status aw) = Some m" "reconcile_finish R aw s = (out, s')"
  shows "stored up cur (wf_Spec (cur (sy_world s))) (st_Phase (wf_Status aw)) m (sy_world s')"
proof -
  from final_updates(4) [OF healthyD(1) [OF assms(1)] assms(5)] obtain aw1 where
    "status_writes (effects s s') = [aw1]" "updates R up (\<lambda>w. [cur w]) s aw1 s'" by blast
  moreover from reconcile_finish_spec [OF assms(5,4)] obtain aw' where
    "wrote aw m (st_Phase (wf_Status aw)) aw'" "one_write aw' (effects s s')" by blast
  ultimately show ?thesis using write_stored [OF assms(1)] assms(2,3) by blast
qed

text \<open>The scheduler of the manager's own process, and an engine that does not panic.\<close>

definition local_scheduler :: "('w, 'q) reconciler \<Rightarrow> 'q golib \<Rightarrow> ('q \<Rightarrow> rat) \<Rightarrow> bool" where
  "local_scheduler R L amt \<longleftrightarrow> quantity_arith L amt \<and> quantity_parses L amt
     \<and> (\<exists>ord. map_order ord \<and> rc_Optimizer R = GreedyOptimizer L ord)
     \<and> (\<forall>spec w. fst (rc_Inference R spec w) \<noteq> None)"

lemma pack_startable:
  "a \<in> set (greedy_pack L amt spec m preds) \<Longrightarrow> \<exists>t \<in> set (sp_Tasks spec). tt_Name t = ta_TaskName a \<and> startable m t"
  unfolding greedy_pack_def by (drule subsetD [OF set_pack]) (auto simp: candidates_def candidate_def)

lemma pack_names: "a \<in> set (greedy_pack L amt spec m preds) \<Longrightarrow> ta_TaskName a \<in> tt_Name ` set (sp_Tasks spec)"
  by (drule pack_startable) force

lemma execute_stored:
  assumes "healthy R ns name up cur" "local_scheduler R L amt" "up (sy_world s)" "wf_Meta aw = wf_Meta (cur (sy_world s))"
    "wf_Spec aw = wf_Spec (cur (sy_world s))" "st_TaskStatuses (wf_Status aw) = Some m" "reconcile_execute R aw s = (out, s')"
  shows "\<exists>preds. engine_preds R (wf_Spec aw) preds \<and> stored up cur (wf_Spec aw) WorkflowPhaseRunning
    (start_all (rc_lib R) (om_Name (wf_Meta aw)) (greedy_pack L amt (wf_Spec aw) m preds) m) (sy_world s')"
proof -
  from assms(2) obtain ord where L: "quantity_arith L amt" "quantity_parses L amt" "map_order ord"
    "rc_Optimizer R = GreedyOptimizer L ord" by (auto simp: local_scheduler_def)
  obtain p w1 where p: "rc_Inference R (wf_Spec aw) (sy_world s) = (Some p, w1)"
    using assms(2) by (cases "rc_Inference R (wf_Spec aw) (sy_world s)") (auto simp: local_scheduler_def, metis fst_conv option.exhaust)
  define preds where "preds = (case p of Inl e \<Rightarrow> fmempty | Inr x \<Rightarrow> x)"
  let ?as = "greedy_pack L amt (wf_Spec aw) m preds" and ?aw = "set_phase WorkflowPhaseRunning aw"
  have plan: "GreedyOptimizer_Plan L ord (wf_Spec aw) m preds = Some (Inr \<lparr> pl_TasksToStart = ?as \<rparr>)"
    by (rule greedy_refines [OF L(1-3)])
  have "calm up (\<lambda>w. [cur w]) (\<lambda>w. snd (rc_Inference R (wf_Spec aw) w))"
    using healthyD(2) [OF assms(1)] by (simp add: calm_services_def)
  with p assms(3) have w1: "up w1" "cur w1 = cur (sy_world s)" by (auto simp: calm_def dest!: spec [of _ "sy_world s"])
  have names: "\<forall>a \<in> set ?as. ta_TaskName a \<in> set (task_names (wf_Spec ?aw))"
    by (simp add: pack_names)
  obtain s3 where sp: "spawn_loop R ?as ?aw (move w1 s)
      = (Some (set_statuses (start_all (rc_lib R) (om_Name (wf_Meta ?aw)) ?as m) ?aw), s3)"
    using spawn_loop_all [OF assms(1) _ _ names, of "move w1 s" m] w1 assms(6)
    by (cases "spawn_loop R ?as ?aw (move w1 s)") (auto simp: move_def)
  have s3: "up (sy_world s3)" "cur (sy_world s3) = cur (sy_world s)"
    using keeps_single [OF spawn_loop_keeps [OF healthyD(1) [OF assms(1)]], of "move w1 s" ?as ?aw] sp w1 by (auto simp: move_def)
  have fin: "reconcile_finish R (set_statuses (start_all (rc_lib R) (om_Name (wf_Meta ?aw)) ?as m) ?aw) s3 = (out, s')"
    using assms(7) p sp plan assms(6)
    by (simp add: reconcile_execute_def Let_def L(4) GreedyOptimizer_def preds_def)
  have "stored up cur (wf_Spec (cur (sy_world s3))) WorkflowPhaseRunning (start_all (rc_lib R) (om_Name (wf_Meta aw)) ?as m) (sy_world s')"
    using finish_stored [OF assms(1) s3(1) _ _ fin] s3(2) assms(4) by simp
  moreover have "engine_preds R (wf_Spec aw) preds" using p by (auto simp: engine_preds_def preds_def)
  ultimately show ?thesis using s3(2) assms(5) by auto
qed

section \<open>The measure\<close>

fun weight :: "TaskPhase option \<Rightarrow> nat" where
  "weight None = 0"
| "weight (Some p) = (if p = TaskPhasePending then 2 else if p = TaskPhaseRunning then 1 else 0)"

definition remaining :: "'q TaskStatuses \<Rightarrow> nat" where
  "remaining m = (\<Sum>n \<in> fmdom' m. weight (phase_of m n))"

text \<open>The status maps of a run without failures: an entry for every task, and none failed.\<close>

definition live :: "'q AdaptiveWorkflowSpec \<Rightarrow> 'q TaskStatuses \<Rightarrow> bool" where
  "live spec m \<longleftrightarrow> fmdom' m = set (task_names spec)
     \<and> (\<forall>n \<in> fmdom' m. phase_of m n \<in> {Some TaskPhasePending, Some TaskPhaseRunning, Some TaskPhaseSucceeded})"

text \<open>The dependency graph: every dependency is a task of the workflow, of smaller rank.\<close>

definition ranked :: "(string \<Rightarrow> nat) \<Rightarrow> 'q AdaptiveWorkflowSpec \<Rightarrow> bool" where
  "ranked rank spec \<longleftrightarrow> (\<forall>t \<in> set (sp_Tasks spec). \<forall>d \<in> set (tt_Dependencies t).
     d \<in> set (task_names spec) \<and> rank d < rank (tt_Name t))"

text \<open>What the listed pods must have come to: no running task failed, and one of them succeeded.\<close>

definition pods_advance :: "'q Pod list \<Rightarrow> 'q TaskStatuses \<Rightarrow> bool" where
  "pods_advance pods m \<longleftrightarrow> (\<forall>n \<in> fmdom' m. phase_of m n = Some TaskPhaseRunning \<longrightarrow> pod_outcome pods n \<noteq> Some TaskPhaseFailed)
     \<and> ((\<exists>n \<in> fmdom' m. phase_of m n = Some TaskPhaseRunning)
        \<longrightarrow> (\<exists>n \<in> fmdom' m. phase_of m n = Some TaskPhaseRunning \<and> pod_outcome pods n = Some TaskPhaseSucceeded))"

lemma phase_dom: "phase_of m n \<noteq> None \<longleftrightarrow> n \<in> fmdom' m"
  by (auto simp: phase_of_def fmlookup_dom'_iff)

lemma weight_step: "phase_step a b \<Longrightarrow> a \<noteq> None \<Longrightarrow> weight b \<le> weight a \<and> (b \<noteq> a \<longrightarrow> weight b < weight a)"
  by (auto simp: phase_step_def)

lemma remaining_step:
  assumes "fmdom' m' = fmdom' m" "\<And>n. phase_step (phase_of m n) (phase_of m' n)"
  shows "remaining m' \<le> remaining m" "\<exists>n \<in> fmdom' m. phase_of m' n \<noteq> phase_of m n \<Longrightarrow> remaining m' < remaining m"
proof -
  have w: "weight (phase_of m' n) \<le> weight (phase_of m n)"
      "phase_of m' n \<noteq> phase_of m n \<Longrightarrow> weight (phase_of m' n) < weight (phase_of m n)" if "n \<in> fmdom' m" for n
    using weight_step [OF assms(2) [of n]] that phase_dom [of m n] by blast+
  then show "remaining m' \<le> remaining m" unfolding remaining_def assms(1) by (intro sum_mono) blast
  show "remaining m' < remaining m" if "\<exists>n \<in> fmdom' m. phase_of m' n \<noteq> phase_of m n"
    using that w unfolding remaining_def assms(1) by (intro sum_strict_mono_ex1) auto
qed

lemma remaining_init: "remaining (init_statuses fmempty (sp_Tasks spec)) \<le> 2 * length (sp_Tasks spec)"
proof -
  have dom: "fmdom' (init_statuses fmempty (sp_Tasks spec)) = tt_Name ` set (sp_Tasks spec)"
    by (auto simp: fmlookup_dom'_iff fmlookup_init split: if_splits)
  have "remaining (init_statuses fmempty (sp_Tasks spec)) = 2 * card (tt_Name ` set (sp_Tasks spec))"
    unfolding remaining_def dom by (simp add: phase_of_init)
  also have "\<dots> \<le> 2 * length (sp_Tasks spec)"
    using le_trans [OF card_image_le card_length] by simp
  finally show ?thesis .
qed

lemma live_init: "live spec (init_statuses fmempty (sp_Tasks spec))"
  by (auto simp: live_def phase_of_init fmlookup_dom'_iff fmlookup_init split: if_splits)

lemma live_synced:
  assumes "live spec m" "pods_advance pods m"
  shows "live spec (synced pods m)" "no_failures (synced pods m)"
proof -
  have p: "phase_of (synced pods m) n \<in> {Some TaskPhasePending, Some TaskPhaseRunning, Some TaskPhaseSucceeded}"
    if "n \<in> fmdom' m" for n
    using assms that pod_outcome_cases [of pods n]
    by (auto simp: live_def pods_advance_def phase_of_synced split: option.split)
  with assms(1) show "live spec (synced pods m)" by (simp add: live_def)
  have "phase_of (synced pods m) n \<noteq> Some TaskPhaseFailed" for n
    using p [of n] phase_dom [of "synced pods m" n] by (cases "n \<in> fmdom' m") auto
  then show "no_failures (synced pods m)" by (simp add: no_failures_def)
qed

lemma synced_decreases:
  assumes "pods_advance pods m"
  shows "remaining (synced pods m) \<le> remaining m"
    "\<exists>n \<in> fmdom' m. phase_of m n = Some TaskPhaseRunning \<Longrightarrow> remaining (synced pods m) < remaining m"
proof -
  show "remaining (synced pods m) \<le> remaining m" by (rule remaining_step(1) [OF fmdom'_synced synced_step])
  assume "\<exists>n \<in> fmdom' m. phase_of m n = Some TaskPhaseRunning"
  with assms obtain n where "n \<in> fmdom' m" "phase_of m n = Some TaskPhaseRunning" "pod_outcome pods n = Some TaskPhaseSucceeded"
    by (auto simp: pods_advance_def)
  then show "remaining (synced pods m) < remaining m"
    by (intro remaining_step(2) [OF fmdom'_synced synced_step] bexI [of _ n]) (simp_all add: phase_of_synced)
qed

lemma fmdom'_start_all: "fmdom' (start_all L wname as m) = fmdom' m \<union> ta_TaskName ` set as"
  by (induction as arbitrary: m) (auto simp: start_all_Cons)

lemma start_decreases:
  fixes m :: "'q TaskStatuses"
  assumes "live spec m" "as = greedy_pack L amt spec m preds"
  shows "live spec (start_all L' wname as m)" "remaining (start_all L' wname as m) \<le> remaining m"
    "as \<noteq> [] \<Longrightarrow> remaining (start_all L' wname as m) < remaining m"
proof -
  have pending: "phase_of m (ta_TaskName a) = Some TaskPhasePending \<and> ta_TaskName a \<in> fmdom' m" if "a \<in> set as" for a
  proof -
    from that assms(2) obtain t where t: "t \<in> set (sp_Tasks spec)" "tt_Name t = ta_TaskName a" "startable m t"
      using pack_startable by blast
    then have "ta_TaskName a \<in> fmdom' m" using assms(1) by (force simp: live_def)
    with t phase_dom [of m "ta_TaskName a"] show ?thesis by (auto simp: startable_def)
  qed
  have dom: "fmdom' (start_all L' wname as m) = fmdom' m" using pending by (auto simp: fmdom'_start_all)
  with assms(1) show "live spec (start_all L' wname as m)" by (auto simp: live_def phase_of_start_all)
  have step: "phase_step (phase_of m n) (phase_of (start_all L' wname as m) n)" for n
    using pending by (auto simp: phase_step_def phase_of_start_all)
  show "remaining (start_all L' wname as m) \<le> remaining m" by (rule remaining_step(1) [OF dom step])
  assume "as \<noteq> []"
  then obtain a where "a \<in> set as" by (cases as) auto
  with pending [of a] show "remaining (start_all L' wname as m) < remaining m"
    by (intro remaining_step(2) [OF dom step] bexI [of _ "ta_TaskName a"]) (auto simp: phase_of_start_all)
qed

text \<open>With nothing running and something left, the least unfinished task may start.\<close>

lemma startable_exists:
  assumes "live spec m" "ranked rank spec" "sp_Tasks spec \<noteq> []" "\<not> all_done m"
    "\<And>n. n \<in> fmdom' m \<Longrightarrow> phase_of m n \<noteq> Some TaskPhaseRunning"
  shows "\<exists>t \<in> set (sp_Tasks spec). startable m t"
proof -
  let ?open = "\<lambda>t. t \<in> set (sp_Tasks spec) \<and> phase_of m (tt_Name t) \<noteq> Some TaskPhaseSucceeded"
  have dom: "fmdom' m = tt_Name ` set (sp_Tasks spec)" using assms(1) by (simp add: live_def)
  with assms(3) have "m \<noteq> fmempty" by auto
  with assms(4) dom obtain t0 where "?open t0" by (auto simp: all_done_def)
  from ex_has_least_nat [of ?open t0 "\<lambda>t. rank (tt_Name t)", OF this]
  obtain t where t: "?open t" "\<And>u. ?open u \<Longrightarrow> rank (tt_Name t) \<le> rank (tt_Name u)" by blast
  have "tt_Name t \<in> fmdom' m" using t(1) dom by simp
  then have "phase_of m (tt_Name t) = Some TaskPhasePending" using assms(1,5) t(1) by (auto simp: live_def)
  moreover have "phase_of m d = Some TaskPhaseSucceeded" if "d \<in> set (tt_Dependencies t)" for d
  proof (rule ccontr)
    assume d: "phase_of m d \<noteq> Some TaskPhaseSucceeded"
    from that t(1) assms(2) have "d \<in> set (task_names spec)" "rank d < rank (tt_Name t)" by (auto simp: ranked_def)
    with d t(2) show False by (auto simp: linorder_not_le [symmetric])
  qed
  ultimately show ?thesis using t(1) by (auto simp: startable_def)
qed

text \<open>Every task fits the workflow's limits when it runs alone, with any prediction of the engine.\<close>

definition fits_alone :: "('w, 'q) reconciler \<Rightarrow> 'q golib \<Rightarrow> ('q \<Rightarrow> rat) \<Rightarrow> 'q AdaptiveWorkflowSpec \<Rightarrow> bool" where
  "fits_alone R L amt spec \<longleftrightarrow> (\<forall>preds. engine_preds R spec preds \<longrightarrow> (\<forall>t \<in> set (sp_Tasks spec).
     \<forall>r \<in> {ResourceCPU, ResourceMemory}.
       fits (amount_of amt (sp_MaxResources spec) r) (alloc_amount amt r (candidate L preds t))))"

lemma idle_usage: "(\<And>n. n \<in> fmdom' m \<Longrightarrow> phase_of m n \<noteq> Some TaskPhaseRunning) \<Longrightarrow> usage_of amt m r = 0"
  unfolding usage_of_def by (intro sum.neutral ballI) (auto simp: phase_of_def fmlookup_dom'_iff)

lemma idle_starts:
  assumes "live spec m" "ranked rank spec" "sp_Tasks spec \<noteq> []" "\<not> all_done m"
    "\<And>n. n \<in> fmdom' m \<Longrightarrow> phase_of m n \<noteq> Some TaskPhaseRunning"
    "fits_alone R L amt spec" "engine_preds R spec preds"
  shows "greedy_pack L amt spec m preds \<noteq> []"
proof -
  from startable_exists [OF assms(1-5)] obtain t where t: "t \<in> set (sp_Tasks spec)" "startable m t" by blast
  then have "candidate L preds t \<in> set (candidates L spec m preds)" by (simp add: candidates_def)
  moreover have idle: "\<forall>r. usage_of amt m r = 0" by (intro allI idle_usage) (rule assms(5))
  moreover have "fits (amount_of amt (sp_MaxResources spec) r) (usage_of amt m r + alloc_amount amt r (candidate L preds t))"
    if "r \<in> {ResourceCPU, ResourceMemory}" for r
    using assms(6,7) t(1) that idle unfolding fits_alone_def by auto
  ultimately show ?thesis unfolding greedy_pack_def by (intro pack_progress) blast+
qed

section \<open>Rounds\<close>

text \<open>The world after one call of the controller, and the pods a call made in world \<open>w\<close> lists.\<close>

definition reconcile_round :: "('w, 'q) reconciler \<Rightarrow> string \<Rightarrow> string \<Rightarrow> 'w \<Rightarrow> 'w" where
  "reconcile_round R ns name w = sy_world (snd (Reconcile R ns name \<lparr> sy_world = w, sy_trace = [] \<rparr>))"

definition seen_pods :: "('w, 'q) reconciler \<Rightarrow> string \<Rightarrow> string \<Rightarrow> 'w \<Rightarrow> 'q Pod list" where
  "seen_pods R ns name w = (case k_GetWorkflow (rc_client R) ns name \<lparr> sy_world = w, sy_trace = [] \<rparr> of
     (Inl e, s1) \<Rightarrow> []
   | (Inr aw, s1) \<Rightarrow> (case ensure_finalizer R aw s1 of
       (Inl e, s2) \<Rightarrow> []
     | (Inr aw1, s2) \<Rightarrow> (case fst (list_pods R aw1 s2) of Inl e \<Rightarrow> [] | Inr pods \<Rightarrow> pods)))"

lemma seen_pods_loaded:
  assumes "loads R ns name \<lparr> sy_world = w, sy_trace = [] \<rparr> aw s1" "list_pods R aw s1 = (Inr pods, s2)"
  shows "seen_pods R ns name w = pods"
  using assms by (auto simp: loads_def seen_pods_def)

text \<open>A call loads the stored workflow, with the finalizer it may just have added.\<close>

lemma healthy_loads:
  assumes "healthy R ns name up cur" "up w"
  obtains aw s1 where "loads R ns name \<lparr> sy_world = w, sy_trace = [] \<rparr> aw s1" "up (sy_world s1)" "cur (sy_world s1) = aw"
    "wf_Spec aw = wf_Spec (cur w)" "wf_Status aw = wf_Status (cur w)"
proof -
  let ?s = "\<lparr> sy_world = w, sy_trace = [] \<rparr> :: ('a, 'b) sys"
  obtain s1 where g: "k_GetWorkflow (rc_client R) ns name ?s = (Inr (cur w), s1)"
    using healthyD(5) [OF assms] by (cases "cl_GetWorkflow (rc_client R) ns name w") (auto simp: k_GetWorkflow_def)
  note s1 = keeps_single [OF calm_calls(1) [OF healthyD(1) [OF assms(1)] g]]
  then have k: "up (sy_world s1)" "cur (sy_world s1) = cur w" using assms(2) by simp_all
  show ?thesis
  proof (cases "cl_ContainsFinalizer (rc_client R) (cur w) workflowFinalizer")
    case True
    then have "ensure_finalizer R (cur w) s1 = (Inr (cur w), s1)" by (simp add: ensure_finalizer_def)
    with g healthyD(3) [OF assms] have "loads R ns name ?s (cur w) s1" by (auto simp: loads_def)
    with k that show ?thesis by blast
  next
    case False
    with healthyD(4) [OF assms(1) k(1)] k(2) obtain aw' w' where
      u: "cl_Update (rc_client R) (cl_AddFinalizer (rc_client R) (cur w) workflowFinalizer) (sy_world s1) = ((None, aw'), w')"
      "up w'" "cur w' = aw'" "wf_Spec aw' = wf_Spec (cur w)" "wf_Status aw' = wf_Status (cur w)" by auto
    then obtain s2 where "ensure_finalizer R (cur w) s1 = (Inr aw', s2)" "sy_world s2 = w'"
      using False by (simp add: ensure_finalizer_def k_Update_def note_effect_def)
    with g healthyD(3) [OF assms] have "loads R ns name ?s aw' s2" by (auto simp: loads_def)
    with u \<open>sy_world s2 = w'\<close> that show ?thesis by metis
  qed
qed

lemma healthy_lists:
  assumes "healthy R ns name up cur" "up (sy_world s)"
  shows "\<exists>pods s1. list_pods R aw s = (Inr pods, s1)"
proof -
  let ?K = "rc_client R"
  obtain r s0 where o: "k_ListPodsByOwner ?K (om_Namespace (wf_Meta aw)) (om_UID (wf_Meta aw)) s = (r, s0)" by fastforce
  have "up (sy_world s0)" using keeps_single [OF calm_calls(2) [OF healthyD(1) [OF assms(1)] o] assms(2)] by blast
  from healthyD(6) [OF assms(1) this] obtain pods where
    "fst (cl_ListPodsByLabel ?K (om_Namespace (wf_Meta aw)) ''adaptive-workflow'' (om_Name (wf_Meta aw)) (sy_world s0)) = Inr pods"
    by blast
  with o show ?thesis
    by (cases r) (auto simp: list_pods_def k_ListPodsByLabel_def split: prod.split)
qed

text \<open>The three kinds of rounds: initialisation, work, and rest after completion.\<close>

lemma round_init:
  assumes "healthy R ns name up cur" "up w" "st_TaskStatuses (wf_Status (cur w)) = None"
  shows "stored up cur (wf_Spec (cur w)) WorkflowPhasePending
    (init_statuses fmempty (sp_Tasks (wf_Spec (cur w)))) (reconcile_round R ns name w)"
proof -
  from healthy_loads [OF assms(1,2)] obtain aw s1 where l: "loads R ns name \<lparr> sy_world = w, sy_trace = [] \<rparr> aw s1"
    "up (sy_world s1)" "cur (sy_world s1) = aw" "wf_Spec aw = wf_Spec (cur w)" "wf_Status aw = wf_Status (cur w)" by blast
  obtain out s' where "reconcile_init R aw s1 = (out, s')" by fastforce
  with init_stored [OF assms(1) l(2) l(3) [symmetric] this] l(4,5) assms(3) show ?thesis
    by (simp add: reconcile_round_def Reconcile_loaded [OF l(1)])
qed

lemma round_completed:
  assumes "healthy R ns name up cur" "stored up cur spec WorkflowPhaseCompleted m w"
  shows "stored up cur spec WorkflowPhaseCompleted m (reconcile_round R ns name w)"
proof -
  from assms(2) have w: "up w" "is_terminal (st_Phase (wf_Status (cur w)))" "st_TaskStatuses (wf_Status (cur w)) \<noteq> None"
    by (auto simp: stored_def is_terminal_def)
  from healthy_loads [OF assms(1) w(1)] obtain aw s1 where l: "loads R ns name \<lparr> sy_world = w, sy_trace = [] \<rparr> aw s1"
    "up (sy_world s1)" "cur (sy_world s1) = aw" "wf_Spec aw = wf_Spec (cur w)" "wf_Status aw = wf_Status (cur w)" by blast
  from l w(2,3) assms(2) show ?thesis by (simp add: reconcile_round_def Reconcile_loaded [OF l(1)] stored_def)
qed

lemma active_decreases:
  assumes "live spec m" "ranked rank spec" "sp_Tasks spec \<noteq> []" "fits_alone R L amt spec"
    "pods_advance pods m" "\<not> all_done (synced pods m)" "engine_preds R spec preds"
    "m' = start_all L' wname (greedy_pack L amt spec (synced pods m) preds) (synced pods m)"
  shows "live spec m' \<and> remaining m' < remaining m"
proof -
  note live' = live_synced(1) [OF assms(1,5)]
  note dec = start_decreases [OF live' refl, where L' = L' and wname = wname and L = L and amt = amt and preds = preds]
  have "remaining m' < remaining m"
  proof (cases "\<exists>n \<in> fmdom' m. phase_of m n = Some TaskPhaseRunning")
    case True
    with synced_decreases(2) [OF assms(5)] dec(2) assms(8) show ?thesis by simp
  next
    case False
    then have "greedy_pack L amt spec (synced pods m) preds \<noteq> []"
      by (intro idle_starts [OF live' assms(2,3,6) _ assms(4,7)]) (auto dest: synced_running)
    with synced_decreases(1) [OF assms(5)] dec(3) assms(8) show ?thesis by simp
  qed
  with dec(1) assms(8) show ?thesis by simp
qed

lemma round_active:
  assumes "healthy R ns name up cur" "local_scheduler R L amt" "fair_ranges R" "live spec m" "ranked rank spec"
    "sp_Tasks spec \<noteq> []" "fits_alone R L amt spec" "stored up cur spec p m w" "\<not> is_terminal p"
    "pods_advance (seen_pods R ns name w) m"
  shows "\<exists>m'. stored up cur spec WorkflowPhaseCompleted m' (reconcile_round R ns name w) \<and> live spec m' \<and> all_done m'
    \<or> stored up cur spec WorkflowPhaseRunning m' (reconcile_round R ns name w) \<and> live spec m' \<and> remaining m' < remaining m"
proof -
  have w: "up w" "wf_Spec (cur w) = spec" "st_Phase (wf_Status (cur w)) = p" "st_TaskStatuses (wf_Status (cur w)) = Some m"
    using assms(8) by (auto simp: stored_def)
  from healthy_loads [OF assms(1) w(1)] obtain aw s1 where l: "loads R ns name \<lparr> sy_world = w, sy_trace = [] \<rparr> aw s1"
    "up (sy_world s1)" "cur (sy_world s1) = aw" "wf_Spec aw = wf_Spec (cur w)" "wf_Status aw = wf_Status (cur w)" by blast
  with w have aw: "wf_Spec aw = spec" "st_Phase (wf_Status aw) = p" "st_TaskStatuses (wf_Status aw) = Some m" by simp_all
  from healthy_lists [OF assms(1) l(2)] obtain pods s0 where ps: "list_pods R aw s1 = (Inr pods, s0)" by blast
  have adv: "pods_advance pods m" using assms(10) seen_pods_loaded [OF l(1) ps] by simp
  let ?aw = "set_statuses (synced pods m) aw"
  from synced_active [OF assms(1) l(2) aw(3) assms(3) ps live_synced(2) [OF assms(4) adv]] obtain s2 where
    act: "reconcile_active R aw s1 = (if all_done (synced pods m) then reconcile_completed R ?aw s2
      else reconcile_execute R ?aw s2)" and s2: "up (sy_world s2)" "cur (sy_world s2) = aw" using l(3) by metis
  have call: "reconcile_round R ns name w = sy_world (snd (reconcile_active R aw s1))"
    using aw(2,3) assms(9) by (simp add: reconcile_round_def Reconcile_loaded [OF l(1)])
  show ?thesis
  proof (cases "all_done (synced pods m)")
    case True
    obtain out s' where c: "reconcile_completed R ?aw s2 = (out, s')" by fastforce
    from completed_stored [OF assms(1) s2(1) _ _ c] s2(2) aw(1) act True c call live_synced(1) [OF assms(4) adv]
    show ?thesis by auto
  next
    case False
    obtain out s' where c: "reconcile_execute R ?aw s2 = (out, s')" by fastforce
    from execute_stored [OF assms(1,2) s2(1) _ _ _ c, of "synced pods m"] s2(2) aw(1) obtain preds where
      "engine_preds R spec preds" "stored up cur spec WorkflowPhaseRunning
        (start_all (rc_lib R) (om_Name (wf_Meta aw)) (greedy_pack L amt spec (synced pods m) preds) (synced pods m)) (sy_world s')"
      by auto
    with active_decreases [OF assms(4-7) adv False _ refl] act False c call show ?thesis by auto
  qed
qed

section \<open>Runs\<close>

text \<open>
  Round \<open>k\<close> of a run \<open>ws\<close>: between the calls the world may change, but not the workflow's
  specification and status, and the pods have advanced when the call comes.
\<close>

definition fair_round :: "('w, 'q) reconciler \<Rightarrow> string \<Rightarrow> string \<Rightarrow> ('w \<Rightarrow> bool) \<Rightarrow> ('w \<Rightarrow> 'q AdaptiveWorkflow)
    \<Rightarrow> (nat \<Rightarrow> 'w) \<Rightarrow> nat \<Rightarrow> bool" where
  "fair_round R ns name up cur ws k \<longleftrightarrow> (\<exists>w. up w \<and> wf_Spec (cur w) = wf_Spec (cur (ws k)) \<and> wf_Status (cur w) = wf_Status (cur (ws k))
     \<and> pods_advance (seen_pods R ns name w) (statuses (cur w)) \<and> ws (Suc k) = reconcile_round R ns name w)"

definition running_left :: "('w \<Rightarrow> bool) \<Rightarrow> ('w \<Rightarrow> 'q AdaptiveWorkflow) \<Rightarrow> 'q AdaptiveWorkflowSpec \<Rightarrow> nat \<Rightarrow> 'w \<Rightarrow> bool" where
  "running_left up cur spec k w \<longleftrightarrow> (\<exists>m. stored up cur spec WorkflowPhaseCompleted m w \<and> live spec m \<and> all_done m
     \<or> (\<exists>p. stored up cur spec p m w \<and> \<not> is_terminal p \<and> live spec m \<and> remaining m \<le> k))"

lemma stored_cong:
  "wf_Spec (cur w') = wf_Spec (cur w) \<Longrightarrow> wf_Status (cur w') = wf_Status (cur w) \<Longrightarrow> up w'
    \<Longrightarrow> stored up cur spec p m w \<Longrightarrow> stored up cur spec p m w'"
  by (simp add: stored_def)

lemma round_left:
  assumes "healthy R ns name up cur" "local_scheduler R L amt" "fair_ranges R" "ranked rank spec"
    "sp_Tasks spec \<noteq> []" "fits_alone R L amt spec" "fair_round R ns name up cur ws k" "running_left up cur spec j (ws k)"
  shows "running_left up cur spec (j - 1) (ws (Suc k))
    \<and> (j = 0 \<longrightarrow> (\<exists>m. stored up cur spec WorkflowPhaseCompleted m (ws (Suc k)) \<and> live spec m \<and> all_done m))"
proof -
  from assms(7) obtain w where w: "up w" "wf_Spec (cur w) = wf_Spec (cur (ws k))" "wf_Status (cur w) = wf_Status (cur (ws k))"
    "pods_advance (seen_pods R ns name w) (statuses (cur w))" "ws (Suc k) = reconcile_round R ns name w"
    by (auto simp: fair_round_def)
  from assms(8) consider m where "stored up cur spec WorkflowPhaseCompleted m w" "live spec m" "all_done m"
    | m p where "stored up cur spec p m w" "\<not> is_terminal p" "live spec m" "remaining m \<le> j"
    unfolding running_left_def using stored_cong [of cur w "ws k" up, OF w(2,3,1)] by blast
  then show ?thesis
  proof cases
    case (1 m)
    from round_completed [OF assms(1) 1(1)] 1(2,3) w(5) show ?thesis by (auto simp: running_left_def)
  next
    case (2 m p)
    then have "statuses (cur w) = m" by (simp add: stored_def statuses_def)
    with w(4) have "pods_advance (seen_pods R ns name w) m" by simp
    from round_active [OF assms(1-3) 2(3) assms(4-6) 2(1,2) this] 2(4) w(5) show ?thesis
      by (fastforce simp: running_left_def is_terminal_def)
  qed
qed

lemma run_left:
  assumes "healthy R ns name up cur" "local_scheduler R L amt" "fair_ranges R" "ranked rank (wf_Spec (cur (ws 0)))"
    "sp_Tasks (wf_Spec (cur (ws 0))) \<noteq> []" "fits_alone R L amt (wf_Spec (cur (ws 0)))"
    "up (ws 0)" "st_TaskStatuses (wf_Status (cur (ws 0))) = None" "\<forall>k < Suc N. fair_round R ns name up cur ws k"
  shows "running_left up cur (wf_Spec (cur (ws 0))) (2 * length (sp_Tasks (wf_Spec (cur (ws 0)))) - N) (ws (Suc N))"
  using assms(9)
proof (induction N)
  case 0
  then obtain w where w: "up w" "wf_Spec (cur w) = wf_Spec (cur (ws 0))" "wf_Status (cur w) = wf_Status (cur (ws 0))"
    "ws 1 = reconcile_round R ns name w" by (auto simp: fair_round_def)
  from round_init [OF assms(1) w(1)] w assms(8) remaining_init live_init show ?case
    unfolding running_left_def by (fastforce simp: is_terminal_def)
next
  case (Suc N)
  then have "running_left up cur (wf_Spec (cur (ws 0))) (2 * length (sp_Tasks (wf_Spec (cur (ws 0)))) - N) (ws (Suc N))"
    "fair_round R ns name up cur ws (Suc N)" by simp_all
  from round_left [OF assms(1-6) this(2,1)] show ?case by simp
qed

lemma run_completes:
  assumes "healthy R ns name up cur" "local_scheduler R L amt" "fair_ranges R"
    and "up (ws 0)" "wf_Spec (cur (ws 0)) = spec" "st_TaskStatuses (wf_Status (cur (ws 0))) = None"
    and "sp_Tasks spec \<noteq> []" "ranked rank spec" "fits_alone R L amt spec"
    and "\<forall>k < N. fair_round R ns name up cur ws k" "2 * length (sp_Tasks spec) + 2 \<le> N"
  shows "\<exists>m. stored up cur spec WorkflowPhaseCompleted m (ws N)
    \<and> (\<forall>t \<in> set (sp_Tasks spec). phase_of m (tt_Name t) = Some TaskPhaseSucceeded)"
proof -
  define M where "M = N - 2"
  have N: "N = Suc (Suc M)" "2 * length (sp_Tasks spec) \<le> M" using assms(11) by (simp_all add: M_def)
  have left: "running_left up cur spec (2 * length (sp_Tasks spec) - M) (ws (Suc M))"
    using run_left [OF assms(1-3), of rank ws M] assms(4-10) N(1) by simp
  have "fair_round R ns name up cur ws (Suc M)" using assms(10) N(1) by simp
  from round_left [OF assms(1-3,8,7,9) this left] N obtain m where
    m: "stored up cur spec WorkflowPhaseCompleted m (ws N)" "live spec m" "all_done m" by auto
  then show ?thesis by (auto simp: live_def all_done_def)
qed

section \<open>Properties\<close>

text \<open>
  C9. Workflows complete. Take a freshly submitted workflow with at least one task, whose
  dependencies are tasks of the workflow without a cycle and each task of which fits the limits alone, the greedy
  scheduler, an engine that does not panic, and a cluster that answers. If between the calls no
  pod of a running task fails and, when tasks are running, one of their pods has succeeded by the
  next call, then after 2n + 2 calls for n tasks, and after any larger number, the stored workflow is Completed
  and every task in it Succeeded.
\<close>

theorem workflow_completes:
  assumes "healthy R ns name up cur" "local_scheduler R L amt" "fair_ranges R"
    and "up (ws 0)" "wf_Spec (cur (ws 0)) = spec" "st_TaskStatuses (wf_Status (cur (ws 0))) = None"
    and "sp_Tasks spec \<noteq> []" "ranked rank spec" "fits_alone R L amt spec"
    and "\<forall>k < N. fair_round R ns name up cur ws k" "2 * length (sp_Tasks spec) + 2 \<le> N"
  shows "st_Phase (wf_Status (cur (ws N))) = WorkflowPhaseCompleted
    \<and> (\<forall>t \<in> set (sp_Tasks spec). phase_of (statuses (cur (ws N))) (tt_Name t) = Some TaskPhaseSucceeded)"
  using run_completes [OF assms] by (auto simp: stored_def statuses_def)

text \<open>
  The in-memory cluster is such a cluster as long as the newest version of the workflow is the one
  asked for. Between the calls all its pods succeed.
\<close>

definition mem_up :: "'q cluster \<Rightarrow> bool" where
  "mem_up w = (case cu_versions w of [] \<Rightarrow> False | aw # _ \<Rightarrow> om_Namespace (wf_Meta aw) = ''ns'' \<and> om_Name (wf_Meta aw) = ''wf''
     \<and> om_DeletionTimestamp (wf_Meta aw) = None)"

definition mem_cur :: "'q cluster \<Rightarrow> 'q AdaptiveWorkflow" where
  "mem_cur w = hd (cu_versions w)"

lemma mem_quiet: "(\<And>w. cu_versions (f w) = cu_versions w) \<Longrightarrow> calm mem_up (\<lambda>w. [mem_cur w]) f"
  by (simp add: calm_def mem_up_def mem_cur_def)

lemma mem_update:
  assumes "mem_up w" "wf_Meta aw = wf_Meta (mem_cur w)"
  shows "\<exists>aw' w'. mem_commit (\<lambda>cur aw. cur \<lparr> wf_Status := wf_Status aw \<rparr>) aw w = ((None, aw'), w') \<and> mem_up w'
    \<and> wf_Spec (mem_cur w') = wf_Spec (mem_cur w) \<and> wf_Status (mem_cur w') = wf_Status aw"
  using assms by (auto simp: mem_commit_def mem_up_def mem_cur_def version_of_def with_version_def Let_def split: list.splits)

lemma mem_healthy: "healthy ex_R ''ns'' ''wf'' mem_up mem_cur"
proof -
  have "calm_client mem_client ''ns'' ''wf'' mem_up (\<lambda>w :: rat cluster. [mem_cur w])"
    unfolding calm_client_def by (intro conjI allI mem_quiet) (simp_all add: mem_client_def mem_Get_def mem_Create_def)
  moreover have "calm_services ex_R mem_up (\<lambda>w. [mem_cur w])"
    unfolding calm_services_def
    by (auto simp: BaselineEngine_def GreedyOptimizer_def NoOpStateDB_def NoOpStateDB_RecordExecution_def intro!: mem_quiet)
  moreover have "om_DeletionTimestamp (wf_Meta (mem_cur w)) = None \<and> fst (cl_GetWorkflow mem_client ''ns'' ''wf'' w) = Inr (mem_cur w)" if "mem_up w" for w :: "rat cluster"
    using that by (auto simp: mem_up_def mem_cur_def mem_client_def mem_Get_def split: list.splits)
  moreover have "\<exists>aw' w'. cl_Update mem_client (cl_AddFinalizer mem_client (mem_cur w) workflowFinalizer) w = ((None, aw'), w')
      \<and> mem_up w' \<and> mem_cur w' = aw' \<and> wf_Spec aw' = wf_Spec (mem_cur w) \<and> wf_Status aw' = wf_Status (mem_cur w)"
    if "mem_up w" for w :: "rat cluster"
    using that by (auto simp: mem_client_def mem_commit_def mem_up_def mem_cur_def version_of_def with_version_def Let_def split: list.splits)
  moreover have "\<exists>aw' w'. cl_UpdateStatus mem_client aw w = ((None, aw'), w') \<and> mem_up w'
      \<and> wf_Spec (mem_cur w') = wf_Spec (mem_cur w) \<and> wf_Status (mem_cur w') = wf_Status aw"
    if "mem_up w" "wf_Meta aw = wf_Meta (mem_cur w)" for aw and w :: "rat cluster"
    using mem_update [OF that] by (simp add: mem_client_def)
  moreover have "cl_IsAlreadyExists mem_client e" if "fst (cl_CreatePod mem_client p w) = Some e" for p e and w :: "rat cluster"
    using that by (auto simp: mem_client_def mem_Create_def split: if_splits)
  moreover have "\<exists>pods. fst (cl_ListPodsByLabel mem_client n l v w) = Inr pods" "\<exists>p'. cl_SetControllerReference mem_client aw p = Inr p'"
    for n l v aw p and w :: "rat cluster" by (simp_all add: mem_client_def)
  ultimately show ?thesis
    unfolding healthy_def Let_def ex_R_simps by (intro conjI) blast+
qed

text \<open>Between the calls the pods of the running tasks succeed.\<close>

definition ex_tick :: "rat cluster \<Rightarrow> rat cluster" where
  "ex_tick w = w \<lparr> cu_pods := map (\<lambda>n. ex_pod n PodSucceeded)
     (filter (\<lambda>n. phase_of (statuses (mem_cur w)) n = Some TaskPhaseRunning) (task_names ex_spec)) \<rparr>"

definition ex_run :: "rat cluster \<Rightarrow> nat \<Rightarrow> rat cluster" where
  "ex_run w k = ((\<lambda>w. reconcile_round ex_R ''ns'' ''wf'' (ex_tick w)) ^^ k) w"

lemma ex_tick_simps [simp]: "mem_cur (ex_tick w) = mem_cur w" "mem_up (ex_tick w) = mem_up w"
  by (simp_all add: ex_tick_def mem_cur_def mem_up_def)

definition ex_new :: "rat cluster \<Rightarrow> bool" where
  "ex_new w \<longleftrightarrow> mem_up w \<and> wf_Spec (mem_cur w) = ex_spec \<and> st_TaskStatuses (wf_Status (mem_cur w)) = None"

lemma ex_newD:
  "ex_new w \<Longrightarrow> mem_up (ex_run w 0)" "ex_new w \<Longrightarrow> wf_Spec (mem_cur (ex_run w 0)) = ex_spec"
  "ex_new w \<Longrightarrow> st_TaskStatuses (wf_Status (mem_cur (ex_run w 0))) = None"
  by (simp_all add: ex_new_def ex_run_def)

lemma ex_outcome: "pod_outcome (map (\<lambda>n. ex_pod n PodSucceeded) ns) n = (if n \<in> set ns \<and> n \<noteq> '''' then Some TaskPhaseSucceeded else None)"
  by (induction ns) (auto simp: ex_pod_def label_of_def task_pod_def Let_def)

lemma ex_seen:
  assumes "mem_up w"
  shows "seen_pods ex_R ''ns'' ''wf'' (ex_tick w) = cu_pods (ex_tick w)"
proof -
  have "mem_up (ex_tick w)" using assms by simp
  from healthy_loads [OF mem_healthy this] obtain aw s1 where l:
    "loads ex_R ''ns'' ''wf'' \<lparr> sy_world = ex_tick w, sy_trace = [] \<rparr> aw s1" "mem_up (sy_world s1)" "mem_cur (sy_world s1) = aw" by blast
  then have aw: "om_Namespace (wf_Meta aw) = ''ns''" "om_Name (wf_Meta aw) = ''wf''"
    by (auto simp: mem_up_def mem_cur_def split: list.splits)
  have pods: "cu_pods (sy_world s1) = cu_pods (ex_tick w)"
    using l(1) by (auto simp: loads_def ensure_finalizer_def k_GetWorkflow_def k_Update_def mem_client_def mem_Get_def mem_commit_def
        move_def note_effect_def Let_def split: list.splits if_splits prod.splits option.splits)
  have "pod_Namespace (ex_pod n p) = ''ns''" "fmlookup (pod_Labels (ex_pod n p)) ''adaptive-workflow'' = Some ''wf''" for n p
    by (simp_all add: ex_pod_def task_pod_def Let_def ex_meta_def)
  then have "\<exists>s2. list_pods ex_R aw s1 = (Inr (cu_pods (ex_tick w)), s2)"
    by (simp add: list_pods_def k_ListPodsByOwner_def k_ListPodsByLabel_def mem_client_def move_def aw pods)
      (simp add: ex_tick_def filter_map comp_def)
  with seen_pods_loaded [OF l(1)] show ?thesis by blast
qed

lemma ex_advance:
  assumes "mem_up w" "\<And>n. phase_of (statuses (mem_cur w)) n = Some TaskPhaseRunning \<Longrightarrow> n \<in> set (task_names ex_spec)"
  shows "pods_advance (seen_pods ex_R ''ns'' ''wf'' (ex_tick w)) (statuses (mem_cur w))"
proof -
  have "'''' \<notin> set (task_names ex_spec)" by (simp add: ex_spec_def ex_task_def)
  then have "pod_outcome (cu_pods (ex_tick w)) n = Some TaskPhaseSucceeded"
    if "phase_of (statuses (mem_cur w)) n = Some TaskPhaseRunning" for n
    using assms(2) [OF that] that by (fastforce simp: ex_tick_def ex_outcome simp del: set_map)
  then show ?thesis by (auto simp: pods_advance_def ex_seen [OF assms(1)])
qed

lemma ex_local: "local_scheduler ex_R rat_lib (\<lambda>q. q)"
  using rat_lib_laws(1,3) map_order_sorted by (auto simp: local_scheduler_def BaselineEngine_def)

lemma ex_fits_alone: "fits_alone ex_R rat_lib (\<lambda>q. q) ex_spec"
proof -
  let ?preds = "baseline_loop fmempty (sp_Tasks ex_spec)"
  have eng: "preds = ?preds" if "engine_preds ex_R ex_spec preds" for preds
    using that by (auto simp: engine_preds_def BaselineEngine_def BaselineEngine_Predict_def)
  have "fits (amount_of (\<lambda>q. q) (sp_MaxResources ex_spec) r) (alloc_amount (\<lambda>q. q) r (candidate rat_lib ?preds t))"
    if "t \<in> set (sp_Tasks ex_spec)" "r \<in> {ResourceCPU, ResourceMemory}" for t r
    using that by (auto simp: ex_spec_def ex_task_def candidate_def resolveResources_def alloc_amount_def amount_of_def fits_def)
  then show ?thesis unfolding fits_alone_def using eng by blast
qed

lemma ex_graph: "ranked (\<lambda>n. if n = ''c'' then 1 else 0) ex_spec" "sp_Tasks ex_spec \<noteq> []"
  by (simp_all add: ranked_def ex_spec_def ex_task_def)

lemma ex_fair: "ex_new w \<Longrightarrow> \<forall>k < N. fair_round ex_R ''ns'' ''wf'' mem_up mem_cur (ex_run w) k"
proof (induction N)
  case 0
  then show ?case by simp
next
  case (Suc N)
  have "mem_up (ex_run w N) \<and> (\<forall>n. phase_of (statuses (mem_cur (ex_run w N))) n = Some TaskPhaseRunning \<longrightarrow> n \<in> set (task_names ex_spec))"
  proof (cases N)
    case 0
    with Suc.prems ex_newD [of w] show ?thesis by (simp add: statuses_def)
  next
    case N: (Suc M)
    from run_left [OF mem_healthy ex_local ex_R_simps(6), of "\<lambda>n. if n = ''c'' then 1 else 0" "ex_run w" M] Suc N ex_graph ex_fits_alone ex_newD [OF Suc.prems]
    have "running_left mem_up mem_cur ex_spec (2 * length (sp_Tasks ex_spec) - M) (ex_run w N)" by simp
    then show ?thesis
      by (auto simp: running_left_def stored_def live_def statuses_def phase_dom [symmetric] simp del: set_map)
  qed
  then have "fair_round ex_R ''ns'' ''wf'' mem_up mem_cur (ex_run w) N"
    unfolding fair_round_def using ex_advance by (intro exI [of _ "ex_tick (ex_run w N)"]) (simp add: ex_run_def)
  with Suc show ?case by (simp add: less_Suc_eq)
qed

lemma ex_enough: "2 * length (sp_Tasks ex_spec) + 2 \<le> 8"
  by (simp add: ex_spec_def)

lemma ex_up: "ex_new w \<Longrightarrow> mem_up (ex_run w 8)"
  using run_completes [OF mem_healthy ex_local ex_R_simps(6) ex_newD ex_graph(2,1) ex_fits_alone ex_fair ex_enough]
  by (auto simp: stored_def)

definition ex_fresh :: "rat cluster" where
  "ex_fresh = \<lparr> cu_versions = [ex_wf [] None], cu_pods = [], cu_clock = 0 \<rparr>"

theorem workflow_completes_witness:
  "st_Phase (wf_Status (mem_cur (ex_run ex_fresh 8))) = WorkflowPhaseCompleted
    \<and> phase_of (statuses (mem_cur (ex_run ex_fresh 8))) ''a'' = Some TaskPhaseSucceeded
    \<and> phase_of (statuses (mem_cur (ex_run ex_fresh 8))) ''c'' = Some TaskPhaseSucceeded"
proof -
  have new: "ex_new ex_fresh" by (simp add: ex_new_def ex_fresh_def mem_up_def mem_cur_def ex_meta_def)
  from workflow_completes [OF mem_healthy ex_local ex_R_simps(6) ex_newD [OF new] ex_graph(2,1) ex_fits_alone ex_fair [OF new] ex_enough]
  show ?thesis by (simp add: ex_spec_def ex_task_def)
qed

end
