(* ===== verification/Lifecycle.thy ===== *)
theory Lifecycle
  imports Liveness Kwf_Properties
begin

text \<open>
  The command line client and the controller on one cluster. The locale \<open>shared_cluster\<close> says what
  ties them together: the client's server keeps the workflows \<open>st w\<close>, and the one called \<open>name\<close> in
  \<open>ns\<close> is the workflow \<open>cur w\<close> the controller reads and writes. Inside it, what \<^verbatim>\<open>kwf submit\<close> leaves
  for the controller, and what \<^verbatim>\<open>kwf status\<close> shows of what the controller wrote.
\<close>

section \<open>One cluster\<close>

locale shared_cluster =
  fixes K :: "('w, 'q, 'cfg) kwf_lib" and st :: "'w \<Rightarrow> 'q store"
    and up :: "'w \<Rightarrow> bool" and cur :: "'w \<Rightarrow> 'q AdaptiveWorkflow" and ns name :: string
  assumes client: "getClient K kc w = (g, w') \<Longrightarrow> st w' = st w \<and> (\<forall>c. g = Inr c \<longrightarrow> api_store c st)"
    and created: "getClient K kc w = (Inr c, w1) \<Longrightarrow> ac_Create c aw w2 = ((None, aw'), w3) \<Longrightarrow>
      om_DeletionTimestamp (wf_Meta aw') = None \<and> st_TaskStatuses (wf_Status aw') = None"
    and files: "kw_ReadFile K path w = (r, w') \<Longrightarrow> st w' = st w"
    and watched: "st w (ns, name) = Some aw \<Longrightarrow> om_DeletionTimestamp (wf_Meta aw) = None \<Longrightarrow> up w \<and> cur w = aw"
    and kept: "up w \<Longrightarrow> st w (ns, name) = Some (cur w)"
begin

lemma new_is_created:
  assumes "api_store c st" "create_or_update c aw w = (s, w')" "submitted s" "st w (key_of aw) = None"
  obtains aw' w1 where "ac_Create c aw w1 = ((None, aw'), w')" "st w1 = st w"
proof -
  obtain g w1 where g: "ac_Get c (om_Namespace (wf_Meta aw)) (om_Name (wf_Meta aw)) w = (g, w1)" by fastforce
  have "g \<noteq> Inr x" for x using api_store_get [OF assms(1), of _ _ w x w1] g assms(4) by auto
  then obtain e where e: "g = Inl e" by (cases g) auto
  obtain x aw' w2 where c: "ac_Create c aw w1 = ((x, aw'), w2)" by (metis surj_pair)
  with g e assms(2,3) have "x = None" "w2 = w'" by (auto simp: create_or_update_def submitted_def split: option.splits)
  with c that api_store_reads(1) [OF assms(1) g] show ?thesis by blast
qed

text \<open>A new workflow is there for the controller, without statuses.\<close>

lemma submit_new:
  assumes "submitCmd K kc ns0 path w = ((None, out), w')" "kw_ReadFile K path w = (Inr data, w0)"
    "document K ns0 data = Some aw" "key_of aw = (ns, name)" "st w (ns, name) = None"
  shows "up w' \<and> wf_Spec (cur w') = wf_Spec aw \<and> st_TaskStatuses (wf_Status (cur w')) = None"
proof -
  from assms(1) obtain data' w1 aw' c w2 s where s: "kw_ReadFile K path w = (Inr data', w1)" "document K ns0 data' = Some aw'"
    "getClient K kc w1 = (Inr c, w2)" "create_or_update c aw' w2 = (s, w')" "submitted s" by (rule submitCmd_ok)
  with assms(2,3) have aw': "aw' = aw" by simp
  have st: "st w2 = st w" "api_store c st" using files [OF s(1)] client [OF s(3)] by simp_all
  have "st w2 (key_of aw') = None" using st(1) assms(4,5) aw' by simp
  from new_is_created [OF st(2) s(4,5) this] aw' obtain new w3 where
    new: "ac_Create c aw w3 = ((None, new), w')" "st w3 = st w2" by blast
  have "st w' (ns, name) = Some new" "wf_Spec new = wf_Spec aw"
    using api_store_create [OF st(2) new(1)] assms(4) by simp_all
  with watched [OF this(1)] created [OF s(3) new(1)] show ?thesis by simp
qed

text \<open>The status command prints the workflow the controller sees.\<close>

lemma status_current:
  assumes "statusCmd K kc ns name w = ((None, out), w')" "up w"
  shows "out = status_text (kw_lib K) (kw_range_usage K) (cur w)"
proof -
  obtain g w1 where g: "getClient K kc w = (g, w1)" by fastforce
  with assms(1) obtain c where c: "g = Inr c" by (cases g) (auto simp: statusCmd_def)
  obtain r w2 where r: "ac_Get c ns name w1 = (r, w2)" by fastforce
  with assms(1) g c obtain aw where aw: "r = Inr aw" by (cases r) (auto simp: statusCmd_def)
  have "api_store c st" "st w1 = st w" using client [OF g] c by simp_all
  with api_store_get [OF this(1), of ns name w1 aw w2] r aw have "st w (ns, name) = Some aw" by simp
  with kept [OF assms(2)] g c r aw assms(1) show ?thesis by (simp add: statusCmd_def)
qed

end

lemma kwf_main_status:
  assumes "kwf_main U files serve cobra args w = ((0, out), w')" "cobra args = CobraRun ''status'' f [name]" "K = kwf_lib.truncate U"
  shows "statusCmd K (kf_kubeconfig f) (kf_namespace f) name w = ((None, out), w')"
  using assms by (auto simp: kwf_main_def rootCmd_Execute_def Let_def ExactArgs1_def split: prod.splits option.splits list.splits)

lemma succeeded_cells: "phase_of m (tt_Name t) = Some TaskPhaseSucceeded \<Longrightarrow> take 2 (task_cells L m t) = [tt_Name t, TaskPhaseSucceeded]"
  by (auto simp: task_cells_def phase_of_def Let_def split: option.splits)

section \<open>The in-memory cluster\<close>

text \<open>The same cluster as the controller's, with the calls of the command line client.\<close>

definition mem_store :: "'q cluster \<Rightarrow> 'q store" where
  "mem_store w = (case cu_versions w of [] \<Rightarrow> Map.empty | aw # _ \<Rightarrow> [key_of aw \<mapsto> aw])"

definition mem_status :: "'q AdaptiveWorkflowStatus" where
  "mem_status = \<lparr> st_Phase = [], st_TaskStatuses = None, st_CurrentResourceUsage = fmempty, st_Conditions = [] \<rparr>"

definition mem_Submit :: "'q AdaptiveWorkflow \<Rightarrow> 'q cluster \<Rightarrow> (go_error option \<times> 'q AdaptiveWorkflow) \<times> 'q cluster" where
  "mem_Submit aw w = (case cu_versions w of
     [] \<Rightarrow> (let new = with_version w (aw \<lparr> wf_Meta := (wf_Meta aw) \<lparr> om_DeletionTimestamp := None \<rparr>, wf_Status := mem_status \<rparr>)
           in ((None, new), w \<lparr> cu_versions := [new] \<rparr>))
   | _ # _ \<Rightarrow> ((Some (Err ''already exists''), aw), w))"

definition mem_Change :: "'q AdaptiveWorkflow \<Rightarrow> 'q cluster \<Rightarrow> (go_error option \<times> 'q AdaptiveWorkflow) \<times> 'q cluster" where
  "mem_Change aw w = (if mem_store w (key_of aw) = None then ((Some (Err ''not found''), aw), w)
     else mem_commit (\<lambda>cur aw. aw \<lparr> wf_Status := wf_Status cur \<rparr>) aw w)"

definition mem_api :: "('q cluster, 'q) api_client" where
  "mem_api = \<lparr> ac_Get = mem_Get, ac_Create = mem_Submit, ac_Update = mem_Change,
     ac_Delete = (\<lambda>ns n w. (None, w \<lparr> cu_versions := [] \<rparr>)), ac_List = (\<lambda>ns w. (Inr (take 1 (cu_versions w)), w)) \<rparr>"

definition mem_kwf :: "(rat cluster, rat, unit) kwf_lib" where
  "mem_kwf = \<lparr> kw_ReadFile = (\<lambda>p w. (Inr ''doc'', w)), kw_DecodeUnstructured = (\<lambda>d. None),
     kw_DecodeWorkflow = (\<lambda>d. Inr (ex_wf [] None \<lparr> wf_Meta := ex_meta \<lparr> om_Finalizers := [] \<rparr> \<rparr>)), kw_ClientConfig = (\<lambda>p w. (Inr (), w)),
     kw_NewClient = (\<lambda>cfg w. (Inr mem_api, w)), kw_Now = (\<lambda>w. (0, w)), kw_lib = rat_lib,
     kw_range_usage = sorted_order, kw_range_statuses = sorted_order \<rparr>"

definition mem_ui :: "(rat cluster, rat, unit) ui_lib" where
  "mem_ui = kwf_lib.extend mem_kwf (ui_lib.fields (\<lambda>b. Inr b) (\<lambda>l. Inr ''[]'') (\<lambda>aw. Inr ''{}''))"

lemma mem_ui_truncate: "kwf_lib.truncate mem_ui = mem_kwf"
  by (simp add: mem_ui_def kwf_lib.defs ui_lib.defs)

lemma mem_kwf_client: "getClient mem_kwf kc w = (Inr mem_api, w)"
  by (simp add: getClient_def mem_kwf_def)

lemma mem_api_store: "api_store (mem_api :: ('q cluster, 'q) api_client) mem_store"
proof -
  have "mem_store w (ns, n) = Some aw \<and> key_of aw = (ns, n) \<and> w' = w" if "mem_Get ns n w = (Inr aw, w')" for ns n aw and w w' :: "'q cluster"
    using that by (auto simp: mem_Get_def mem_store_def split: list.splits if_splits)
  moreover have "w' = w" if "mem_Get ns n w = (r, w')" for ns n r and w w' :: "'q cluster"
    using that by (simp add: mem_Get_def)
  moreover have "mem_store w (key_of aw) = None \<and> mem_store w' = (mem_store w)(key_of aw \<mapsto> aw') \<and> key_of aw' = key_of aw \<and> wf_Spec aw' = wf_Spec aw"
    if "mem_Submit aw w = ((None, aw'), w')" for aw aw' and w w' :: "'q cluster"
    using that by (auto simp: mem_Submit_def mem_store_def with_version_def Let_def split: list.splits)
  moreover have "\<exists>old. mem_store w (key_of aw) = Some old \<and> mem_store w' = (mem_store w)(key_of aw \<mapsto> aw')
      \<and> wf_Spec aw' = wf_Spec aw \<and> wf_Status aw' = wf_Status old"
    if "mem_Change aw w = ((None, aw'), w')" for aw aw' and w w' :: "'q cluster"
    using that by (auto simp: mem_Change_def mem_commit_def mem_store_def with_version_def Let_def split: list.splits if_splits)
  ultimately show ?thesis unfolding api_store_def mem_api_def by simp blast
qed

interpretation mem_shared: shared_cluster mem_kwf mem_store mem_up mem_cur "''ns''" "''wf''"
proof unfold_locales
  fix kc c aw aw' and w w1 w2 w3 :: "rat cluster"
  assume "getClient mem_kwf kc w = (Inr c, w1)" "ac_Create c aw w2 = ((None, aw'), w3)"
  then show "om_DeletionTimestamp (wf_Meta aw') = None \<and> st_TaskStatuses (wf_Status aw') = None"
    by (auto simp: mem_kwf_client mem_api_def mem_Submit_def mem_status_def with_version_def Let_def split: list.splits)
next
  show "mem_store w' = mem_store w" if "kw_ReadFile mem_kwf path w = (r, w')" for path r w w'
    using that by (simp add: mem_kwf_def)
qed (auto simp: mem_kwf_client mem_api_store mem_store_def mem_up_def mem_cur_def split: list.splits if_splits)

end
