(* ===== verification/Stubs.thy ===== *)
theory Stubs
  imports Remote
begin

text \<open>
  The stubs of \<^verbatim>\<open>proto/gen/go\<close> between the clients and the servers: the methods of the generated
  clients, the handlers that decode a request and call the server, the service descriptions and
  their registration. The connection (\<^verbatim>\<open>grpc.ClientConnInterface\<close>) is a parameter; a message it
  carries is one of the six kinds the services exchange. A result \<open>None\<close> stands for a panic.
\<close>

section \<open>Messages and connections\<close>

text \<open>
  \<^verbatim>\<open>Invoke\<close> takes the method, the request and a message to fill with the response, here with the
  content it has before.
\<close>

datatype message =
    PlanRequest pb_PlanRequest | PlanResponse pb_PlanResponse
  | PredictRequest pb_PredictRequest | PredictResponse pb_PredictResponse
  | ReportMetricsRequest pb_ReportMetricsRequest | ReportMetricsResponse pb_ReportMetricsResponse

type_synonym 'w ClientConn = "string \<Rightarrow> message \<Rightarrow> message \<Rightarrow> 'w \<Rightarrow> (go_error option \<times> message) \<times> 'w"

fun same_kind :: "message \<Rightarrow> message \<Rightarrow> bool" where
  "same_kind (PlanRequest _) (PlanRequest _) = True"
| "same_kind (PlanResponse _) (PlanResponse _) = True"
| "same_kind (PredictRequest _) (PredictRequest _) = True"
| "same_kind (PredictResponse _) (PredictResponse _) = True"
| "same_kind (ReportMetricsRequest _) (ReportMetricsRequest _) = True"
| "same_kind (ReportMetricsResponse _) (ReportMetricsResponse _) = True"
| "same_kind _ _ = False"

text \<open>The zero message of each kind, \<^verbatim>\<open>new(PlanRequest)\<close> and so on.\<close>

definition new_PlanRequest :: message where
  "new_PlanRequest = PlanRequest \<lparr> pq_WorkflowName = [], pq_OptimizationGoal = [], pq_Tasks = [], pq_TaskStatuses = fmempty,
     pq_Predictions = fmempty, pq_MaxResources = None, pq_CurrentUsage = None \<rparr>"

definition new_PlanResponse :: message where
  "new_PlanResponse = PlanResponse \<lparr> pr_TasksToStart = [] \<rparr>"

definition new_PredictRequest :: message where
  "new_PredictRequest = PredictRequest \<lparr> pdq_WorkflowName = [], pdq_Tasks = [] \<rparr>"

definition new_PredictResponse :: message where
  "new_PredictResponse = PredictResponse \<lparr> pdr_Predictions = fmempty \<rparr>"

definition new_ReportMetricsRequest :: message where
  "new_ReportMetricsRequest = ReportMetricsRequest \<lparr> rq_WorkflowName = [], rq_TaskMetrics = [] \<rparr>"

definition new_ReportMetricsResponse :: message where
  "new_ReportMetricsResponse = ReportMetricsResponse \<lparr> rp_Accepted = False \<rparr>"

lemmas new_messages = new_PlanRequest_def new_PlanResponse_def new_PredictRequest_def new_PredictResponse_def
  new_ReportMetricsRequest_def new_ReportMetricsResponse_def

section \<open>The clients\<close>

definition OptimizerService_Plan_FullMethodName :: string where
  "OptimizerService_Plan_FullMethodName = ''/adaptive.optimizer.v1.OptimizerService/Plan''"

definition InferenceService_Predict_FullMethodName :: string where
  "InferenceService_Predict_FullMethodName = ''/adaptive.inference.v1.InferenceService/Predict''"

definition InferenceService_ReportMetrics_FullMethodName :: string where
  "InferenceService_ReportMetrics_FullMethodName = ''/adaptive.inference.v1.InferenceService/ReportMetrics''"

text \<open>The message to fill has the type of the response; that it keeps it is Go's typing, here a case that does not arise.\<close>

definition optimizerServiceClient_Plan :: "'w ClientConn \<Rightarrow> pb_PlanRequest \<Rightarrow> 'w \<Rightarrow> (go_error + pb_PlanResponse) \<times> 'w" where
  "optimizerServiceClient_Plan cc req w =
     (case cc OptimizerService_Plan_FullMethodName (PlanRequest req) new_PlanResponse w of
        ((Some err, _), w1) \<Rightarrow> (Inl err, w1)
      | ((None, out), w1) \<Rightarrow> (case out of PlanResponse r \<Rightarrow> Inr r | _ \<Rightarrow> Inl (Err ''bad type''), w1))"

definition inferenceServiceClient_Predict :: "'w ClientConn \<Rightarrow> pb_PredictRequest \<Rightarrow> 'w \<Rightarrow> (go_error + pb_PredictResponse) \<times> 'w" where
  "inferenceServiceClient_Predict cc req w =
     (case cc InferenceService_Predict_FullMethodName (PredictRequest req) new_PredictResponse w of
        ((Some err, _), w1) \<Rightarrow> (Inl err, w1)
      | ((None, out), w1) \<Rightarrow> (case out of PredictResponse r \<Rightarrow> Inr r | _ \<Rightarrow> Inl (Err ''bad type''), w1))"

definition inferenceServiceClient_ReportMetrics :: "'w ClientConn \<Rightarrow> pb_ReportMetricsRequest \<Rightarrow> 'w \<Rightarrow> (go_error + pb_ReportMetricsResponse) \<times> 'w" where
  "inferenceServiceClient_ReportMetrics cc req w =
     (case cc InferenceService_ReportMetrics_FullMethodName (ReportMetricsRequest req) new_ReportMetricsResponse w of
        ((Some err, _), w1) \<Rightarrow> (Inl err, w1)
      | ((None, out), w1) \<Rightarrow> (case out of ReportMetricsResponse r \<Rightarrow> Inr r | _ \<Rightarrow> Inl (Err ''bad type''), w1))"

section \<open>The servers\<close>

type_synonym ('req, 'resp, 'w) rpc_method = "'req \<Rightarrow> 'w \<Rightarrow> (go_error + 'resp) option \<times> 'w"

record 'w OptimizerServiceServer =
  os_Plan :: "(pb_PlanRequest, pb_PlanResponse, 'w) rpc_method"

record 'w InferenceServiceServer =
  is_Predict :: "(pb_PredictRequest, pb_PredictResponse, 'w) rpc_method"
  is_ReportMetrics :: "(pb_ReportMetricsRequest, pb_ReportMetricsResponse, 'w) rpc_method"

definition Unimplemented :: "string \<Rightarrow> ('req, 'resp, 'w) rpc_method" where
  "Unimplemented m req w = (Some (Inl (Err (''rpc error: code = Unimplemented desc = method '' @ m @ '' not implemented''))), w)"

definition UnimplementedOptimizerServiceServer :: "'w OptimizerServiceServer" where
  "UnimplementedOptimizerServiceServer = \<lparr> os_Plan = Unimplemented ''Plan'' \<rparr>"

definition UnimplementedInferenceServiceServer :: "'w InferenceServiceServer" where
  "UnimplementedInferenceServiceServer = \<lparr> is_Predict = Unimplemented ''Predict'', is_ReportMetrics = Unimplemented ''ReportMetrics'' \<rparr>"

text \<open>
  A handler gets the server as \<^verbatim>\<open>interface{}\<close>, a function that decodes the request into a message, and the
  interceptor of the process if there is one. Type assertions that fail panic.
\<close>

datatype 'w any_server = AnyOptimizer "'w OptimizerServiceServer" | AnyInference "'w InferenceServiceServer"

type_synonym 'w unary = "(message, message, 'w) rpc_method"
type_synonym 'w interceptor = "message \<Rightarrow> string \<Rightarrow> 'w unary \<Rightarrow> 'w \<Rightarrow> (go_error + message) option \<times> 'w"
type_synonym 'w method_handler = "'w any_server \<Rightarrow> (message \<Rightarrow> go_error option \<times> message) \<Rightarrow> 'w interceptor option
  \<Rightarrow> 'w \<Rightarrow> (go_error + message) option \<times> 'w"

definition call_Plan :: "'w any_server \<Rightarrow> 'w unary" where
  "call_Plan srv req w = (case (srv, req) of
     (AnyOptimizer s, PlanRequest r) \<Rightarrow> apfst (map_option (map_sum id PlanResponse)) (os_Plan s r w) | _ \<Rightarrow> (None, w))"

definition call_Predict :: "'w any_server \<Rightarrow> 'w unary" where
  "call_Predict srv req w = (case (srv, req) of
     (AnyInference s, PredictRequest r) \<Rightarrow> apfst (map_option (map_sum id PredictResponse)) (is_Predict s r w) | _ \<Rightarrow> (None, w))"

definition call_ReportMetrics :: "'w any_server \<Rightarrow> 'w unary" where
  "call_ReportMetrics srv req w = (case (srv, req) of
     (AnyInference s, ReportMetricsRequest r) \<Rightarrow> apfst (map_option (map_sum id ReportMetricsResponse)) (is_ReportMetrics s r w)
   | _ \<Rightarrow> (None, w))"

definition OptimizerService_Plan_Handler :: "'w method_handler" where
  "OptimizerService_Plan_Handler srv dec ic w = (case dec new_PlanRequest of
     (Some err, _) \<Rightarrow> (Some (Inl err), w)
   | (None, req) \<Rightarrow> (case ic of
       None \<Rightarrow> call_Plan srv req w
     | Some f \<Rightarrow> f req OptimizerService_Plan_FullMethodName (call_Plan srv) w))"

definition InferenceService_Predict_Handler :: "'w method_handler" where
  "InferenceService_Predict_Handler srv dec ic w = (case dec new_PredictRequest of
     (Some err, _) \<Rightarrow> (Some (Inl err), w)
   | (None, req) \<Rightarrow> (case ic of
       None \<Rightarrow> call_Predict srv req w
     | Some f \<Rightarrow> f req InferenceService_Predict_FullMethodName (call_Predict srv) w))"

definition InferenceService_ReportMetrics_Handler :: "'w method_handler" where
  "InferenceService_ReportMetrics_Handler srv dec ic w = (case dec new_ReportMetricsRequest of
     (Some err, _) \<Rightarrow> (Some (Inl err), w)
   | (None, req) \<Rightarrow> (case ic of
       None \<Rightarrow> call_ReportMetrics srv req w
     | Some f \<Rightarrow> f req InferenceService_ReportMetrics_FullMethodName (call_ReportMetrics srv) w))"

record 'w ServiceDesc =
  sd_ServiceName :: string
  sd_Methods :: "(string \<times> 'w method_handler) list"
  sd_Metadata :: string

definition OptimizerService_ServiceDesc :: "'w ServiceDesc" where
  "OptimizerService_ServiceDesc = \<lparr> sd_ServiceName = ''adaptive.optimizer.v1.OptimizerService'',
     sd_Methods = [(''Plan'', OptimizerService_Plan_Handler)], sd_Metadata = ''proto/optimizer.proto'' \<rparr>"

definition InferenceService_ServiceDesc :: "'w ServiceDesc" where
  "InferenceService_ServiceDesc = \<lparr> sd_ServiceName = ''adaptive.inference.v1.InferenceService'',
     sd_Methods = [(''Predict'', InferenceService_Predict_Handler), (''ReportMetrics'', InferenceService_ReportMetrics_Handler)],
     sd_Metadata = ''proto/inference.proto'' \<rparr>"

text \<open>Registration, with the registrar of the library as a parameter.\<close>

type_synonym 'w registry = "('w ServiceDesc \<times> 'w any_server) list"

definition RegisterOptimizerServiceServer :: "('w ServiceDesc \<Rightarrow> 'w any_server \<Rightarrow> 's \<Rightarrow> 's) \<Rightarrow> 's \<Rightarrow> 'w OptimizerServiceServer \<Rightarrow> 's" where
  "RegisterOptimizerServiceServer register s srv = register OptimizerService_ServiceDesc (AnyOptimizer srv) s"

definition RegisterInferenceServiceServer :: "('w ServiceDesc \<Rightarrow> 'w any_server \<Rightarrow> 's \<Rightarrow> 's) \<Rightarrow> 's \<Rightarrow> 'w InferenceServiceServer \<Rightarrow> 's" where
  "RegisterInferenceServiceServer register s srv = register InferenceService_ServiceDesc (AnyInference srv) s"

section \<open>What a connection promises\<close>

text \<open>
  Of gRPC: a call that returns without an error was carried out by the handler registered for its
  method at a server without interceptor, which could decode the request into a message of its
  kind, and the message filled has the content the handler returned. Nothing is said of a
  call that fails.
\<close>

definition carried_out :: "'w registry \<Rightarrow> string \<Rightarrow> message \<Rightarrow> message \<Rightarrow> bool" where
  "carried_out reg m req out \<longleftrightarrow> (\<exists>d srv n h dec w1 w2. (d, srv) \<in> set reg \<and> (n, h) \<in> set (sd_Methods d)
     \<and> m = ''/'' @ sd_ServiceName d @ ''/'' @ n \<and> (\<forall>z. same_kind z req \<longrightarrow> dec z = (None, req))
     \<and> h srv dec None w1 = (Some (Inr out), w2))"

definition connected :: "'w ClientConn \<Rightarrow> 'w registry \<Rightarrow> bool" where
  "connected cc reg \<longleftrightarrow> (\<forall>m req new w out w'. cc m req new w = ((None, out), w') \<longrightarrow> same_kind new out \<and> carried_out reg m req out)"

lemma connectedD: "connected cc reg \<Longrightarrow> cc m req new w = ((None, out), w') \<Longrightarrow> carried_out reg m req out"
  unfolding connected_def by blast

text \<open>A registry with the services of the repository, one of them or both.\<close>

abbreviation (input) services :: "'w OptimizerServiceServer \<Rightarrow> 'w InferenceServiceServer \<Rightarrow> ('w ServiceDesc \<times> 'w any_server) set" where
  "services osrv isrv \<equiv> {(OptimizerService_ServiceDesc, AnyOptimizer osrv), (InferenceService_ServiceDesc, AnyInference isrv)}"

lemmas method_names = OptimizerService_Plan_FullMethodName_def InferenceService_Predict_FullMethodName_def
  InferenceService_ReportMetrics_FullMethodName_def

lemmas service_descs = OptimizerService_ServiceDesc_def InferenceService_ServiceDesc_def

text \<open>The full name of a method leads to its own handler and to no other.\<close>

definition handler_of :: "'w OptimizerServiceServer \<Rightarrow> 'w InferenceServiceServer \<Rightarrow> string \<Rightarrow> 'w method_handler \<times> 'w any_server" where
  "handler_of osrv isrv m = (if m = OptimizerService_Plan_FullMethodName then (OptimizerService_Plan_Handler, AnyOptimizer osrv)
     else (if m = InferenceService_Predict_FullMethodName then InferenceService_Predict_Handler
       else InferenceService_ReportMetrics_Handler, AnyInference isrv))"

lemma handler_of_simps [simp]:
  "handler_of osrv isrv OptimizerService_Plan_FullMethodName = (OptimizerService_Plan_Handler, AnyOptimizer osrv)"
  "handler_of osrv isrv InferenceService_Predict_FullMethodName = (InferenceService_Predict_Handler, AnyInference isrv)"
  "handler_of osrv isrv InferenceService_ReportMetrics_FullMethodName = (InferenceService_ReportMetrics_Handler, AnyInference isrv)"
  by (simp_all add: handler_of_def method_names)

lemma registered_method:
  assumes "(d, srv) \<in> set reg" "set reg \<subseteq> services osrv isrv" "(n, h) \<in> set (sd_Methods d)"
  shows "(h, srv) = handler_of osrv isrv (''/'' @ sd_ServiceName d @ ''/'' @ n)"
proof -
  from assms(1,2) consider "d = OptimizerService_ServiceDesc" "srv = AnyOptimizer osrv"
    | "d = InferenceService_ServiceDesc" "srv = AnyInference isrv" by blast
  then show ?thesis using assms(3) by cases (auto simp: service_descs handler_of_def method_names)
qed

lemma carried_out_handler:
  assumes "carried_out reg m req out" "set reg \<subseteq> services osrv isrv" "handler_of osrv isrv m = (h, srv)"
  obtains dec w1 w2 where "\<And>z. same_kind z req \<Longrightarrow> dec z = (None, req)" "h srv dec None w1 = (Some (Inr out), w2)"
proof -
  from assms(1) obtain d srv' n h' dec w1 w2 where "(d, srv') \<in> set reg" "(n, h') \<in> set (sd_Methods d)"
    "m = ''/'' @ sd_ServiceName d @ ''/'' @ n" "\<forall>z. same_kind z req \<longrightarrow> dec z = (None, req)"
    "h' srv' dec None w1 = (Some (Inr out), w2)" unfolding carried_out_def by blast
  with that registered_method [OF _ assms(2), of d srv' n h'] assms(3) show ?thesis by (metis prod.inject)
qed

lemma map_sum_Inr: "map_sum id f z = Inr out \<longleftrightarrow> (\<exists>r. z = Inr r \<and> f r = out)"
  by (cases z) simp_all

lemma carried_out_Plan:
  assumes "carried_out reg OptimizerService_Plan_FullMethodName (PlanRequest req) out" "set reg \<subseteq> services osrv isrv"
  shows "\<exists>resp w1 w2. out = PlanResponse resp \<and> os_Plan osrv req w1 = (Some (Inr resp), w2)"
proof -
  from carried_out_handler [OF assms handler_of_simps(1)] obtain dec w1 w2 where "\<And>z. same_kind z (PlanRequest req) \<Longrightarrow> dec z = (None, PlanRequest req)"
    "OptimizerService_Plan_Handler (AnyOptimizer osrv) dec None w1 = (Some (Inr out), w2)" by blast
  moreover have "same_kind new_PlanRequest (PlanRequest req)" by (simp add: new_messages)
  ultimately have "dec new_PlanRequest = (None, PlanRequest req)" "OptimizerService_Plan_Handler (AnyOptimizer osrv) dec None w1 = (Some (Inr out), w2)"
    by blast+
  then show ?thesis by (cases "os_Plan osrv req w1") (auto simp: OptimizerService_Plan_Handler_def call_Plan_def map_sum_Inr)
qed

lemma carried_out_Predict:
  assumes "carried_out reg InferenceService_Predict_FullMethodName (PredictRequest req) out" "set reg \<subseteq> services osrv isrv"
  shows "\<exists>resp w1 w2. out = PredictResponse resp \<and> is_Predict isrv req w1 = (Some (Inr resp), w2)"
proof -
  from carried_out_handler [OF assms handler_of_simps(2)] obtain dec w1 w2 where "\<And>z. same_kind z (PredictRequest req) \<Longrightarrow> dec z = (None, PredictRequest req)"
    "InferenceService_Predict_Handler (AnyInference isrv) dec None w1 = (Some (Inr out), w2)" by blast
  moreover have "same_kind new_PredictRequest (PredictRequest req)" by (simp add: new_messages)
  ultimately have "dec new_PredictRequest = (None, PredictRequest req)" "InferenceService_Predict_Handler (AnyInference isrv) dec None w1 = (Some (Inr out), w2)"
    by blast+
  then show ?thesis by (cases "is_Predict isrv req w1") (auto simp: InferenceService_Predict_Handler_def call_Predict_def map_sum_Inr)
qed

lemma carried_out_ReportMetrics:
  assumes "carried_out reg InferenceService_ReportMetrics_FullMethodName (ReportMetricsRequest req) out" "set reg \<subseteq> services osrv isrv"
  shows "\<exists>resp w1 w2. out = ReportMetricsResponse resp \<and> is_ReportMetrics isrv req w1 = (Some (Inr resp), w2)"
proof -
  from carried_out_handler [OF assms handler_of_simps(3)] obtain dec w1 w2 where "\<And>z. same_kind z (ReportMetricsRequest req) \<Longrightarrow> dec z = (None, ReportMetricsRequest req)"
    "InferenceService_ReportMetrics_Handler (AnyInference isrv) dec None w1 = (Some (Inr out), w2)" by blast
  moreover have "same_kind new_ReportMetricsRequest (ReportMetricsRequest req)" by (simp add: new_messages)
  ultimately have "dec new_ReportMetricsRequest = (None, ReportMetricsRequest req)" "InferenceService_ReportMetrics_Handler (AnyInference isrv) dec None w1 = (Some (Inr out), w2)"
    by blast+
  then show ?thesis
    by (cases "is_ReportMetrics isrv req w1") (auto simp: InferenceService_ReportMetrics_Handler_def call_ReportMetrics_def map_sum_Inr)
qed


text \<open>A connection within the process: it looks the method up and hands over the message.\<close>

definition hand_over :: "message \<Rightarrow> message \<Rightarrow> go_error option \<times> message" where
  "hand_over req z = (if same_kind z req then (None, req) else (Some (Err ''cannot unmarshal''), z))"

definition find_method :: "'w registry \<Rightarrow> string \<Rightarrow> ('w any_server \<times> 'w method_handler) option" where
  "find_method reg m = map_of (concat (map (\<lambda>(d, srv). map (\<lambda>(n, h). (''/'' @ sd_ServiceName d @ ''/'' @ n, srv, h)) (sd_Methods d)) reg)) m"

definition in_process :: "'w registry \<Rightarrow> 'w ClientConn" where
  "in_process reg m req new w = (case find_method reg m of
     None \<Rightarrow> ((Some (Err ''unknown method''), new), w)
   | Some (srv, h) \<Rightarrow> (case h srv (hand_over req) None w of
       (Some (Inr out), w1) \<Rightarrow> if same_kind new out then ((None, out), w1) else ((Some (Err ''cannot unmarshal''), new), w1)
     | (Some (Inl err), w1) \<Rightarrow> ((Some err, new), w1)
     | (None, w1) \<Rightarrow> ((Some (Err ''connection lost''), new), w1)))"

lemma in_process_connected: "connected (in_process reg) reg"
proof (unfold connected_def, intro allI impI)
  fix m req new w out w'
  assume "in_process reg m req new w = ((None, out), w')"
  then obtain srv h where h: "find_method reg m = Some (srv, h)" "h srv (hand_over req) None w = (Some (Inr out), w')" "same_kind new out"
    by (auto simp: in_process_def split: option.splits prod.splits sum.splits if_splits)
  from map_of_SomeD [OF h(1) [unfolded find_method_def]] obtain d n where
    "(d, srv) \<in> set reg" "(n, h) \<in> set (sd_Methods d)" "m = ''/'' @ sd_ServiceName d @ ''/'' @ n" by auto
  moreover have "\<forall>z. same_kind z req \<longrightarrow> hand_over req z = (None, req)" by (simp add: hand_over_def)
  ultimately show "same_kind new out \<and> carried_out reg m req out" using h(2,3) unfolding carried_out_def by blast
qed

definition ex_optimizer :: "unit OptimizerServiceServer" where
  "ex_optimizer = \<lparr> os_Plan = \<lambda>req w. (Some (Inr \<lparr> pr_TasksToStart = [] \<rparr>), w) \<rparr>"

definition ex_request :: pb_PlanRequest where
  "ex_request = \<lparr> pq_WorkflowName = ''wf'', pq_OptimizationGoal = [], pq_Tasks = [], pq_TaskStatuses = fmempty,
     pq_Predictions = fmempty, pq_MaxResources = None, pq_CurrentUsage = None \<rparr>"

definition ex_registry :: "unit registry" where
  "ex_registry = RegisterOptimizerServiceServer (\<lambda>d srv s. s @ [(d, srv)]) [] ex_optimizer"

lemma ex_registry_Plan: "optimizerServiceClient_Plan (in_process ex_registry) ex_request () = (Inr \<lparr> pr_TasksToStart = [] \<rparr>, ())"
  by (simp add: optimizerServiceClient_Plan_def in_process_def find_method_def ex_registry_def RegisterOptimizerServiceServer_def
      service_descs method_names OptimizerService_Plan_Handler_def hand_over_def new_messages call_Plan_def ex_optimizer_def)


section \<open>The optimizer behind its stubs\<close>

text \<open>
  So the law \<open>served_by\<close> that the contracts of the remote optimizer ask for holds of the client stub on a connection
  to the Go server, and a controller on it has a scheduler that starts only tasks that may start.
\<close>

definition go_optimizer :: "(pb_PlanRequest \<Rightarrow> (go_error + pb_PlanResponse) option) \<Rightarrow> 'w OptimizerServiceServer" where
  "go_optimizer plan = \<lparr> os_Plan = \<lambda>req w. (plan req, w) \<rparr>"

lemma stub_served_by:
  assumes "connected cc (RegisterOptimizerServiceServer (\<lambda>d srv s. s @ [(d, srv)]) [] (go_optimizer plan))"
  shows "served_by (optimizerServiceClient_Plan cc) plan"
  unfolding served_by_def
proof (intro allI impI)
  fix req w resp w'
  assume "optimizerServiceClient_Plan cc req w = (Inr resp, w')"
  then have "cc OptimizerService_Plan_FullMethodName (PlanRequest req) new_PlanResponse w = ((None, PlanResponse resp), w')"
    by (auto simp: optimizerServiceClient_Plan_def split: prod.splits option.splits message.splits)
  from carried_out_Plan [OF connectedD [OF assms this], of "go_optimizer plan"]
  show "plan req = Some (Inr resp)" by (auto simp: RegisterOptimizerServiceServer_def go_optimizer_def)
qed

lemma stub_task_optimizer:
  assumes "connected cc (RegisterOptimizerServiceServer (\<lambda>d srv s. s @ [(d, srv)]) []
      (go_optimizer (optimizerServer_Plan L' o1 o2 (GreedyOptimizer_Plan L' o3))))"
    and "map_order o1" "map_order ords"
  shows "task_optimizer (OptimizerClient_Plan L ords ordp (optimizerServiceClient_Plan cc))"
  by (rule go_service.client_task_optimizer [OF assms(2,3) stub_served_by [OF assms(1)]])

end
