(* ===== verification/Front_End.thy ===== *)
theory Front_End
  imports Kwf_Ui
begin

text \<open>
  The state and the handlers of the dashboard page, \<^verbatim>\<open>ui/src/App.tsx\<close>: the form with its tasks, the
  YAML document it generates, submission and polling, and the layouts of the simulation. The
  component's state is a record and a handler a function on it; one handler runs after the other. The
  markup is left out. JavaScript strings are taken in their UTF-8 form, numbers are the integers the
  page computes with and \<^verbatim>\<open>NaN\<close>. \<^verbatim>\<open>fetch\<close> is a parameter on requests of the kind the server
  of \<^verbatim>\<open>cmd/kwf/ui.go\<close> takes, and so is the parser of \<^verbatim>\<open>res.json()\<close>.
\<close>

section \<open>What the page uses of JavaScript\<close>

text \<open>The white space \<^verbatim>\<open>trim\<close> removes, each in UTF-8.\<close>

definition js_white :: "string list" where
  "js_white = [[CHR 0x09], [CHR 0x0A], [CHR 0x0B], [CHR 0x0C], [CHR 0x0D], [CHR 0x20]]
     @ [[CHR 0xC2, CHR 0xA0], [CHR 0xE1, CHR 0x9A, CHR 0x80]]
     @ map (\<lambda>n. [CHR 0xE2, CHR 0x80, char_of n]) [0x80 ..< 0x8B :: nat]
     @ [[CHR 0xE2, CHR 0x80, CHR 0xA8], [CHR 0xE2, CHR 0x80, CHR 0xA9], [CHR 0xE2, CHR 0x80, CHR 0xAF],
        [CHR 0xE2, CHR 0x81, CHR 0x9F], [CHR 0xE3, CHR 0x80, CHR 0x80], [CHR 0xEF, CHR 0xBB, CHR 0xBF]]"

lemma js_white_nonempty: "p \<in> set js_white \<Longrightarrow> p \<noteq> []"
  by (auto simp: js_white_def)

function js_trim_start :: "string \<Rightarrow> string" where
  "js_trim_start s = (case find (\<lambda>p. prefix p s) js_white of
     None \<Rightarrow> s | Some p \<Rightarrow> js_trim_start (drop (length p) s))"
  by pat_completeness auto
termination
proof (relation "measure length", simp)
  fix s p
  assume "find (\<lambda>p. prefix p s) js_white = Some p"
  then have "p \<in> set js_white" "prefix p s" by (auto simp: find_Some_iff)
  then show "(drop (length p) s, s) \<in> measure length"
    using js_white_nonempty by (cases s; cases p) auto
qed

declare js_trim_start.simps [simp del]

text \<open>From the end: the same on the reversed text.\<close>

function js_trim_rev :: "string \<Rightarrow> string" where
  "js_trim_rev s = (case find (\<lambda>p. prefix (rev p) s) js_white of
     None \<Rightarrow> s | Some p \<Rightarrow> js_trim_rev (drop (length p) s))"
  by pat_completeness auto
termination
proof (relation "measure length", simp)
  fix s p
  assume "find (\<lambda>p. prefix (rev p) s) js_white = Some p"
  then have "p \<in> set js_white" "prefix (rev p) s" by (auto simp: find_Some_iff)
  then show "(drop (length p) s, s) \<in> measure length"
    using js_white_nonempty by (cases s; cases p) auto
qed

declare js_trim_rev.simps [simp del]

definition js_trim :: "string \<Rightarrow> string" where
  "js_trim s = rev (js_trim_rev (rev (js_trim_start s)))"

definition js_join :: "string \<Rightarrow> string list \<Rightarrow> string" where
  "js_join sep ls = concat (map (\<lambda>l. l @ sep) (butlast ls)) @ (if ls = [] then [] else last ls)"

text \<open>\<^verbatim>\<open>JSON.stringify\<close> of a string.\<close>

definition js_json_char :: "char \<Rightarrow> string" where
  "js_json_char c = (let b = byte_of c in
     if c = CHR 0x22 \<or> c = CHR 0x5C then [CHR 0x5C, c]
     else if b = 0x08 then [CHR 0x5C] @ ''b''
     else if b = 0x0C then [CHR 0x5C] @ ''f''
     else if b = 0x0A then [CHR 0x5C] @ ''n''
     else if b = 0x0D then [CHR 0x5C] @ ''r''
     else if b = 0x09 then [CHR 0x5C] @ ''t''
     else if b < 0x20 then [CHR 0x5C] @ ''u00'' @ [hex_digit (b div 16), hex_digit b]
     else [c])"

definition js_json_string :: "string \<Rightarrow> string" where
  "js_json_string s = [CHR 0x22] @ concat (map js_json_char s) @ [CHR 0x22]"

section \<open>The state\<close>

record TaskDef =
  td_id :: int
  td_name :: string
  td_image :: string
  td_command :: string
  td_dependencies :: string

datatype notice = Success string | Failure string

datatype app_tab = Builder | Yaml

record 'item app_state =
  ap_workflows :: "'item list"
  ap_message :: "notice option"
  ap_activeTab :: app_tab
  ap_yamlInput :: string
  ap_wfName :: string
  ap_wfGoal :: string
  ap_tasks :: "TaskDef list"
  ap_showSimulation :: bool

definition first_task :: "int \<Rightarrow> string \<Rightarrow> string \<Rightarrow> TaskDef" where
  "first_task i n deps = \<lparr> td_id = i, td_name = n, td_image = ''python:3.12-slim'',
     td_command = ''python -c '' @ [CHR 0x22] @ ''print(1)'' @ [CHR 0x22], td_dependencies = deps \<rparr>"

definition app_init :: "'item app_state" where
  "app_init = \<lparr> ap_workflows = [], ap_message = None, ap_activeTab = Builder, ap_yamlInput = [],
     ap_wfName = ''my-workflow'', ap_wfGoal = ''MinimizeTime'',
     ap_tasks = [first_task 1 ''ingest-data'' [], first_task 2 ''clean-data'' ''ingest-data'',
       first_task 3 ''train-model-a'' ''clean-data'', first_task 4 ''train-model-b'' ''clean-data'',
       first_task 5 ''train-model-c'' ''clean-data'',
       first_task 6 ''evaluate'' ''train-model-a, train-model-b, train-model-c''],
     ap_showSimulation = False \<rparr>"

section \<open>The form\<close>

text \<open>\<open>now\<close> is the value of \<^verbatim>\<open>Date.now()\<close>.\<close>

definition addTask :: "int \<Rightarrow> 'item app_state \<Rightarrow> 'item app_state" where
  "addTask now a = a\<lparr> ap_tasks := ap_tasks a @ [\<lparr> td_id = now,
     td_name = ''task-'' @ dec_int (int (length (ap_tasks a)) + 1), td_image = ''python:3.12-slim'',
     td_command = ''echo '' @ [CHR 0x22] @ ''hello'' @ [CHR 0x22], td_dependencies = [] \<rparr>] \<rparr>"

definition updateTask :: "int \<Rightarrow> (string \<Rightarrow> TaskDef \<Rightarrow> TaskDef) \<Rightarrow> string \<Rightarrow> 'item app_state \<Rightarrow> 'item app_state" where
  "updateTask i set_field v a = a\<lparr> ap_tasks := map (\<lambda>t. if td_id t = i then set_field v t else t) (ap_tasks a) \<rparr>"

definition removeTask :: "int \<Rightarrow> 'item app_state \<Rightarrow> 'item app_state" where
  "removeTask i a = (if length (ap_tasks a) = 1 then a
     else a\<lparr> ap_tasks := filter (\<lambda>t. td_id t \<noteq> i) (ap_tasks a) \<rparr>)"

section \<open>The document\<close>

definition js_quote_command :: "string \<Rightarrow> string" where
  "js_quote_command s = concat (map (\<lambda>c. if c = CHR 0x22 then [CHR 0x5C, CHR 0x22] else [c]) s)"

definition dep_names :: "string \<Rightarrow> string list" where
  "dep_names deps = map js_trim (split_on (\<lambda>c. c = CHR '','') deps)"

definition task_lines :: "TaskDef \<Rightarrow> string list" where
  "task_lines t =
     [''    - name: '' @ td_name t, ''      image: '' @ td_image t,
      ''      command: ['' @ [CHR 0x22] @ ''sh'' @ [CHR 0x22] @ '', '' @ [CHR 0x22] @ ''-c'' @ [CHR 0x22] @ '', '' @ [CHR 0x22]
        @ js_quote_command (td_command t) @ [CHR 0x22] @ '']'']
     @ (if td_dependencies t \<noteq> [] \<and> js_trim (td_dependencies t) \<noteq> []
        then let deps = js_join '', '' (map (\<lambda>d. [CHR 0x22] @ d @ [CHR 0x22]) (dep_names (td_dependencies t)))
             in if length deps > 0 then [''      dependencies: ['' @ deps @ '']''] else []
        else [])
     @ [''      baseResources:'', ''        requests:'', ''          cpu: 200m'', ''          memory: 256Mi'']"

definition generateYamlFromState :: "'item app_state \<Rightarrow> string" where
  "generateYamlFromState a = js_join [newline]
     ([''apiVersion: v1.wannabe.dev/v1'', ''kind: AdaptiveWorkflow'', ''metadata:'', ''  name: '' @ ap_wfName a, ''spec:'',
       ''  optimizationGoal: '' @ ap_wfGoal a, ''  maxResources:'', ''    cpu: '' @ [CHR 0x22] @ ''2'' @ [CHR 0x22],
       ''    memory: '' @ [CHR 0x22] @ ''1Gi'' @ [CHR 0x22], ''  tasks:'']
      @ concat (map task_lines (ap_tasks a)))"

section \<open>Talking to the server\<close>

text \<open>\<^verbatim>\<open>fetch\<close> rejects with a message, or resolves with a response; \<^verbatim>\<open>res.ok\<close>.\<close>

definition js_ok :: "http_response \<Rightarrow> bool" where
  "js_ok r = (case hw_Code r of Some n \<Rightarrow> 200 \<le> n \<and> n \<le> 299 | None \<Rightarrow> True)"

text \<open>\<open>items\<close> reads the field \<^verbatim>\<open>items\<close> of the body, if it parses; null and a missing field are \<open>None\<close>.\<close>

definition fetchWorkflows :: "(http_request \<Rightarrow> 'w \<Rightarrow> (string + http_response) \<times> 'w) \<Rightarrow> (string \<Rightarrow> string + 'item list option)
    \<Rightarrow> 'item app_state \<Rightarrow> 'w \<Rightarrow> 'item app_state \<times> 'w" where
  "fetchWorkflows fetch items a w = (case fetch \<lparr> hr_Method = ''GET'', hr_Path = ''/api/workflows'', hr_Body = [] \<rparr> w of
     (Inl e, w1) \<Rightarrow> (a, w1)
   | (Inr res, w1) \<Rightarrow>
       if js_ok res then (case items (hw_Body res) of
           Inl e \<Rightarrow> (a, w1)
         | Inr data \<Rightarrow> (a\<lparr> ap_workflows := (case data of Some l \<Rightarrow> l | None \<Rightarrow> []) \<rparr>, w1))
       else (a, w1))"

definition submit_request :: "'item app_state \<Rightarrow> http_request" where
  "submit_request a = \<lparr> hr_Method = ''POST'', hr_Path = ''/api/workflows'',
     hr_Body = ''{'' @ js_json_string ''yaml'' @ '':''
       @ js_json_string (case ap_activeTab a of Yaml \<Rightarrow> ap_yamlInput a | Builder \<Rightarrow> generateYamlFromState a) @ ''}'' \<rparr>"

definition handleSubmit :: "(http_request \<Rightarrow> 'w \<Rightarrow> (string + http_response) \<times> 'w) \<Rightarrow> (string \<Rightarrow> string + 'item list option)
    \<Rightarrow> 'item app_state \<Rightarrow> 'w \<Rightarrow> 'item app_state \<times> 'w" where
  "handleSubmit fetch items a w = (let a1 = a\<lparr> ap_message := None \<rparr> in
     case fetch (submit_request a1) w of
       (Inl e, w1) \<Rightarrow> (a1\<lparr> ap_message := Some (Failure (if e \<noteq> [] then e else ''Network error'')) \<rparr>, w1)
     | (Inr res, w1) \<Rightarrow>
         if js_ok res
         then (case fetchWorkflows fetch items (a1\<lparr> ap_message := Some (Success ''Workflow submitted successfully!'') \<rparr>) w1 of
             (a2, w2) \<Rightarrow> (case ap_activeTab a of Yaml \<Rightarrow> a2\<lparr> ap_yamlInput := [] \<rparr> | Builder \<Rightarrow> a2, w2))
         else (a1\<lparr> ap_message := Some (Failure (''Failed: '' @ hw_Body res)) \<rparr>, w1))"

section \<open>The simulation\<close>

datatype js_num = Num int | NaN

text \<open>
  Names every object inherits. Reading one that was not assigned gives a function or an object, which
  \<^verbatim>\<open>Math.max\<close> turns into \<^verbatim>\<open>NaN\<close>; assigning a number to \<^verbatim>\<open>__proto__\<close> has no effect.
\<close>

definition object_members :: "string list" where
  "object_members = [''constructor'', ''hasOwnProperty'', ''isPrototypeOf'', ''propertyIsEnumerable'', ''toLocaleString'',
     ''toString'', ''valueOf'', ''__proto__'', ''__defineGetter__'', ''__defineSetter__'', ''__lookupGetter__'', ''__lookupSetter__'']"

definition js_get :: "(string, js_num) fmap \<Rightarrow> string \<Rightarrow> js_num" where
  "js_get m d = (case fmlookup m d of
     Some v \<Rightarrow> if v = NaN then Num 0 else v
   | None \<Rightarrow> if d \<in> set object_members then NaN else Num 0)"

definition js_set :: "string \<Rightarrow> js_num \<Rightarrow> (string, js_num) fmap \<Rightarrow> (string, js_num) fmap" where
  "js_set d v m = (if d = ''__proto__'' then m else fmupd d v m)"

fun js_plus :: "js_num \<Rightarrow> int \<Rightarrow> js_num" where
  "js_plus (Num a) b = Num (a + b)"
| "js_plus NaN b = NaN"

fun js_max2 :: "js_num \<Rightarrow> js_num \<Rightarrow> js_num" where
  "js_max2 (Num a) (Num b) = Num (max a b)"
| "js_max2 _ _ = NaN"

fun js_max :: "js_num list \<Rightarrow> js_num" where
  "js_max [] = NaN"
| "js_max [x] = x"
| "js_max (x # y # ys) = js_max2 x (js_max (y # ys))"

text \<open>\<^verbatim>\<open>Math.max\<close> is only called on a list that is not empty. \<open>sim_start\<close> is where a task may start at the earliest.\<close>

definition sim_deps :: "TaskDef \<Rightarrow> string list" where
  "sim_deps t = (if td_dependencies t \<noteq> [] then dep_names (td_dependencies t) else [])"

definition sim_start :: "(string, js_num) fmap \<Rightarrow> TaskDef \<Rightarrow> js_num" where
  "sim_start ends t = (if length (sim_deps t) > 0 then js_max (map (js_get ends) (sim_deps t)) else Num 0)"

definition limitLineY :: int where "limitLineY = 150"
definition sim_width :: int where "sim_width = 80"
definition sim_height :: int where "sim_height = 65"

record sim_block =
  sb_task :: TaskDef
  sb_left :: js_num
  sb_bottom :: int
  sb_crashed :: bool

text \<open>The naive layout: everything at its earliest start, stacked.\<close>

fun baseline_blocks :: "(string, js_num) fmap \<Rightarrow> (js_num, int) fmap \<Rightarrow> TaskDef list \<Rightarrow> sim_block list" where
  "baseline_blocks bEndTimes bYStacks [] = []"
| "baseline_blocks bEndTimes bYStacks (t # ts) =
     (let startX = sim_start bEndTimes t;
          startY = (case fmlookup bYStacks startX of Some y \<Rightarrow> y | None \<Rightarrow> 0)
      in \<lparr> sb_task = t, sb_left = startX, sb_bottom = startY, sb_crashed = startY + sim_height > limitLineY \<rparr>
         # baseline_blocks (js_set (td_name t) (js_plus startX sim_width) bEndTimes)
             (fmupd startX (startY + sim_height) bYStacks) ts)"

text \<open>
  The adaptive layout. An entry of the profile is the start, the end and the height of a block; one
  with \<^verbatim>\<open>NaN\<close> is never under any point.
\<close>

type_synonym sim_profile = "(js_num \<times> js_num \<times> int) list"

definition covers :: "int \<Rightarrow> js_num \<times> js_num \<times> int \<Rightarrow> bool" where
  "covers x = (\<lambda>(s, e, h). case (s, e) of (Num a, Num b) \<Rightarrow> a \<le> x \<and> x < b | _ \<Rightarrow> False)"

definition getMemAtX :: "sim_profile \<Rightarrow> js_num \<Rightarrow> int" where
  "getMemAtX prof x = (case x of NaN \<Rightarrow> 0 | Num a \<Rightarrow> sum_list (map (\<lambda>(s, e, h). h) (filter (covers a) prof)))"

function range_max :: "sim_profile \<Rightarrow> int \<Rightarrow> int \<Rightarrow> int \<Rightarrow> int" where
  "range_max prof ix stop m = (if ix < stop then range_max prof (ix + 10) stop (max m (getMemAtX prof (Num ix))) else m)"
  by pat_completeness auto
termination
  by (relation "measure (\<lambda>(prof, ix, stop, m). nat (stop - ix))") auto

declare range_max.simps [simp del]

definition maxMemInRange :: "sim_profile \<Rightarrow> js_num \<Rightarrow> int" where
  "maxMemInRange prof startX = (case startX of NaN \<Rightarrow> 0 | Num s \<Rightarrow> range_max prof s (s + sim_width) 0)"

partial_function (option) find_start :: "sim_profile \<Rightarrow> js_num \<Rightarrow> js_num option" where
  "find_start prof startX = (if maxMemInRange prof startX + sim_height \<le> limitLineY then Some startX
     else find_start prof (js_plus startX 10))"

declare find_start.simps [code]

fun adaptive_blocks :: "(string, js_num) fmap \<Rightarrow> sim_profile \<Rightarrow> TaskDef list \<Rightarrow> sim_block list option" where
  "adaptive_blocks aEndTimes prof [] = Some []"
| "adaptive_blocks aEndTimes prof (t # ts) = do {
     startX \<leftarrow> find_start prof (sim_start aEndTimes t);
     blocks \<leftarrow> adaptive_blocks (js_set (td_name t) (js_plus startX sim_width) aEndTimes)
       (prof @ [(startX, js_plus startX sim_width, sim_height)]) ts;
     Some (\<lparr> sb_task = t, sb_left = startX, sb_bottom = getMemAtX prof startX, sb_crashed = False \<rparr> # blocks) }"

record simulation =
  si_baselineBlocks :: "sim_block list"
  si_adaptiveBlocks :: "sim_block list"
  si_isCrasher :: bool

definition calculateSimulationLayouts :: "TaskDef list \<Rightarrow> simulation option" where
  "calculateSimulationLayouts tasks = (let bs = baseline_blocks fmempty fmempty tasks in
     map_option (\<lambda>as. \<lparr> si_baselineBlocks = bs, si_adaptiveBlocks = as, si_isCrasher = list_ex sb_crashed bs \<rparr>)
       (adaptive_blocks fmempty [] tasks))"

end
