(* ===== verification/Front_End_Properties.thy ===== *)
theory Front_End_Properties
  imports Front_End Kwf_Properties
begin

text \<open>
  Properties of the dashboard page: the search for a free place in the simulation always ends, and
  the layout it draws keeps to the limit, without overlaps and with every task behind the
  dependencies listed before it; and a submission the page reports as successful is stored.
\<close>

section \<open>Memory over time\<close>

text \<open>The blocks are 80 wide and start at multiples of 80, so time falls into slots.\<close>

definition grid :: "js_num \<Rightarrow> bool" where
  "grid v \<longleftrightarrow> (case v of NaN \<Rightarrow> True | Num a \<Rightarrow> 0 \<le> a \<and> 80 dvd a)"

definition entry_of :: "js_num \<Rightarrow> js_num \<times> js_num \<times> int" where
  "entry_of s = (s, js_plus s sim_width, sim_height)"

definition mem_at :: "js_num list \<Rightarrow> int \<Rightarrow> int" where
  "mem_at ss x = getMemAtX (map entry_of ss) (Num x)"

lemmas sim_consts = limitLineY_def sim_width_def sim_height_def

lemma mem_at_simps [simp]:
  "mem_at [] x = 0"
  "mem_at (s # ss) x = (if covers x (entry_of s) then sim_height else 0) + mem_at ss x"
  "mem_at (ss @ ts) x = mem_at ss x + mem_at ts x"
  by (simp_all add: mem_at_def getMemAtX_def entry_of_def)

lemma mem_at_nonneg: "0 \<le> mem_at ss x"
  by (induction ss) (auto simp: sim_height_def)

lemma covers_grid: "grid s \<Longrightarrow> covers x (entry_of s) \<longleftrightarrow> s = Num (80 * (x div 80))"
  by (cases s) (auto simp: covers_def entry_of_def grid_def sim_width_def elim!: dvdE)

lemma mem_at_slot:
  assumes "list_all grid ss"
  shows "mem_at ss x = mem_at ss (80 * (x div 80))"
  using assms by (induction ss) (auto simp: covers_grid)

lemma mem_at_beyond: "\<forall>s \<in> set ss. \<forall>a. s = Num a \<longrightarrow> a + sim_width \<le> x \<Longrightarrow> mem_at ss x = 0"
proof (induction ss)
  case (Cons s ss)
  then have "\<not> covers x (entry_of s)" by (cases s) (auto simp: covers_def entry_of_def)
  with Cons show ?case by simp
qed simp

section \<open>The search for a place\<close>

text \<open>The inner loop takes the maximum over the sampled points.\<close>

lemma all_nonneg_split: "(\<forall>i :: int. i \<ge> 0 \<longrightarrow> P i) \<longleftrightarrow> P 0 \<and> (\<forall>i \<ge> 0. P (i + 1))"
proof (intro iffI conjI)
  assume P: "P 0 \<and> (\<forall>i \<ge> 0. P (i + 1))"
  have "P i" if "0 \<le> i" for i using P that by (cases "i = 0") (auto dest: spec [of _ "i - 1"])
  then show "\<forall>i \<ge> 0. P i" by blast
qed simp_all

lemma range_max_le:
  "range_max prof ix stop m \<le> B \<longleftrightarrow> m \<le> B \<and> (\<forall>i \<ge> 0. ix + 10 * i < stop \<longrightarrow> getMemAtX prof (Num (ix + 10 * i)) \<le> B)"
proof (induction prof ix stop m rule: range_max.induct)
  case (1 prof ix stop m)
  show ?case
  proof (cases "ix < stop")
    case False
    then show ?thesis by (auto simp: range_max.simps [of prof ix])
  next
    case True
    let ?P = "\<lambda>i. ix + 10 * i < stop \<longrightarrow> getMemAtX prof (Num (ix + 10 * i)) \<le> B"
    have step: "range_max prof ix stop m = range_max prof (ix + 10) stop (max m (getMemAtX prof (Num ix)))"
      using True by (simp add: range_max.simps [of prof ix])
    have shift: "ix + 10 + 10 * i = ix + 10 * (i + 1)" for i by simp
    have zero: "ix + 10 * 0 = ix" by simp
    show ?thesis
      unfolding step 1 [OF True] shift all_nonneg_split [of ?P] zero max.bounded_iff using True by blast
  qed
qed

definition free_at :: "js_num list \<Rightarrow> int \<Rightarrow> bool" where
  "free_at ss s \<longleftrightarrow> (\<forall>i \<ge> 0. i < 8 \<longrightarrow> mem_at ss (s + 10 * i) + sim_height \<le> limitLineY)"

lemma free_at: "maxMemInRange (map entry_of ss) (Num s) + sim_height \<le> limitLineY \<longleftrightarrow> free_at ss s"
proof -
  have "maxMemInRange (map entry_of ss) (Num s) \<le> 85 \<longleftrightarrow> (\<forall>i \<ge> 0. s + 10 * i < s + 80 \<longrightarrow> mem_at ss (s + 10 * i) \<le> 85)"
    by (simp add: maxMemInRange_def range_max_le sim_width_def mem_at_def)
  then show ?thesis by (auto simp: free_at_def sim_height_def limitLineY_def)
qed

lemma find_start_returns:
  assumes "\<forall>s \<in> set ss. \<forall>a. s = Num a \<longrightarrow> a + sim_width \<le> B"
  shows "\<exists>s'. find_start (map entry_of ss) (Num s) = Some (Num s') \<and> s \<le> s' \<and> 10 dvd s' - s \<and> free_at ss s'
    \<and> (s' = s \<or> \<not> free_at ss (s' - 10))"
proof (induction "nat (B - s)" arbitrary: s rule: less_induct)
  case less
  show ?case
  proof (cases "free_at ss s")
    case True
    then show ?thesis by (simp add: find_start.simps [of _ "Num s"] free_at)
  next
    case False
    have "s < B"
    proof (rule ccontr)
      assume "\<not> s < B"
      then have "mem_at ss (s + 10 * i) = 0" if "0 \<le> i" for i
        using assms that by (intro mem_at_beyond) fastforce
      with False show False by (simp add: free_at_def sim_consts)
    qed
    then have "nat (B - (s + 10)) < nat (B - s)" by simp
    from less [OF this] False obtain s' where "find_start (map entry_of ss) (Num (s + 10)) = Some (Num s')" "s + 10 \<le> s'"
      "10 dvd s' - (s + 10)" "free_at ss s'" "s' = s + 10 \<or> \<not> free_at ss (s' - 10)" by blast
    moreover have "10 dvd s' - s" using calculation(3) dvd_add [of 10 "s' - (s + 10)" 10] by simp
    ultimately show ?thesis using False by (auto simp: find_start.simps [of _ "Num s"] free_at)
  qed
qed

lemma slot_div: "0 \<le> q \<Longrightarrow> q < 80 \<Longrightarrow> (80 * m + q) div 80 = (m :: int)"
  by simp

text \<open>A search that starts on the grid ends on it: a place in between would have been free one step before.\<close>

lemma free_start_grid:
  assumes "list_all grid ss" "80 dvd s" "10 dvd s' - s" "free_at ss s'" "s' = s \<or> \<not> free_at ss (s' - 10)"
  shows "80 dvd s'"
proof (rule ccontr)
  assume no: "\<not> 80 dvd s'"
  define k where "k = s' div 80"
  define r where "r = s' mod 80"
  have s': "s' = 80 * k + r" by (simp add: k_def r_def)
  have "(10 :: int) dvd s" using assms(2) by (rule dvd_trans [rotated]) simp
  with assms(3) have "10 dvd s'" using dvd_add by fastforce
  then have "10 dvd r" unfolding s' by presburger
  moreover have "0 < r" "r < 80" using no s' unfolding r_def by (auto simp: dvd_eq_mod_eq_0 intro: le_neq_trans)
  ultimately have r: "10 \<le> r" "r \<le> 70" by presburger+
  have at: "mem_at ss x + sim_height \<le> limitLineY" if "x div 80 = k \<or> x div 80 = k + 1" for x
  proof -
    have "mem_at ss s' + sim_height \<le> limitLineY" "mem_at ss (s' + 70) + sim_height \<le> limitLineY"
      using assms(4) unfolding free_at_def by (auto dest: spec [of _ 0] spec [of _ 7])
    moreover have "s' + 70 = 80 * (k + 1) + (r - 10)" by (simp add: s')
    then have "(s' + 70) div 80 = k + 1" using slot_div [of "r - 10" "k + 1"] r by (simp only:)
    moreover have "s' div 80 = k" by (simp add: k_def)
    ultimately show ?thesis using that mem_at_slot [OF assms(1)] by metis
  qed
  have "free_at ss (s' - 10)" unfolding free_at_def
  proof (intro allI impI at)
    fix i :: int
    assume "0 \<le> i" "i < 8"
    then have q: "0 \<le> r - 10 + 10 * i" "r - 10 + 10 * i < 160" using r by simp_all
    have "s' - 10 + 10 * i = 80 * k + (r - 10 + 10 * i)" "s' - 10 + 10 * i = 80 * (k + 1) + (r - 10 + 10 * i - 80)"
      by (simp_all add: s')
    with q slot_div [of "r - 10 + 10 * i" k] slot_div [of "r - 10 + 10 * i - 80" "k + 1"]
    show "(s' - 10 + 10 * i) div 80 = k \<or> (s' - 10 + 10 * i) div 80 = k + 1"
      by (cases "r - 10 + 10 * i < 80") (simp_all only: simp_thms)
  qed
  with assms(5) no assms(2) show False by blast
qed

section \<open>The layout\<close>

definition ends_grid :: "(string, js_num) fmap \<Rightarrow> bool" where
  "ends_grid ends \<longleftrightarrow> (\<forall>d v. fmlookup ends d = Some v \<longrightarrow> grid v)"

lemma grid_simps [simp]: "grid NaN" "grid (Num 0)"
  by (simp_all add: grid_def)

lemma grid_plus: "grid v \<Longrightarrow> grid (js_plus v sim_width)"
  by (cases v) (auto simp: grid_def sim_width_def)

lemma grid_max: "list_all grid vs \<Longrightarrow> grid (js_max vs)"
proof (induction vs rule: js_max.induct)
  case (3 x y ys)
  then have "grid x" "grid (js_max (y # ys))" by simp_all
  then show ?case by (cases x; cases "js_max (y # ys)") (auto simp: grid_def max_def)
qed simp_all

lemma sim_start_grid: "ends_grid ends \<Longrightarrow> grid (sim_start ends t)"
  by (auto simp: sim_start_def js_get_def ends_grid_def list_all_iff intro!: grid_max split: option.split)

lemma ends_grid_set: "ends_grid ends \<Longrightarrow> grid v \<Longrightarrow> ends_grid (js_set d v ends)"
  by (simp add: ends_grid_def js_set_def)

definition in_limit :: "js_num list \<Rightarrow> bool" where
  "in_limit ss \<longleftrightarrow> list_all grid ss \<and> (\<forall>x. mem_at ss x \<le> limitLineY)"

definition not_before :: "js_num \<Rightarrow> js_num \<Rightarrow> bool" where
  "not_before s s' \<longleftrightarrow> (case s of NaN \<Rightarrow> s' = NaN | Num a \<Rightarrow> \<exists>b. s' = Num b \<and> a \<le> b)"

lemma ends_bounded: "\<exists>B. \<forall>s \<in> set ss. \<forall>a. s = Num a \<longrightarrow> a + sim_width \<le> B"
proof (induction ss)
  case (Cons s ss)
  then obtain B where B: "\<forall>s \<in> set ss. \<forall>a. s = Num a \<longrightarrow> a + sim_width \<le> B" by blast
  show ?case
  proof (cases s)
    case (Num a)
    with B show ?thesis by (intro exI [of _ "max B (a + sim_width)"]) (auto simp: le_max_iff_disj)
  qed (use B in auto)
qed simp

text \<open>Wherever the search starts, it ends at a place on the grid where the block fits.\<close>

lemma find_start_in_limit:
  assumes "in_limit ss" "grid s"
  shows "\<exists>s'. find_start (map entry_of ss) s = Some s' \<and> in_limit (ss @ [s']) \<and> not_before s s'"
proof (cases s)
  case NaN
  have "\<not> covers x (entry_of NaN)" for x by (simp add: covers_def entry_of_def)
  with NaN assms(1) show ?thesis
    by (simp add: find_start.simps [of _ NaN] maxMemInRange_def sim_consts in_limit_def not_before_def)
next
  case (Num a)
  obtain B where "\<forall>s \<in> set ss. \<forall>a. s = Num a \<longrightarrow> a + sim_width \<le> B" using ends_bounded by blast
  from find_start_returns [OF this, of a] obtain b where b: "find_start (map entry_of ss) (Num a) = Some (Num b)" "a \<le> b"
    "10 dvd b - a" "free_at ss b" "b = a \<or> \<not> free_at ss (b - 10)" by blast
  have ss: "list_all grid ss" "\<And>x. mem_at ss x \<le> limitLineY" using assms(1) by (auto simp: in_limit_def)
  have "80 dvd b" using free_start_grid [OF ss(1) _ b(3-5)] assms(2) Num by (simp add: grid_def)
  with assms(2) Num b(2) have grid: "grid (Num b)" by (simp add: grid_def)
  have "mem_at (ss @ [Num b]) x \<le> limitLineY" for x
  proof (cases "covers x (entry_of (Num b))")
    case True
    then have "b = 80 * (x div 80)" using covers_grid [OF grid] by simp
    moreover have "mem_at ss b + sim_height \<le> limitLineY" using b(4) by (auto simp: free_at_def dest: spec [of _ 0])
    ultimately show ?thesis using True mem_at_slot [OF ss(1), of x] by simp
  qed (simp add: ss(2))
  with grid ss(1) b(1,2) Num show ?thesis by (simp add: in_limit_def not_before_def)
qed

definition lefts :: "sim_block list \<Rightarrow> js_num list" where
  "lefts bs = map sb_left bs"

text \<open>The end times once the blocks are placed; a block starts no earlier than its task may, on top of what is there.\<close>

definition ends_after :: "(string, js_num) fmap \<Rightarrow> sim_block list \<Rightarrow> (string, js_num) fmap" where
  "ends_after ends bs = foldl (\<lambda>m b. js_set (td_name (sb_task b)) (js_plus (sb_left b) sim_width) m) ends bs"

definition placed :: "(string, js_num) fmap \<Rightarrow> js_num list \<Rightarrow> sim_block list \<Rightarrow> nat \<Rightarrow> bool" where
  "placed ends ss bs j \<longleftrightarrow>
     sb_bottom (bs ! j) = getMemAtX (map entry_of (ss @ lefts (take j bs))) (sb_left (bs ! j)) \<and>
     not_before (sim_start (ends_after ends (take j bs)) (sb_task (bs ! j))) (sb_left (bs ! j))"

lemma adaptive_blocks_placed:
  assumes "in_limit ss" "ends_grid ends"
  shows "\<exists>bs. adaptive_blocks ends (map entry_of ss) ts = Some bs \<and> map sb_task bs = ts \<and> in_limit (ss @ lefts bs)
    \<and> (\<forall>j < length bs. placed ends ss bs j)"
  using assms
proof (induction ts arbitrary: ends ss)
  case Nil
  then show ?case by (simp add: lefts_def)
next
  case (Cons t ts)
  from find_start_in_limit [OF Cons.prems(1) sim_start_grid [OF Cons.prems(2)]] obtain s where
    s: "find_start (map entry_of ss) (sim_start ends t) = Some s" "in_limit (ss @ [s])" "not_before (sim_start ends t) s" by blast
  let ?ends = "js_set (td_name t) (js_plus s sim_width) ends"
  have "grid s" using s(2) by (simp add: in_limit_def)
  from Cons.IH [OF s(2) ends_grid_set [OF Cons.prems(2) grid_plus [OF this]]] obtain bs where
    bs: "adaptive_blocks ?ends (map entry_of (ss @ [s])) ts = Some bs"
    "map sb_task bs = ts" "in_limit ((ss @ [s]) @ lefts bs)" "\<forall>j < length bs. placed ?ends (ss @ [s]) bs j" by blast
  let ?b = "\<lparr> sb_task = t, sb_left = s, sb_bottom = getMemAtX (map entry_of ss) s, sb_crashed = False \<rparr>"
  have "placed ends ss (?b # bs) j" if "j < length (?b # bs)" for j
    using that bs(4) s(3) by (cases j) (auto simp: placed_def lefts_def ends_after_def)
  moreover have "adaptive_blocks ends (map entry_of ss) (t # ts) = Some (?b # bs)"
    using s(1) bs(1) by (simp add: entry_of_def)
  ultimately show ?case using bs(2,3) by (intro exI [of _ "?b # bs"]) (simp add: lefts_def)
qed

text \<open>What the end times hold of a block placed before.\<close>

lemma ends_after_other:
  "d \<notin> (\<lambda>b. td_name (sb_task b)) ` set bs \<Longrightarrow> fmlookup (ends_after ends bs) d = fmlookup ends d"
  by (induction bs arbitrary: ends) (auto simp: ends_after_def js_set_def)

lemma ends_after_block:
  assumes "i < length bs" "distinct (map (\<lambda>b. td_name (sb_task b)) bs)" "td_name (sb_task (bs ! i)) \<noteq> ''__proto__''"
  shows "fmlookup (ends_after ends bs) (td_name (sb_task (bs ! i))) = Some (js_plus (sb_left (bs ! i)) sim_width)"
  using assms
proof (induction bs arbitrary: ends i)
  case (Cons b bs)
  have step: "ends_after ends (b # bs) = ends_after (js_set (td_name (sb_task b)) (js_plus (sb_left b) sim_width) ends) bs" for ends
    by (simp add: ends_after_def)
  show ?case
  proof (cases i)
    case 0
    with Cons.prems show ?thesis unfolding step by (simp add: ends_after_other js_set_def)
  next
    case (Suc k)
    with Cons.prems Cons.IH [of k] show ?thesis unfolding step by simp
  qed
qed simp

lemma js_max_ge: "js_max vs = Num m \<Longrightarrow> Num v \<in> set vs \<Longrightarrow> v \<le> m"
proof (induction vs arbitrary: m rule: js_max.induct)
  case (3 x y ys)
  from 3(2) obtain a b where ab: "x = Num a" "js_max (y # ys) = Num b" "m = max a b"
    by (cases x; cases "js_max (y # ys)") simp_all
  from 3(3) consider "v = a" | "Num v \<in> set (y # ys)" by (auto simp: ab(1))
  then show ?case using 3(1) [OF ab(2)] ab(3) by cases auto
qed simp_all

lemma js_max_Num: "vs \<noteq> [] \<Longrightarrow> \<forall>v \<in> set vs. v \<noteq> NaN \<Longrightarrow> js_max vs \<noteq> NaN"
proof (induction vs rule: js_max.induct)
  case (3 x y ys)
  then show ?case by (cases x; cases "js_max (y # ys)") auto
qed auto

lemma js_get_Num: "d \<notin> set object_members \<Longrightarrow> js_get m d \<noteq> NaN"
  by (simp add: js_get_def split: option.split)

lemma sim_start_Num:
  assumes "set (sim_deps t) \<inter> set object_members = {}"
  shows "sim_start ends t \<noteq> NaN"
proof -
  have "js_get ends d \<noteq> NaN" if "d \<in> set (sim_deps t)" for d
    by (rule js_get_Num) (use assms that in \<open>simp add: disjoint_iff\<close>)
  then have "\<forall>v \<in> set (map (js_get ends) (sim_deps t)). v \<noteq> NaN" by auto
  then show ?thesis using js_max_Num [of "map (js_get ends) (sim_deps t)"] by (auto simp: sim_start_def)
qed

text \<open>Blocks placed in this way stay apart: where one is in the way of another, the later one is above it.\<close>

lemma placed_apart:
  assumes "in_limit (lefts bs)" "placed ends [] bs i" "placed ends [] bs j" "i < j" "j < length bs"
    "sb_left (bs ! i) = Num a" "sb_left (bs ! j) = Num b"
  shows "a + sim_width \<le> b \<or> b + sim_width \<le> a \<or> sb_bottom (bs ! i) + sim_height \<le> sb_bottom (bs ! j)"
proof (cases "a = b")
  case True
  have parts: "take j bs = take i bs @ bs ! i # take (j - Suc i) (drop (Suc i) bs)"
    using assms(4,5) id_take_nth_drop [of i "take j bs"] by (simp add: drop_take)
  have "covers a (entry_of (Num a))" by (simp add: covers_def entry_of_def sim_width_def)
  then have "mem_at (lefts (take j bs)) a \<ge> mem_at (lefts (take i bs)) a + sim_height"
    using assms(6) mem_at_nonneg unfolding parts by (simp add: lefts_def)
  with True assms(2,3,6,7) show ?thesis by (simp add: placed_def mem_at_def)
next
  case False
  have "i < length bs" using assms(4,5) by simp
  then have "grid (sb_left (bs ! i))" "grid (sb_left (bs ! j))"
    using assms(1,5) by (auto simp: in_limit_def lefts_def list_all_length)
  then have "80 dvd a" "80 dvd b" using assms(6,7) by (simp_all add: grid_def)
  with False show ?thesis by (auto simp: sim_width_def elim!: dvdE)
qed

text \<open>A block stays below the limit.\<close>

lemma placed_below:
  assumes "in_limit (lefts bs)" "placed ends [] bs j" "j < length bs"
  shows "0 \<le> sb_bottom (bs ! j)" "sb_bottom (bs ! j) + sim_height \<le> limitLineY"
proof -
  have "0 \<le> sb_bottom (bs ! j) \<and> sb_bottom (bs ! j) + sim_height \<le> limitLineY"
  proof (cases "sb_left (bs ! j)")
    case NaN
    with assms(2) show ?thesis by (simp add: placed_def getMemAtX_def sim_consts)
  next
    case (Num b)
    have parts: "lefts bs = lefts (take j bs) @ Num b # lefts (drop (Suc j) bs)"
      using assms(3) Num id_take_nth_drop [of j "lefts bs"] by (simp add: lefts_def take_map drop_map)
    have bottom: "sb_bottom (bs ! j) = mem_at (lefts (take j bs)) b" using assms(2) Num by (simp add: placed_def mem_at_def)
    have "mem_at (lefts bs) b \<le> limitLineY" using assms(1) by (simp add: in_limit_def)
    moreover have "covers b (entry_of (Num b))" by (simp add: covers_def entry_of_def sim_width_def)
    ultimately have "mem_at (lefts (take j bs)) b + sim_height \<le> limitLineY"
      using mem_at_nonneg [of "lefts (drop (Suc j) bs)" b] unfolding parts by simp
    with bottom mem_at_nonneg show ?thesis by simp
  qed
  then show "0 \<le> sb_bottom (bs ! j)" "sb_bottom (bs ! j) + sim_height \<le> limitLineY" by simp_all
qed

text \<open>And it starts when the dependencies placed before it have ended.\<close>

lemma placed_after:
  assumes "placed ends [] bs j" "i < j" "j < length bs" "distinct (map (\<lambda>b. td_name (sb_task b)) bs)"
    "td_name (sb_task (bs ! i)) \<in> set (sim_deps (sb_task (bs ! j)))" "td_name (sb_task (bs ! i)) \<noteq> ''__proto__''"
    "sb_left (bs ! i) = Num a" "sb_left (bs ! j) = Num b"
  shows "a + sim_width \<le> b"
proof -
  let ?t = "sb_task (bs ! j)" and ?d = "td_name (sb_task (bs ! i))"
  define m where "m = ends_after ends (take j bs)"
  have "distinct (map (\<lambda>b. td_name (sb_task b)) (take j bs))"
    using assms(4) unfolding take_map [symmetric] by (rule distinct_take)
  then have "fmlookup m ?d = Some (Num (a + sim_width))"
    using ends_after_block [of i "take j bs" ends] assms(2,3,6,7) by (simp add: m_def)
  then have "Num (a + sim_width) \<in> set (map (js_get m) (sim_deps ?t))"
    using assms(5) by (force simp: js_get_def image_iff)
  moreover from assms(1,8) obtain c where c: "sim_start m ?t = Num c" "c \<le> b"
    by (cases "sim_start m ?t") (auto simp: placed_def not_before_def m_def)
  moreover have "js_max (map (js_get m) (sim_deps ?t)) = Num c" using c(1) assms(5) by (auto simp: sim_start_def split: if_splits)
  ultimately show ?thesis using js_max_ge [of "map (js_get m) (sim_deps ?t)"] by fastforce
qed

text \<open>The adaptive blocks of the whole form, and where they are drawn.\<close>

lemma simulation_placed:
  obtains sim where "calculateSimulationLayouts tasks = Some sim" "map sb_task (si_adaptiveBlocks sim) = tasks"
    "in_limit (lefts (si_adaptiveBlocks sim))"
    "\<And>j. j < length tasks \<Longrightarrow> placed fmempty [] (si_adaptiveBlocks sim) j"
proof -
  have "in_limit []" "ends_grid fmempty" by (simp_all add: in_limit_def ends_grid_def sim_consts)
  from adaptive_blocks_placed [OF this, of tasks] obtain bs where
    bs: "adaptive_blocks fmempty [] tasks = Some bs" "map sb_task bs = tasks" "in_limit (lefts bs)"
    "\<forall>j < length bs. placed fmempty [] bs j" by auto
  moreover have "length bs = length tasks" using bs(2) by (metis length_map)
  ultimately show ?thesis using that
    by (auto simp: calculateSimulationLayouts_def Let_def)
qed

lemma placed_drawn:
  assumes "in_limit (lefts bs)" "placed ends [] bs j" "j < length bs" "set (sim_deps (sb_task (bs ! j))) \<inter> set object_members = {}"
  shows "\<exists>b \<ge> 0. sb_left (bs ! j) = Num b"
proof -
  have "sim_start (ends_after ends (take j bs)) (sb_task (bs ! j)) \<noteq> NaN" by (rule sim_start_Num [OF assms(4)])
  with assms(2) obtain b where b: "sb_left (bs ! j) = Num b" by (auto simp: placed_def not_before_def split: js_num.splits)
  have "grid (sb_left (bs ! j))" using assms(1,3) by (auto simp: in_limit_def lefts_def list_all_length)
  with b show ?thesis by (simp add: grid_def)
qed

text \<open>
  C40. The simulation of \<^verbatim>\<open>App.tsx\<close> always ends, also where its \<^verbatim>\<open>while(true)\<close> looks for a free place, and
  draws every task of the form, in order. Every block of the adaptive view is between the axis and
  the limit line, no two blocks overlap, and when the names are distinct, a task starts when the
  dependencies listed before it have ended. A block has a position unless a dependency of its task has the name of a
  member every JavaScript object has.
\<close>

theorem simulation_layout:
  "\<exists>sim. calculateSimulationLayouts tasks = Some sim \<and> map sb_task (si_adaptiveBlocks sim) = tasks \<and>
     (\<forall>j < length tasks. let y = si_adaptiveBlocks sim ! j in
        0 \<le> sb_bottom y \<and> sb_bottom y + sim_height \<le> limitLineY \<and>
        (set (sim_deps (tasks ! j)) \<inter> set object_members = {} \<longrightarrow> (\<exists>b \<ge> 0. sb_left y = Num b)) \<and>
        (\<forall>i < j. \<forall>a b. let x = si_adaptiveBlocks sim ! i in
           sb_left x = Num a \<and> sb_left y = Num b \<longrightarrow>
             (a + sim_width \<le> b \<or> b + sim_width \<le> a \<or> sb_bottom x + sim_height \<le> sb_bottom y) \<and>
             (distinct (map td_name tasks) \<and> td_name (tasks ! i) \<in> set (sim_deps (tasks ! j))
                \<and> td_name (tasks ! i) \<noteq> ''__proto__'' \<longrightarrow> a + sim_width \<le> b)))"
proof -
  obtain sim where sim: "calculateSimulationLayouts tasks = Some sim" "map sb_task (si_adaptiveBlocks sim) = tasks"
    "in_limit (lefts (si_adaptiveBlocks sim))" "\<And>j. j < length tasks \<Longrightarrow> placed fmempty [] (si_adaptiveBlocks sim) j"
    using simulation_placed [of tasks] by blast
  let ?bs = "si_adaptiveBlocks sim"
  have len: "length ?bs = length tasks" using sim(2) by (metis length_map)
  have task: "sb_task (?bs ! j) = tasks ! j" if "j < length tasks" for j using that len sim(2) by (metis nth_map)
  have names: "map (\<lambda>b. td_name (sb_task b)) ?bs = map td_name tasks" unfolding sim(2) [symmetric] by simp
  note place = placed_below [OF sim(3) sim(4)] placed_drawn [OF sim(3) sim(4)]
    placed_apart [OF sim(3) sim(4) sim(4)] placed_after [OF sim(4)]
  show ?thesis unfolding Let_def
    by (intro exI [of _ sim] conjI allI impI sim(1,2) place) (auto simp: len task names)
qed

text \<open>A form with three tasks, the last of which depends on the first.\<close>

definition ex_form :: "TaskDef list" where
  "ex_form = [first_task 1 ''a'' [], first_task 2 ''b'' [], first_task 3 ''c'' ''a'']"

lemma ex_form_trim: "js_trim ''a'' = ''a''"
  by (simp add: js_trim_def js_trim_start.simps js_trim_rev.simps js_white_def upt_rec)

lemma ex_form_deps: "sim_deps (ex_form ! 0) = []" "sim_deps (ex_form ! 1) = []" "sim_deps (ex_form ! 2) = [''a'']"
  by (simp_all add: ex_form_def sim_deps_def first_task_def dep_names_def ex_form_trim)

theorem simulation_layout_witness:
  "\<exists>sim a b c. calculateSimulationLayouts ex_form = Some sim \<and> map sb_left (si_adaptiveBlocks sim) = [Num a, Num b, Num c]
    \<and> 0 \<le> a \<and> a + sim_width \<le> c \<and> sb_bottom (si_adaptiveBlocks sim ! 2) + sim_height \<le> limitLineY
    \<and> (a + sim_width \<le> b \<or> b + sim_width \<le> a
         \<or> sb_bottom (si_adaptiveBlocks sim ! 0) + sim_height \<le> sb_bottom (si_adaptiveBlocks sim ! 1))"
proof -
  have len: "length ex_form = 3" and names: "distinct (map td_name ex_form)" "td_name (ex_form ! 0) = ''a''"
    by (simp_all add: ex_form_def first_task_def)
  have none: "set (sim_deps (ex_form ! j)) \<inter> set object_members = {}" if "j < 3" for j
  proof -
    from that consider "j = 0" | "j = 1" | "j = 2" by linarith
    then show ?thesis by cases (simp_all only: ex_form_deps, simp_all add: object_members_def)
  qed
  from simulation_layout [of ex_form] obtain sim where
    sim: "calculateSimulationLayouts ex_form = Some sim" "map sb_task (si_adaptiveBlocks sim) = ex_form"
    and all: "\<forall>j < 3. let y = si_adaptiveBlocks sim ! j in
        0 \<le> sb_bottom y \<and> sb_bottom y + sim_height \<le> limitLineY \<and>
        (set (sim_deps (ex_form ! j)) \<inter> set object_members = {} \<longrightarrow> (\<exists>b \<ge> 0. sb_left y = Num b)) \<and>
        (\<forall>i < j. \<forall>a b. let x = si_adaptiveBlocks sim ! i in
           sb_left x = Num a \<and> sb_left y = Num b \<longrightarrow>
             (a + sim_width \<le> b \<or> b + sim_width \<le> a \<or> sb_bottom x + sim_height \<le> sb_bottom y) \<and>
             (distinct (map td_name ex_form) \<and> td_name (ex_form ! i) \<in> set (sim_deps (ex_form ! j))
                \<and> td_name (ex_form ! i) \<noteq> ''__proto__'' \<longrightarrow> a + sim_width \<le> b))"
    unfolding len by (elim exE conjE)
  have one: "sb_bottom (si_adaptiveBlocks sim ! j) + sim_height \<le> limitLineY" "\<exists>b \<ge> 0. sb_left (si_adaptiveBlocks sim ! j) = Num b"
    if "j < 3" for j using all [rule_format, OF that] none [OF that] by (simp_all add: Let_def)
  have two: "(a + sim_width \<le> b \<or> b + sim_width \<le> a \<or> sb_bottom (si_adaptiveBlocks sim ! i) + sim_height \<le> sb_bottom (si_adaptiveBlocks sim ! j))
      \<and> (td_name (ex_form ! i) \<in> set (sim_deps (ex_form ! j)) \<and> td_name (ex_form ! i) \<noteq> ''__proto__'' \<longrightarrow> a + sim_width \<le> b)"
    if "i < j" "j < 3" "sb_left (si_adaptiveBlocks sim ! i) = Num a" "sb_left (si_adaptiveBlocks sim ! j) = Num b" for i j a b
    using all [rule_format, OF that(2)] that(1,3,4) names(1) by (simp add: Let_def)
  have "length (si_adaptiveBlocks sim) = 3" using arg_cong [OF sim(2), of length] len by simp
  then obtain x y z where bs: "si_adaptiveBlocks sim = [x, y, z]" by (auto simp: length_Suc_conv numeral_3_eq_3)
  from one [of 0] one [of 1] one [of 2] obtain a b c where
    at: "sb_left x = Num a" "0 \<le> a" "sb_left y = Num b" "sb_left z = Num c" "sb_bottom z + sim_height \<le> limitLineY"
    by (auto simp: bs)
  with two [of 0 1 a b] two [of 0 2 a c] show ?thesis using sim(1) by (auto simp: bs names(2) ex_form_deps)
qed

section \<open>Submission\<close>

text \<open>A POST the server answers with success has stored the document it carries.\<close>

lemma post_stores:
  assumes "corsMiddleware (ui_routes U kc ns files) req new_response w = (r, w')" "js_ok r"
    and "hr_Method req = ''POST''" "hr_Path req = ''/api/workflows''" "ui_DecodeRequest U (hr_Body req) = Inr data"
    and "\<forall>w0 g w1. getClient (kwf_lib.truncate U) kc w0 = (g, w1) \<longrightarrow> st w1 = st w0 \<and> (\<forall>c. g = Inr c \<longrightarrow> api_store c st)"
  shows "\<exists>aw aw'. document (kwf_lib.truncate U) ns data = Some aw \<and> st w' = (st w)(key_of aw \<mapsto> aw')
    \<and> wf_Spec aw' = wf_Spec aw \<and> (\<forall>old. st w (key_of aw) = Some old \<longrightarrow> wf_Status aw' = wf_Status old)"
proof -
  let ?K = "kwf_lib.truncate U"
  from assms(1,3,4) obtain r1 where r1: "handleWorkflows U kc ns req r1 w = (r, w')" "hw_Code r1 = None"
    by (auto simp: corsMiddleware_def ui_routes_def Let_def new_response_def header_Set_def)
  obtain g w1 where g: "getClient ?K kc w = (g, w1)" by fastforce
  have "\<exists>c. g = Inr c" using r1 g assms(2) by (cases g) (auto simp: handleWorkflows_def http_Error_def js_ok_def)
  then obtain c where c: "getClient ?K kc w = (Inr c, w1)" using g by blast
  with r1(1) assms(3) have post: "workflows_post U ns c req r1 w1 = (r, w')" by (simp add: handleWorkflows_def)
  have "document ?K ns data \<noteq> None"
  proof
    assume "document ?K ns data = None"
    then obtain err where "decode_workflow ?K ''failed to parse yaml metadata: '' ''failed to parse as AdaptiveWorkflow: '' ns data = Inl err"
      using decode_document(1) by metis
    with post assms(2,5) r1(2) show False by (auto simp: workflows_post_def http_Error_def js_ok_def)
  qed
  then obtain aw where aw: "document ?K ns data = Some aw" by blast
  then have d: "decode_workflow ?K m1 m2 ns data = Inr aw" for m1 m2 by (simp add: decode_document)
  obtain s w2 where s: "create_or_update c aw w1 = (s, w2)" by fastforce
  with post d assms(2,5) r1(2) have "submitted s" "w2 = w'"
    by (cases s; auto simp: workflows_post_def http_Error_def js_ok_def submitted_def)+
  moreover have "api_store c st" "st w1 = st w" using assms(6) c by blast+
  ultimately show ?thesis using create_or_update_stores [of c st aw w1 s w'] s aw by auto
qed

text \<open>The document the page sends.\<close>

definition page_yaml :: "'item app_state \<Rightarrow> string" where
  "page_yaml a = (case ap_activeTab a of Yaml \<Rightarrow> ap_yamlInput a | Builder \<Rightarrow> generateYamlFromState a)"

text \<open>
  A request \<^verbatim>\<open>fetch\<close> resolves was answered by the server; one it rejects may have been lost on either
  way, but a GET changes nothing.
\<close>

definition reaches :: "(http_request \<Rightarrow> 'w \<Rightarrow> (string + http_response) \<times> 'w)
    \<Rightarrow> (http_request \<Rightarrow> http_response \<Rightarrow> 'w \<Rightarrow> http_response \<times> 'w) \<Rightarrow> ('w \<Rightarrow> 'st) \<Rightarrow> bool" where
  "reaches fetch serve st \<longleftrightarrow> (\<forall>q w a w'. fetch q w = (a, w') \<longrightarrow> (case a of
     Inr r \<Rightarrow> serve q new_response w = (r, w') | Inl e \<Rightarrow> hr_Method q = ''GET'' \<longrightarrow> st w' = st w))"

lemma fetchWorkflows_reads:
  assumes "fetchWorkflows fetch items a w = (a', w')" "reaches fetch (corsMiddleware (ui_routes U kc ns files)) st"
    and "\<forall>w0 g w1. getClient (kwf_lib.truncate U) kc w0 = (g, w1) \<longrightarrow> st w1 = st w0 \<and> (\<forall>c. g = Inr c \<longrightarrow> api_store c st)"
  shows "st w' = st w" "\<exists>l. a' = a\<lparr> ap_workflows := l \<rparr>"
proof -
  let ?q = "\<lparr> hr_Method = ''GET'', hr_Path = ''/api/workflows'', hr_Body = [] \<rparr>"
  obtain x w1 where x: "fetch ?q w = (x, w1)" by fastforce
  have same: "a = a\<lparr> ap_workflows := ap_workflows a \<rparr>" by simp
  from x assms(1) have w': "w' = w1"
    by (auto simp: fetchWorkflows_def split: sum.splits if_splits)
  from x assms(1) have "a' = a \<or> (\<exists>l. a' = a\<lparr> ap_workflows := l \<rparr>)"
    by (auto simp: fetchWorkflows_def split: sum.splits if_splits)
  with same show "\<exists>l. a' = a\<lparr> ap_workflows := l \<rparr>" by metis
  show "st w' = st w"
  proof (cases x)
    case (Inl e)
    with x w' assms(2) show ?thesis unfolding reaches_def by fastforce
  next
    case (Inr r)
    with x w' assms(2) have "corsMiddleware (ui_routes U kc ns files) ?q new_response w = (r, w')" unfolding reaches_def by fastforce
    then obtain r1 where r1: "handleWorkflows U kc ns ?q r1 w = (r, w')" by (auto simp: corsMiddleware_def ui_routes_def Let_def)
    obtain g v where g: "getClient (kwf_lib.truncate U) kc w = (g, v)" by fastforce
    with assms(3) have "st v = st w" "\<And>c. g = Inr c \<Longrightarrow> api_store c st" by blast+
    with r1 g api_store_reads(2) show ?thesis
      by (fastforce simp: handleWorkflows_def workflows_get_def split: sum.splits prod.splits)
  qed
qed


text \<open>The page as it starts, in front of the server of the examples.\<close>

definition ex_page_ui :: "(rat store, rat, unit) ui_lib" where
  "ex_page_ui = kwf_lib.extend ex_kwf (ui_lib.fields
     (\<lambda>b. if b = hr_Body (submit_request (app_init :: unit app_state)) then Inr (page_yaml (app_init :: unit app_state)) else Inl (Err ''bad request''))
     (\<lambda>l. Inr ''[]'') (\<lambda>aw. Inr ''{}''))"

definition ex_fetch :: "http_request \<Rightarrow> rat store \<Rightarrow> (string + http_response) \<times> rat store" where
  "ex_fetch q w = map_prod Inr id (corsMiddleware (ui_routes ex_page_ui '''' ''default'' (\<lambda>q r w. (r, w))) q new_response w)"

lemma ex_page_ui: "kwf_lib.truncate ex_page_ui = ex_kwf"
  "ui_DecodeRequest ex_page_ui (hr_Body (submit_request (app_init :: unit app_state))) = Inr (page_yaml (app_init :: unit app_state))"
  by (simp_all add: ex_page_ui_def kwf_lib.defs ui_lib.defs)

lemma ex_fetch_post: "\<exists>r w1. ex_fetch (submit_request (app_init :: unit app_state)) Map.empty = (Inr r, w1) \<and> js_ok r"
proof -
  have "create_or_update ex_api (ex_wf '''' None) Map.empty = (Created (ex_wf '''' None), [(''ns'', ''wf'') \<mapsto> ex_wf '''' None])"
    by (simp add: create_or_update_def ex_api_def ex_meta_def)
  moreover have "decode_workflow ex_kwf m1 m2 ns data = Inr (ex_wf '''' None)" for m1 m2 ns data
    by (simp add: decode_document ex_kwf_document)
  moreover have "hr_Method (submit_request a) = ''POST''" "hr_Path (submit_request a) = ''/api/workflows''" for a :: "unit app_state"
    by (simp_all add: submit_request_def)
  ultimately show ?thesis
    by (simp add: ex_fetch_def corsMiddleware_def ui_routes_def Let_def handleWorkflows_def workflows_post_def ex_kwf_client ex_page_ui
        js_ok_def new_response_def header_Set_def)
qed


section \<open>The form\<close>

text \<open>
  What the user can do to the tasks, with the time of the last action: the clock moves on between two
  clicks, and started long after the identifiers the page begins with. A field of a task other than
  its identifier is set.
\<close>

definition task_field :: "(string \<Rightarrow> TaskDef \<Rightarrow> TaskDef) \<Rightarrow> bool" where
  "task_field set_field \<longleftrightarrow> set_field \<in>
     {\<lambda>v t. t\<lparr> td_name := v \<rparr>, \<lambda>v t. t\<lparr> td_image := v \<rparr>, \<lambda>v t. t\<lparr> td_command := v \<rparr>, \<lambda>v t. t\<lparr> td_dependencies := v \<rparr>}"

inductive edited :: "(http_request \<Rightarrow> 'w \<Rightarrow> (string + http_response) \<times> 'w) \<Rightarrow> (string \<Rightarrow> string + 'item list option)
    \<Rightarrow> int \<Rightarrow> 'item app_state \<Rightarrow> bool" for fetch items where
  edited_start: "6 \<le> now \<Longrightarrow> edited fetch items now app_init"
| edited_add: "edited fetch items now a \<Longrightarrow> now < now' \<Longrightarrow> edited fetch items now' (addTask now' a)"
| edited_update: "edited fetch items now a \<Longrightarrow> task_field f \<Longrightarrow> edited fetch items now (updateTask i f v a)"
| edited_remove: "edited fetch items now a \<Longrightarrow> edited fetch items now (removeTask i a)"
| edited_submit: "edited fetch items now a \<Longrightarrow> handleSubmit fetch items a w = (a', w') \<Longrightarrow> edited fetch items now a'"
| edited_refresh: "edited fetch items now a \<Longrightarrow> fetchWorkflows fetch items a w = (a', w') \<Longrightarrow> edited fetch items now a'"

lemma task_field_id: "task_field f \<Longrightarrow> td_id (f v t) = td_id t"
  by (auto simp: task_field_def)

lemma fetchWorkflows_tasks: "fetchWorkflows fetch items a w = (a', w') \<Longrightarrow> ap_tasks a' = ap_tasks a"
  by (auto simp: fetchWorkflows_def split: prod.splits sum.splits if_splits)

lemma handleSubmit_tasks: "handleSubmit fetch items a w = (a', w') \<Longrightarrow> ap_tasks a' = ap_tasks a"
  by (auto simp: handleSubmit_def Let_def dest!: fetchWorkflows_tasks split: prod.splits sum.splits if_splits app_tab.splits)

lemma updateTask_ids: "task_field f \<Longrightarrow> map td_id (ap_tasks (updateTask i f v a)) = map td_id (ap_tasks a)"
  by (simp add: updateTask_def task_field_id)

lemma removeTask_nonempty:
  assumes "distinct (map td_id (ap_tasks a))" "ap_tasks a \<noteq> []"
  shows "ap_tasks (removeTask i a) \<noteq> []"
proof (cases "length (ap_tasks a) = 1")
  case False
  with assms(2) obtain x y ts where ts: "ap_tasks a = x # y # ts" by (cases "ap_tasks a"; cases "tl (ap_tasks a)") auto
  with assms(1) have "td_id x \<noteq> i \<or> td_id y \<noteq> i" by auto
  with ts show ?thesis by (auto simp: removeTask_def)
qed (use assms in \<open>simp add: removeTask_def\<close>)

text \<open>
  However the form is edited, and whatever is submitted meanwhile, it keeps at least one task, and the identifiers the
  handlers find a task by are distinct.
\<close>

theorem form_tasks:
  assumes "edited fetch items now a"
  shows "ap_tasks a \<noteq> [] \<and> distinct (map td_id (ap_tasks a)) \<and> (\<forall>i \<in> set (map td_id (ap_tasks a)). i \<le> now)"
  using assms
proof induction
  case (edited_add now a now')
  then show ?case by (fastforce simp: addTask_def)
next
  case (edited_update now a f i v)
  then show ?case using updateTask_ids [of f i v a] by (metis map_is_Nil_conv)
next
  case (edited_remove now a i)
  then show ?case using removeTask_nonempty [of a i] by (auto simp: removeTask_def intro: distinct_map_filter)
qed (auto simp: app_init_def first_task_def handleSubmit_tasks fetchWorkflows_tasks)

end
