(* ===== verification/Spec2Isabelle.thy ===== *)
theory Spec2Isabelle
  imports Controller_Properties Manager_Properties Kwf_Properties Deepcopy_Properties Py_Properties Status_Types Lifecycle Stubs Front_End_Properties
begin

text \<open>
  A verification of the Kubernetes operator k8s-adaptive-workflows: its Go code, the C++ optimizer
  service, the Python inference service and the handlers of the dashboard page, translated to HOL
  function by function, with the theorems that make them correct.

  \<^bold>\<open>The program.\<close> A user submits an \<^verbatim>\<open>AdaptiveWorkflow\<close>: tasks with dependencies, and limits for the
  resources the running tasks may use together. The controller is called for a workflow whenever
  something about it may have changed. A call loads the object, reads the outcome of the tasks'
  pods into the status, decides whether the workflow has failed or is completed, and otherwise asks
  an inference engine for resource predictions, asks an optimizer which tasks to start, creates
  their pods and writes the status back. Successes go to a history database. Engine and optimizer
  run in the process or behind gRPC, where the optimizer comes as a Go and as a C++ program and the
  engine as a Python one; the manager's start-up chooses. A command line client
  and a small web server with a page in the browser submit and show workflows.

  \<^bold>\<open>The theories, by component.\<close>
  \<^item> \<^verbatim>\<open>Prelude\<close>, \<^verbatim>\<open>Go_Lib\<close>, \<^verbatim>\<open>Go_Float\<close>, \<^verbatim>\<open>Text_Out\<close>: what the program uses of the Go language and
    library: 64-bit integers, errors, the order of map iteration (a parameter of which only \<open>map_order\<close>
    is assumed), decimal texts, floating point where it is computed with, the tab writer, durations.
    \<open>golib\<close> collects quantities and other library functions that are not in the repository.
  \<^item> \<^verbatim>\<open>Api_Types\<close>: \<^verbatim>\<open>api/v1/adaptiveworkflow_types.go\<close>, one record per struct.
  \<^item> \<^verbatim>\<open>Optimizer\<close>: \<^verbatim>\<open>internal/optimizer\<close>. \<open>GreedyOptimizer_Plan\<close> with its loops, the abstract scheduler
    \<open>greedy_pack\<close> it refines, and the contracts \<open>task_optimizer\<close> and \<open>budget_optimizer\<close> as locales.
  \<^item> \<^verbatim>\<open>Inference\<close>: \<^verbatim>\<open>internal/inference\<close>, the baseline engine and the contracts of an engine.
  \<^item> \<^verbatim>\<open>Statedb\<close>: \<^verbatim>\<open>internal/statedb/client.go\<close>, both databases, and the contract \<open>history_store\<close>.
  \<^item> \<^verbatim>\<open>Kube\<close>, \<^verbatim>\<open>Controller\<close>, \<^verbatim>\<open>Reconcile\<close>: \<^verbatim>\<open>internal/controller\<close>. \<^verbatim>\<open>Kube\<close> holds pods, the client
    as a record of functions on an unknown world, and the trace of calls with an effect;
    \<^verbatim>\<open>Controller\<close> the helpers (\<open>podName\<close>, \<open>createTaskPod\<close>, \<open>syncPodsToStatus\<close>, ...); \<^verbatim>\<open>Reconcile\<close> the
    steps of a call and \<open>Reconcile\<close> itself. The relation \<open>active_run\<close> lists what a call on an active
    workflow can do, and the later proofs go by its cases.
  \<^item> \<^verbatim>\<open>Workflow_Safety\<close>, \<^verbatim>\<open>Workflow_Properties\<close>, \<^verbatim>\<open>Controller_Properties\<close>: what one call does:
    initialisation, phase steps, dependencies, budget, decision, deletion, errors, no panics.
  \<^item> \<^verbatim>\<open>System\<close>: calls in sequence, interleaved with the actions of others, stale reads and lost
    answers, over an API server with optimistic concurrency (\<open>api_laws\<close>): the stored history is safe.
  \<^item> \<^verbatim>\<open>Status_Types\<close>: what a stored status always looks like (\<open>status_typed\<close>): the entries are those of the
    tasks, phases are among the declared ones, and the workflow's phase agrees with those of its tasks.
  \<^item> \<^verbatim>\<open>Liveness\<close>: on a cluster that answers (\<open>healthy\<close>) and whose pods make progress (\<open>fair_round\<close>), a
    workflow with an acyclic graph completes within a number of calls linear in its tasks.
  \<^item> \<^verbatim>\<open>Grpc\<close>, \<^verbatim>\<open>Remote\<close>, \<^verbatim>\<open>Remote_Exact\<close>, \<^verbatim>\<open>Remote_Properties\<close>: \<^verbatim>\<open>internal/grpcclient\<close>, the messages of
    \<^verbatim>\<open>proto/gen/go\<close> and \<^verbatim>\<open>cmd/optimizer\<close>. Client and server together satisfy the optimizer's contract,
    plan as the local one where quantities are whole, and lose little otherwise. The contract of a
    planning server is the locale \<open>plan_service\<close>, in which the client's safety is proved once.
  \<^item> \<^verbatim>\<open>Stubs\<close>: the generated \<^verbatim>\<open>*_grpc.pb.go\<close>: client methods, handlers, service descriptions. On a connection
    that keeps gRPC's promise (\<open>connected\<close>) each client method reaches the server's method of its name,
    which gives the law \<open>served_by\<close> for the optimizer.
  \<^item> \<^verbatim>\<open>Cpp_Optimizer\<close>, \<^verbatim>\<open>Cpp_Exact\<close>, \<^verbatim>\<open>Cpp_Properties\<close>: \<^verbatim>\<open>optimizer-service/src\<close>, the C++ server. It is an
    interpretation of \<open>plan_service\<close>; without signed overflow and with the hints it understands it
    plans as the greedy optimizer.
  \<^item> \<^verbatim>\<open>Py_Inference\<close>, \<^verbatim>\<open>Py_Properties\<close>: \<^verbatim>\<open>inference-engine/server.py\<close>, the Python service with its three
    sources of predictions, exceptions as values, and its metric store.
  \<^item> \<^verbatim>\<open>Manager\<close>, \<^verbatim>\<open>Manager_Properties\<close>: \<^verbatim>\<open>cmd/main.go\<close> from the flags to the start of the manager, and
    \<^verbatim>\<open>main\<close> of the optimizer service; the safety of the system under every configuration.
  \<^item> \<^verbatim>\<open>Kwf\<close>, \<^verbatim>\<open>Kwf_Ui\<close>, \<^verbatim>\<open>Kwf_Properties\<close>: \<^verbatim>\<open>cmd/kwf\<close>, the commands with the text they print and the
    handlers of the dashboard.
  \<^item> \<^verbatim>\<open>Front_End\<close>, \<^verbatim>\<open>Front_End_Properties\<close>: \<^verbatim>\<open>ui/src/App.tsx\<close>, the state of the page and its handlers, the
    document the form gives, submission to the server of \<^verbatim>\<open>Kwf_Ui\<close>, and the simulation with its search for
    free places, which ends and draws no overlaps.
  \<^item> \<^verbatim>\<open>Lifecycle\<close>: the command line client and the controller on one API server (the locale
    \<open>shared_cluster\<close>, interpreted on \<^verbatim>\<open>Mem_Cluster\<close>), for the property at the end of this theory: a workflow submitted with
    \<^verbatim>\<open>kwf submit\<close> completes, and \<^verbatim>\<open>kwf status\<close> shows it.
  \<^item> \<^verbatim>\<open>Deepcopy\<close>, \<^verbatim>\<open>Deepcopy_Properties\<close>: \<^verbatim>\<open>zz_generated.deepcopy.go\<close> over an explicit heap, and that
    copies are independent of their originals.
  \<^item> \<^verbatim>\<open>Mem_Cluster\<close>: an executable cluster in memory, on which the witnesses run.

  \<^bold>\<open>Conventions.\<close> Definitions keep the names of the source. A Go function that can fail returns a sum
  or an option of \<open>go_error\<close>; one that can panic returns an option around that, with \<open>None\<close> for the
  panic. State is passed explicitly: the world \<open>'w\<close> is threaded through every call to the outside. A
  pointer or map compared to nil is an option. Loops are recursive functions over the list a range
  statement visits, so the functions here are total and no fuel is needed; the one \<^verbatim>\<open>while(true)\<close>, of the
  page's simulation, is a partial function that is shown to return. A blocking call (the
  manager's start, serving) is a parameter. Integers are words of 64 bits where they are computed
  with; counts of list elements are integers. In the C++ code \<open>None\<close> is undefined behaviour (signed
  overflow, a cast out of range); in the Python code an exception is a \<open>py_exn\<close>, integers are
  unbounded and floats are rounded values.

  \<^bold>\<open>What is assumed.\<close> Code outside the repository is a parameter. Theorems that depend on it name what
  they assume: \<open>quantity_arith\<close>, \<open>quantity_values\<close>, \<open>quantity_parses\<close> and \<open>resource_accessors\<close> for
  quantities, \<open>map_order\<close> and \<open>fair_ranges\<close> for map iteration, \<open>api_laws\<close>, \<open>api_store\<close> and
  \<open>calm_services\<close> for the API server and the services, \<open>served_by\<close>, \<open>delivers\<close> and \<open>connected\<close> for the
  transport, \<open>reaches\<close> for the requests of the page,
  \<open>healthy\<close>, \<open>local_scheduler\<close> and \<open>fair_round\<close> for completion, \<open>shared_cluster\<close> for client and controller
  on one server, \<open>deep\<close> for the copying of Kubernetes structs. Each is satisfied by an instance in the
  development.

  \<^bold>\<open>What is not modelled.\<close> Log messages; timeouts and cancellation other than as errors of the calls
  they bound; controller-runtime's queue (calls come in any order instead, two at a time never for
  one object); the parsing of command lines by cobra and of YAML and JSON documents; the
  reflection data and getters of the generated messages; the registration of the API types with a
  scheme; the script that trains the model of the inference service,
  which is calls of scikit-learn on generated data, and the learned model itself, a parameter; the
  markup of the page and the scheduling of its handlers by React; manifests and tests.
\<close>

section \<open>The whole way of a workflow\<close>


definition ex_empty :: "rat cluster" where
  "ex_empty = \<lparr> cu_versions = [], cu_pods = [], cu_clock = 0 \<rparr>"

definition ex_cobra :: "string list \<Rightarrow> cobra_line" where
  "ex_cobra args = (case args of cmd # rest \<Rightarrow> CobraRun cmd \<lparr> kf_kubeconfig = [], kf_namespace = ''ns'', kf_allNamespaces = False \<rparr> rest
     | [] \<Rightarrow> CobraHelp [])"

definition ex_command :: "string list \<Rightarrow> rat cluster \<Rightarrow> (int \<times> string) \<times> rat cluster" where
  "ex_command = kwf_main mem_ui (\<lambda>req r w. (r, w)) (\<lambda>addr h w. (None, w)) ex_cobra"

definition ex_submitted :: "rat cluster" where
  "ex_submitted = snd (ex_command [''submit'', ''f.yaml''] ex_empty)"

lemma ex_command_submit: "\<exists>out. ex_command [''submit'', ''f.yaml''] ex_empty = ((0, out), ex_submitted)"
proof -
  have "fst (fst (ex_command [''submit'', ''f.yaml''] ex_empty)) = 0" by code_simp
  then show ?thesis unfolding ex_submitted_def by (metis prod.collapse)
qed

lemma ex_command_status: "mem_up w \<Longrightarrow> \<exists>out w'. ex_command [''status'', ''wf''] w = ((0, out), w')"
  by (auto simp: ex_command_def kwf_main_def rootCmd_Execute_def ex_cobra_def ExactArgs1_def mem_ui_truncate statusCmd_def
      mem_kwf_client mem_api_def mem_Get_def mem_up_def split: list.splits)


end
